(* ===== verification/Prelude.thy ===== *)
theory Prelude
  imports Complex_Main "HOL-Library.Word"
begin

text \<open>
  Shared vocabulary of the development: the named collections that the component proofs
  use, Go's \<^verbatim>\<open>int64\<close> as a 64-bit word read through \<open>sint\<close>, the error-or-value
  results of Go functions, database transactions as state-passing functions that may fail,
  rows of a table as lists, decimal printing, and the lifting of a one-step invariant to a
  sequence of events.
\<close>

section \<open>Collections of facts\<close>

named_theorems result_simps \<open>unfolding of the error-or-value combinators\<close>
named_theorems row_simps \<open>reading a table after a write\<close>
named_theorems tx_defs \<open>definitions of the SQL statements\<close>

section \<open>Machine integers\<close>

type_synonym int64 = "64 word"

text \<open>Instants and durations are counted in nanoseconds.\<close>

type_synonym time = int
type_synonym duration = int

definition second :: duration where "second = 1000000000"
definition minute :: duration where "minute = 60 * second"

text \<open>The zero value of \<^verbatim>\<open>time.Time\<close>, the first instant of year 1.\<close>

definition zero_time :: time where "zero_time = - 62135596800 * second"

lemma sint64_ge: "- 9223372036854775808 \<le> sint (x :: int64)"
  using sint_ge [of x] by simp

lemma sint64_le: "sint (x :: int64) \<le> 9223372036854775807"
  using sint_lt [of x] by simp

lemma sint64_add:
  fixes a b :: int64
  assumes "- 9223372036854775808 \<le> sint a + sint b"
    and "sint a + sint b \<le> 9223372036854775807"
  shows "sint (a + b) = sint a + sint b"
  using assms by (simp add: sint_word_add signed_take_bit_int_eq_self)

lemma sint64_diff:
  fixes a b :: int64
  assumes "- 9223372036854775808 \<le> sint a - sint b"
    and "sint a - sint b \<le> 9223372036854775807"
  shows "sint (a - b) = sint a - sint b"
  using assms by (simp add: sint_word_ariths signed_take_bit_int_eq_self)

lemma sint64_inject: "sint (a :: int64) = sint b \<longleftrightarrow> a = b"
  by (auto intro: signed_word_eqI)

lemma sless64: "(a :: int64) <s b \<longleftrightarrow> sint a < sint b"
  by (rule word_sless_alt)

lemma sle64: "(a :: int64) \<le>s b \<longleftrightarrow> sint a \<le> sint b"
  by (rule word_sle_eq)

lemmas int64_order = sless64 sle64

text \<open>Subtracting two non-negative values, or adding under a bound, does not wrap.\<close>

lemma sint64_diff_nonneg:
  fixes a b :: int64
  assumes "0 \<le> sint a" and "0 \<le> sint b"
  shows "sint (a - b) = sint a - sint b"
  using assms sint64_le [of a] sint64_le [of b] by (intro sint64_diff) linarith+

lemma sint64_add_upto:
  fixes a b c :: int64
  assumes "0 \<le> sint a" and "sint a + sint b \<le> sint c"
  shows "sint (a + b) = sint a + sint b"
  using assms sint64_ge [of b] sint64_le [of c] by (intro sint64_add) linarith+

lemma sint64_sum_list_nonneg:
  fixes xs :: "int64 list"
  assumes "\<forall>x \<in> set xs. 0 \<le> sint x"
    and "sum_list (map sint xs) \<le> 9223372036854775807"
  shows "sint (sum_list xs) = sum_list (map sint xs)"
  using assms
proof (induction xs)
  case Nil
  then show ?case by simp
next
  case (Cons x xs)
  have nn: "0 \<le> sum_list (map sint xs)"
    using Cons.prems(1) by (intro sum_list_nonneg) auto
  with Cons.prems have IH: "sint (sum_list xs) = sum_list (map sint xs)"
    by (intro Cons.IH) auto
  show ?case
    using Cons.prems nn IH by (simp add: sint64_add)
qed

section \<open>Error-or-value results\<close>

text \<open>
  A Go function that returns \<^verbatim>\<open>(T, error)\<close> is a function into \<open>'e + 'a\<close>.
  \<open>andThen\<close> is the idiom \<^verbatim>\<open>x, err := f(); if err != nil { return err }\<close>.
\<close>

fun andThen :: "'e + 'a \<Rightarrow> ('a \<Rightarrow> 'e + 'b) \<Rightarrow> 'e + 'b" where
  "andThen (Inl e) f = Inl e"
| "andThen (Inr a) f = f a"

fun mapErr :: "('e \<Rightarrow> 'f) \<Rightarrow> 'e + 'a \<Rightarrow> 'f + 'a" where
  "mapErr w (Inl e) = Inl (w e)"
| "mapErr w (Inr a) = Inr a"

fun isInl :: "'e + 'a \<Rightarrow> bool" where
  "isInl (Inl _) = True"
| "isInl (Inr _) = False"

text \<open>\<open>guardE\<close> returns the error when there is one: a call whose only result is an error.\<close>

fun guardE :: "'e option \<Rightarrow> 'e + unit" where
  "guardE None = Inr ()"
| "guardE (Some e) = Inl e"

lemma andThen_Inr_iff: "andThen m f = Inr b \<longleftrightarrow> (\<exists>a. m = Inr a \<and> f a = Inr b)"
  by (cases m) auto

lemma mapErr_Inr_iff: "mapErr w m = Inr a \<longleftrightarrow> m = Inr a"
  by (cases m) auto

lemma guardE_Inr_iff: "guardE e = Inr u \<longleftrightarrow> e = None"
  by (cases e) auto

lemmas result_iffs = andThen_Inr_iff mapErr_Inr_iff guardE_Inr_iff

lemma not_isInl: "\<not> isInl m \<longleftrightarrow> (\<exists>a. m = Inr a)"
  by (cases m) auto

section \<open>Tables as lists of rows\<close>

definition update_where :: "('r \<Rightarrow> bool) \<Rightarrow> ('r \<Rightarrow> 'r) \<Rightarrow> 'r list \<Rightarrow> 'r list" where
  "update_where P f rs = map (\<lambda>r. if P r then f r else r) rs"

definition rows_matching :: "('r \<Rightarrow> bool) \<Rightarrow> 'r list \<Rightarrow> nat" where
  "rows_matching P rs = length (filter P rs)"

lemma update_where_Nil [simp]: "update_where P f [] = []"
  by (simp add: update_where_def)

lemma update_where_Cons [simp]:
  "update_where P f (r # rs) = (if P r then f r else r) # update_where P f rs"
  by (simp add: update_where_def)

lemma update_where_append [simp]:
  "update_where P f (rs @ rs') = update_where P f rs @ update_where P f rs'"
  by (simp add: update_where_def)

lemma length_update_where [simp]: "length (update_where P f rs) = length rs"
  by (simp add: update_where_def)

lemma map_update_where_same:
  "(\<And>r. P r \<Longrightarrow> g (f r) = g r) \<Longrightarrow> map g (update_where P f rs) = map g rs"
  by (simp add: update_where_def)

lemma in_set_update_where:
  "r \<in> set (update_where P f rs) \<longleftrightarrow>
     (\<exists>r' \<in> set rs. P r' \<and> r = f r') \<or> (r \<in> set rs \<and> \<not> P r)"
  by (auto simp: update_where_def)

lemma update_where_none: "(\<And>r. r \<in> set rs \<Longrightarrow> \<not> P r) \<Longrightarrow> update_where P f rs = rs"
  by (auto simp: update_where_def intro: map_idI)

lemma find_append: "find P (xs @ ys) = (case find P xs of None \<Rightarrow> find P ys | Some x \<Rightarrow> Some x)"
  by (induction xs) auto

lemma find_update_where:
  assumes "\<And>r. P r \<Longrightarrow> Q (f r) = Q r"
  shows "find Q (update_where P f rs) =
    map_option (\<lambda>r. if P r then f r else r) (find Q rs)"
  using assms by (induction rs) auto

lemma find_map_key:
  assumes "\<And>x. k (f x) = k x"
  shows "find (\<lambda>x. k x = c) (map f xs) = map_option f (find (\<lambda>x. k x = c) xs)"
  using assms by (induction xs) auto

lemma find_SomeD: "find P xs = Some x \<Longrightarrow> P x \<and> x \<in> set xs"
  by (auto simp: find_Some_iff)

lemma find_None_rows: "find P xs = None \<longleftrightarrow> rows_matching P xs = 0"
  by (auto simp: rows_matching_def find_None_iff filter_empty_conv)

text \<open>A key that occurs once selects one row.\<close>

lemma distinct_key_find:
  assumes "distinct (map k rs)" and "r \<in> set rs"
  shows "find (\<lambda>x. k x = k r) rs = Some r"
  using assms
proof (induction rs)
  case Nil
  then show ?case by simp
next
  case (Cons a rs)
  show ?case
  proof (cases "a = r")
    case True
    then show ?thesis by simp
  next
    case False
    with Cons.prems have "r \<in> set rs" and "k a \<noteq> k r" by (auto simp: image_iff)
    with Cons show ?thesis by simp
  qed
qed

section \<open>Decimal printing\<close>

text \<open>The \<^verbatim>\<open>%d\<close> of \<^verbatim>\<open>fmt.Sprintf\<close>.\<close>

fun show_nat :: "nat \<Rightarrow> string" where
  "show_nat n =
     (if n < 10 then [char_of (48 + n)] else show_nat (n div 10) @ [char_of (48 + n mod 10)])"

declare show_nat.simps [simp del]

definition show_int :: "int \<Rightarrow> string" where
  "show_int i = (if i < 0 then CHR ''-'' # show_nat (nat (- i)) else show_nat (nat i))"

section \<open>Invariants of machines\<close>

text \<open>
  Every component with state is a step function over its events. The interface asks for
  an invariant that one step keeps; its client lemma says that every run keeps it.
\<close>

locale machine =
  fixes step :: "'s \<Rightarrow> 'e \<Rightarrow> 's"
    and inv :: "'s \<Rightarrow> bool"
  assumes inv_step: "inv s \<Longrightarrow> inv (step s e)"
begin

lemma run_keeps_inv: "inv s \<Longrightarrow> inv (foldl step s es)"
  by (induction es arbitrary: s) (auto intro: inv_step)

lemma run_prefix_inv: "inv s \<Longrightarrow> es = us @ vs \<Longrightarrow> inv (foldl step s us)"
  by (simp add: run_keeps_inv)

end

end
