(* ===== verification/Models.thy ===== *)
theory Models
  imports Prelude
begin

text \<open>
  The domain models of \<^verbatim>\<open>internal/models\<close>: the enumerations as datatypes, with the strings
  they are stored as, and the structs as records. A nullable column or a Go pointer is an
  \<open>option\<close>; the state of a payment in a transition row may be the empty string, which is
  \<open>None\<close>. Opaque JSON maps (metadata, payment method details) are kept as decoded JSON.
\<close>

section \<open>Decoded JSON\<close>

text \<open>
  The result of \<^verbatim>\<open>json.Unmarshal\<close> into \<^verbatim>\<open>interface{}\<close>. A number is the value of the
  \<^verbatim>\<open>float64\<close> that the decoder produced.
\<close>

datatype json =
    JNull
  | JBool bool
  | JNum rat
  | JStr string
  | JArr "json list"
  | JObj "(string \<times> json) list"

type_synonym json_obj = "(string \<times> json) list"

text \<open>
  Reading a key of the decoded map, the last occurrence winning, and the checked type
  assertions \<^verbatim>\<open>v.(string)\<close>, \<^verbatim>\<open>v.(float64)\<close> and \<^verbatim>\<open>v.(map[string]interface{})\<close>.
\<close>

definition json_get :: "json_obj \<Rightarrow> string \<Rightarrow> json option" where
  "json_get obj key = map_of (rev obj) key"

fun as_string :: "json option \<Rightarrow> string option" where
  "as_string (Some (JStr s)) = Some s"
| "as_string _ = None"

fun as_float :: "json option \<Rightarrow> rat option" where
  "as_float (Some (JNum x)) = Some x"
| "as_float _ = None"

fun as_object :: "json option \<Rightarrow> json_obj option" where
  "as_object (Some (JObj kvs)) = Some kvs"
| "as_object _ = None"

text \<open>The zero value of a failed assertion whose second result is dropped.\<close>

definition string_field :: "json_obj \<Rightarrow> string \<Rightarrow> string" where
  "string_field obj key = (case as_string (json_get obj key) of Some s \<Rightarrow> s | None \<Rightarrow> [])"

definition float_field :: "json_obj \<Rightarrow> string \<Rightarrow> rat" where
  "float_field obj key = (case as_float (json_get obj key) of Some x \<Rightarrow> x | None \<Rightarrow> 0)"

section \<open>Payments\<close>

datatype payment_status =
    PaymentStatusCreated
  | PaymentStatusPending
  | PaymentStatusAuthorized
  | PaymentStatusCaptured
  | PaymentStatusFailed
  | PaymentStatusCancelled
  | PaymentStatusRefunded
  | PaymentStatusPartiallyRefunded

fun status_string :: "payment_status \<Rightarrow> string" where
  "status_string PaymentStatusCreated = ''created''"
| "status_string PaymentStatusPending = ''pending''"
| "status_string PaymentStatusAuthorized = ''authorized''"
| "status_string PaymentStatusCaptured = ''captured''"
| "status_string PaymentStatusFailed = ''failed''"
| "status_string PaymentStatusCancelled = ''cancelled''"
| "status_string PaymentStatusRefunded = ''refunded''"
| "status_string PaymentStatusPartiallyRefunded = ''partially_refunded''"

text \<open>
  \<^verbatim>\<open>IsValid\<close> is asked of an arbitrary string of type \<^verbatim>\<open>PaymentStatus\<close>.
\<close>

definition IsValid :: "string \<Rightarrow> bool" where
  "IsValid s \<longleftrightarrow>
     s = status_string PaymentStatusCreated \<or> s = status_string PaymentStatusPending
   \<or> s = status_string PaymentStatusAuthorized \<or> s = status_string PaymentStatusCaptured
   \<or> s = status_string PaymentStatusFailed \<or> s = status_string PaymentStatusCancelled
   \<or> s = status_string PaymentStatusRefunded \<or> s = status_string PaymentStatusPartiallyRefunded"

fun IsTerminal :: "payment_status \<Rightarrow> bool" where
  "IsTerminal PaymentStatusFailed = True"
| "IsTerminal PaymentStatusCancelled = True"
| "IsTerminal PaymentStatusRefunded = True"
| "IsTerminal _ = False"

lemma status_string_inject [simp]: "status_string a = status_string b \<longleftrightarrow> a = b"
  by (cases a; cases b) simp_all

lemma IsValid_iff: "IsValid s \<longleftrightarrow> (\<exists>st. s = status_string st)"
proof
  assume "\<exists>st. s = status_string st"
  then obtain st where "s = status_string st" by blast
  then show "IsValid s" by (cases st) (simp_all add: IsValid_def)
next
  assume "IsValid s"
  then show "\<exists>st. s = status_string st" unfolding IsValid_def by blast
qed

record payment =
  ID :: string
  MerchantID :: string
  OrderID :: string
  Amount :: int64
  Currency :: string
  Status :: payment_status
  PSP :: string
  PSPPaymentID :: string
  CustomerEmail :: string
  CustomerPhone :: string
  CustomerName :: string
  PaymentMethodType :: string
  PaymentMethodDetails :: "json_obj option"
  TotalRefunded :: int64
  Metadata :: "json_obj option"
  CreatedAt :: time
  UpdatedAt :: time
  CreatedBy :: string

record state_transition =
  tr_ID :: string
  tr_PaymentID :: string
  tr_FromStatus :: "payment_status option"
  tr_ToStatus :: payment_status
  tr_Reason :: string
  tr_TriggeredBy :: string
  tr_CreatedAt :: time

record create_payment_request =
  rq_MerchantID :: string
  rq_OrderID :: string
  rq_Amount :: int64
  rq_Currency :: string
  rq_CustomerEmail :: string
  rq_CustomerPhone :: string
  rq_CustomerName :: string
  rq_PaymentMethodType :: string
  rq_PaymentMethodDetails :: "json_obj option"
  rq_RoutingPreferences :: "string option" \<comment> \<open>the \<^verbatim>\<open>PreferredPSP\<close> of a non-nil pointer\<close>
  rq_Metadata :: "json_obj option"

record refund_request =
  rf_Amount :: int64
  rf_Reason :: string

record payment_response =
  pr_Payment :: payment
  pr_StateTransitions :: "state_transition list"

section \<open>Ledger\<close>

datatype account_type =
    AccountTypeAsset
  | AccountTypeLiability
  | AccountTypeRevenue
  | AccountTypeExpense

definition AccPSPSettlement :: string where "AccPSPSettlement = ''PSP_SETTLEMENT''"
definition AccMerchantPayable :: string where "AccMerchantPayable = ''MERCHANT_PAY''"
definition AccRefundExpense :: string where "AccRefundExpense = ''REFUND_EXP''"

datatype transaction_status = TxStatusPending | TxStatusPosted | TxStatusReversed

record ledger_account =
  la_ID :: string
  la_AccountCode :: string
  la_AccountName :: string
  la_AccountType :: account_type
  la_Currency :: string
  la_CurrentBalance :: int64

record ledger_transaction =
  lt_ID :: string
  lt_PaymentID :: "string option"
  lt_TransactionType :: string
  lt_Status :: transaction_status
  lt_CreatedAt :: time
  lt_PostedAt :: "time option"

record ledger_entry =
  le_ID :: string
  le_TransactionID :: string
  le_AccountID :: string
  le_Debit :: int64
  le_Credit :: int64
  le_RunningBalance :: int64
  le_Description :: string
  le_ReferenceID :: string
  le_CreatedAt :: time

record entry_line =
  el_AccountCode :: string
  el_Debit :: int64
  el_Credit :: int64
  el_Description :: string
  el_ReferenceID :: string

record post_transaction_request =
  pt_PaymentID :: string
  pt_TransactionType :: string
  pt_Entries :: "entry_line list"

record balance_response =
  br_AccountCode :: string
  br_AccountName :: string
  br_AccountType :: account_type
  br_CurrentBalance :: int64
  br_Currency :: string

section \<open>Webhooks\<close>

datatype webhook_status =
    WebhookStatusReceived
  | WebhookStatusProcessing
  | WebhookStatusProcessed
  | WebhookStatusFailed

record webhook_event =
  we_ID :: string
  we_PSP :: string
  we_EventType :: string
  we_RawPayload :: string
  we_Signature :: string
  we_PSPPaymentID :: string
  we_InternalPaymentID :: "string option"
  we_Status :: webhook_status
  we_IdempotencyKey :: string
  we_ProcessedAt :: "time option"
  we_ErrorMessage :: "string option"
  we_CreatedAt :: time

section \<open>Reconciliation\<close>

datatype reconciliation_status = ReconStatusInProgress | ReconStatusCompleted | ReconStatusFailed

datatype discrepancy_type =
    DiscrepancyMissingInPSP
  | DiscrepancyMissingInternal
  | DiscrepancyAmountMismatch
  | DiscrepancyStatusMismatch

datatype resolution_status = ResolutionOpen | ResolutionInvestigating | ResolutionResolved

record reconciliation_record =
  rr_ID :: string
  rr_ReconciliationDate :: time
  rr_PSP :: string
  rr_TotalPayments :: int
  rr_TotalAmount :: int64
  rr_InternalRecordCount :: int
  rr_PSPRecordCount :: int
  rr_MatchedCount :: int
  rr_DiscrepancyCount :: int
  rr_Status :: reconciliation_status
  rr_CreatedAt :: time
  rr_CompletedAt :: "time option"

record discrepancy =
  di_ID :: string
  di_ReconciliationRecordID :: string
  di_PaymentID :: string
  di_DiscrepancyType :: discrepancy_type
  di_InternalAmount :: "int64 option"
  di_PSPAmount :: "int64 option"
  di_InternalStatus :: string
  di_PSPStatus :: string
  di_ResolutionStatus :: resolution_status
  di_ResolutionNotes :: string
  di_CreatedAt :: time
  di_ResolvedAt :: "time option"

section \<open>Routing\<close>

definition PSPStripe :: string where "PSPStripe = ''stripe''"
definition PSPRazorpay :: string where "PSPRazorpay = ''razorpay''"
definition PSPMock :: string where "PSPMock = ''mock''"

record routing_conditions =
  MinAmount :: "int64 option"
  MaxAmount :: "int64 option"
  rc_Currency :: string
  rc_Country :: string
  rc_CountryNe :: string

record routing_rule =
  ru_Name :: string
  ru_Conditions :: routing_conditions
  ru_PrimaryPSP :: string
  ru_FallbackPSP :: string
  ru_Priority :: int

record routing_decision =
  rd_SelectedPSP :: string
  rd_FallbackPSP :: string
  rd_Reason :: string
  rd_RuleName :: string

end
