(* ===== verification/Errors.thy ===== *)
theory Errors
  imports Models
begin

text \<open>
  Go error values. The sentinels of \<^verbatim>\<open>internal/service/errors.go\<close> and every error the services
  construct are constructors; \<open>Wrapped\<close> is \<^verbatim>\<open>fmt.Errorf("ctx: %w", err)\<close> and
  \<open>WrappedWith\<close> is \<^verbatim>\<open>fmt.Errorf("%w: text", err)\<close>. \<open>ExternalErr\<close> is an error that the
  database driver, Redis, Pub/Sub or a provider's SDK returned.
\<close>

datatype err =
    ErrPaymentNotFound
  | ErrAccountNotFound
  | ErrInvalidState
  | ErrNotAuthorized
  | ErrNoRows
  | ExternalErr string
  | Errorf string
  | TerminalState payment_status
  | InvalidTransition payment_status payment_status
  | OptimisticLockFailed string payment_status
  | NotRefundable payment_status
  | RefundExceeds int64 int64 int64 int64
  | AdapterNotFound string
  | UnknownPSP string
  | UnbalancedEntries int64 int64
  | StaleWebhook duration
  | FutureWebhook duration
  | RetriesExhausted string int "err option"
  | NonRetryableError err
  | Wrapped string err
  | WrappedWith err string

text \<open>
  \<^verbatim>\<open>err.Error()\<close>. The arrow in the text of an invalid transition is one code point of three
  bytes. A nil error under \<^verbatim>\<open>%w\<close> prints as \<^verbatim>\<open>%!w(<nil>)\<close>.
\<close>

definition arrow :: string where
  "arrow = '' '' @ map char_of [0xE2, 0x86, 0x92 :: nat] @ '' ''"

definition show_int64 :: "int64 \<Rightarrow> string" where
  "show_int64 n = show_int (sint n)"

text \<open>\<^verbatim>\<open>d.Round(time.Second)\<close>, halves away from zero, printed by \<^verbatim>\<open>%v\<close>.\<close>

definition round_second :: "duration \<Rightarrow> int" where
  "round_second d = (if 0 \<le> d then (d + second div 2) div second else - ((second div 2 - d) div second))"

definition show_seconds :: "int \<Rightarrow> string" where
  "show_seconds n =
     (let a = \<bar>n\<bar>; h = a div 3600; m = a div 60 mod 60; s = a mod 60 in
      (if n < 0 then ''-'' else []) @ (if h \<noteq> 0 then show_int h @ ''h'' else [])
        @ (if h \<noteq> 0 \<or> m \<noteq> 0 then show_int m @ ''m'' else []) @ show_int s @ ''s'')"

fun Error :: "err \<Rightarrow> string" where
  "Error ErrPaymentNotFound = ''payment not found''"
| "Error ErrAccountNotFound = ''account not found''"
| "Error ErrInvalidState = ''invalid payment state for this operation''"
| "Error ErrNotAuthorized = ''payment not in authorized state''"
| "Error ErrNoRows = ''no rows in result set''"
| "Error (ExternalErr s) = s"
| "Error (Errorf s) = s"
| "Error (TerminalState from) =
     ''no transitions allowed from terminal state '' @ [CHR 0x22] @ status_string from @ [CHR 0x22]"
| "Error (InvalidTransition from to) =
     ''invalid transition: '' @ status_string from @ arrow @ status_string to"
| "Error (OptimisticLockFailed pid from) =
     ''optimistic lock failed: payment '' @ pid @ '' is no longer in status '' @ status_string from"
| "Error (NotRefundable st) =
     ''payment must be captured or partially refunded to refund, current status: '' @ status_string st"
| "Error (RefundExceeds amount remaining original refunded) =
     ''refund amount '' @ show_int64 amount @ '' exceeds remaining refundable amount ''
       @ show_int64 remaining @ '' (original: '' @ show_int64 original @ '', already refunded: ''
       @ show_int64 refunded @ '')''"
| "Error (AdapterNotFound psp) = ''PSP adapter '' @ [CHR 0x22] @ psp @ [CHR 0x22] @ '' not found''"
| "Error (UnknownPSP psp) = ''unknown psp: '' @ psp"
| "Error (UnbalancedEntries d c) =
     ''double-entry validation failed: debits ('' @ show_int64 d
       @ '') do not equal credits ('' @ show_int64 c @ '')''"
| "Error (StaleWebhook age) =
     ''webhook timestamp is '' @ show_seconds (round_second age) @ '' old (max allowed: 5m0s)''"
| "Error (FutureWebhook ahead) =
     ''webhook timestamp is '' @ show_seconds (round_second ahead) @ '' in the future''"
| "Error (RetriesExhausted op n None) =
     op @ '' failed after '' @ show_int n @ '' attempts: %!w(<nil>)''"
| "Error (RetriesExhausted op n (Some e)) =
     op @ '' failed after '' @ show_int n @ '' attempts: '' @ Error e"
| "Error (NonRetryableError e) = Error e"
| "Error (Wrapped ctx e) = ctx @ '': '' @ Error e"
| "Error (WrappedWith e s) = Error e @ '': '' @ s"

text \<open>
  \<^verbatim>\<open>errors.Unwrap\<close> follows the wrapped error of \<^verbatim>\<open>%w\<close>; \<^verbatim>\<open>errors.Is\<close> looks along that
  chain for a sentinel.
\<close>

fun error_chain :: "err \<Rightarrow> err list" where
  "error_chain (RetriesExhausted op n (Some e)) = RetriesExhausted op n (Some e) # error_chain e"
| "error_chain (NonRetryableError e) = NonRetryableError e # error_chain e"
| "error_chain (Wrapped ctx e) = Wrapped ctx e # error_chain e"
| "error_chain (WrappedWith e s) = WrappedWith e s # error_chain e"
| "error_chain e = [e]"

definition errors_Is :: "err \<Rightarrow> err \<Rightarrow> bool" where
  "errors_Is e target \<longleftrightarrow> target \<in> set (error_chain e)"

lemma errors_Is_simps [simp]:
  "errors_Is (Wrapped ctx e) ErrPaymentNotFound = errors_Is e ErrPaymentNotFound"
  "errors_Is (Wrapped ctx e) ErrAccountNotFound = errors_Is e ErrAccountNotFound"
  "errors_Is (WrappedWith e s) ErrAccountNotFound = errors_Is e ErrAccountNotFound"
  "errors_Is ErrPaymentNotFound ErrPaymentNotFound = True"
  "errors_Is ErrAccountNotFound ErrAccountNotFound = True"
  "errors_Is ErrNoRows ErrPaymentNotFound = False"
  "errors_Is ErrNoRows ErrAccountNotFound = False"
  "errors_Is (ExternalErr t) ErrPaymentNotFound = False"
  "errors_Is (ExternalErr t) ErrAccountNotFound = False"
  by (simp_all add: errors_Is_def)

end
