(* ===== verification/State_Machine.thy ===== *)
theory State_Machine
  imports Errors
begin

text \<open>
  The payment state machine of \<^verbatim>\<open>internal/service/statemachine.go\<close>: the table of legal
  status changes and its three readers. The lemmas show that the table and
  \<^verbatim>\<open>PaymentStatus.IsTerminal\<close> agree, that the machine makes progress (only a partial refund
  may repeat), and that money cannot be returned before it was captured.
\<close>

section \<open>The transition table\<close>

fun validTransitions :: "payment_status \<Rightarrow> payment_status list option" where
  "validTransitions PaymentStatusCreated =
     Some [PaymentStatusPending, PaymentStatusAuthorized, PaymentStatusFailed]"
| "validTransitions PaymentStatusPending =
     Some [PaymentStatusAuthorized, PaymentStatusCaptured, PaymentStatusFailed]"
| "validTransitions PaymentStatusAuthorized =
     Some [PaymentStatusCaptured, PaymentStatusCancelled, PaymentStatusFailed]"
| "validTransitions PaymentStatusCaptured =
     Some [PaymentStatusRefunded, PaymentStatusPartiallyRefunded]"
| "validTransitions PaymentStatusPartiallyRefunded =
     Some [PaymentStatusRefunded, PaymentStatusPartiallyRefunded]"
| "validTransitions _ = None"

text \<open>The result is the error, \<open>None\<close> being \<^verbatim>\<open>nil\<close>.\<close>

definition ValidateTransition :: "payment_status \<Rightarrow> payment_status \<Rightarrow> err option" where
  "ValidateTransition from to =
     (case validTransitions from of
        None \<Rightarrow> Some (TerminalState from)
      | Some allowed \<Rightarrow>
          if to \<in> set allowed then None else Some (InvalidTransition from to))"

definition CanTransition :: "payment_status \<Rightarrow> payment_status \<Rightarrow> bool" where
  "CanTransition from to \<longleftrightarrow> ValidateTransition from to = None"

text \<open>Reading an absent key of a Go map gives the nil slice.\<close>

definition AllowedTransitions :: "payment_status \<Rightarrow> payment_status list" where
  "AllowedTransitions current = (case validTransitions current of None \<Rightarrow> [] | Some l \<Rightarrow> l)"

section \<open>Properties of the table\<close>

lemma CanTransition_iff: "CanTransition a b \<longleftrightarrow> b \<in> set (AllowedTransitions a)"
  by (simp add: CanTransition_def ValidateTransition_def AllowedTransitions_def split: option.split)

lemma CanTransition_from [simp]:
  "CanTransition PaymentStatusCreated b \<longleftrightarrow>
     b = PaymentStatusPending \<or> b = PaymentStatusAuthorized \<or> b = PaymentStatusFailed"
  "CanTransition PaymentStatusPending b \<longleftrightarrow>
     b = PaymentStatusAuthorized \<or> b = PaymentStatusCaptured \<or> b = PaymentStatusFailed"
  "CanTransition PaymentStatusAuthorized b \<longleftrightarrow>
     b = PaymentStatusCaptured \<or> b = PaymentStatusCancelled \<or> b = PaymentStatusFailed"
  "CanTransition PaymentStatusCaptured b \<longleftrightarrow>
     b = PaymentStatusRefunded \<or> b = PaymentStatusPartiallyRefunded"
  "CanTransition PaymentStatusPartiallyRefunded b \<longleftrightarrow>
     b = PaymentStatusRefunded \<or> b = PaymentStatusPartiallyRefunded"
  "\<not> CanTransition PaymentStatusFailed b"
  "\<not> CanTransition PaymentStatusCancelled b"
  "\<not> CanTransition PaymentStatusRefunded b"
  by (auto simp: CanTransition_iff AllowedTransitions_def)

lemma ValidateTransition_None [simp]: "ValidateTransition a b = None \<longleftrightarrow> CanTransition a b"
  by (simp add: CanTransition_def)

text \<open>A path is a list of statuses, each a legal successor of the one before.\<close>

fun valid_path :: "payment_status list \<Rightarrow> bool" where
  "valid_path (a # b # ps) = (CanTransition a b \<and> valid_path (b # ps))"
| "valid_path _ = True"

lemma valid_path_append:
  "valid_path (ps @ [a]) \<Longrightarrow> CanTransition a b \<Longrightarrow> valid_path (ps @ [a, b])"
proof (induction ps)
  case (Cons p ps)
  then show ?case by (cases ps) auto
qed simp

text \<open>Progress: a status change climbs, but for the repeated partial refund.\<close>

fun status_rank :: "payment_status \<Rightarrow> nat" where
  "status_rank PaymentStatusCreated = 0"
| "status_rank PaymentStatusPending = 1"
| "status_rank PaymentStatusAuthorized = 2"
| "status_rank PaymentStatusCaptured = 3"
| "status_rank PaymentStatusPartiallyRefunded = 4"
| "status_rank _ = 5"

lemma CanTransition_climbs:
  "CanTransition a b \<Longrightarrow>
     status_rank a < status_rank b \<or> a = PaymentStatusPartiallyRefunded \<and> b = a"
  by (cases a) auto

lemma valid_path_rank:
  "valid_path (a # ps) \<Longrightarrow> b \<in> set ps \<Longrightarrow>
     status_rank a < status_rank b \<or> a = PaymentStatusPartiallyRefunded \<and> b = a"
proof (induction ps arbitrary: a)
  case Nil
  then show ?case by simp
next
  case (Cons c ps)
  then have "CanTransition a c" and "valid_path (c # ps)" by auto
  with Cons.IH [of c] Cons.prems(2) CanTransition_climbs [of a c] show ?case by fastforce
qed

text \<open>
  Along any sequence of legal status changes no status other than a partial refund is
  ever entered twice, so every payment settles after a bounded number of changes apart from
  repeated partial refunds.
\<close>

theorem no_status_repeats:
  assumes "valid_path ps"
  shows "distinct (filter (\<lambda>s. s \<noteq> PaymentStatusPartiallyRefunded) ps)"
  using assms
proof (induction ps)
  case Nil
  then show ?case by simp
next
  case (Cons a ps)
  then have "valid_path ps" by (cases ps) auto
  with Cons valid_path_rank [OF Cons.prems, of a] show ?case by auto
qed

theorem no_status_repeats_witness:
  "valid_path [PaymentStatusCreated, PaymentStatusAuthorized, PaymentStatusCaptured,
     PaymentStatusPartiallyRefunded, PaymentStatusPartiallyRefunded, PaymentStatusRefunded]
   \<and> distinct (filter (\<lambda>s. s \<noteq> PaymentStatusPartiallyRefunded)
     [PaymentStatusCreated, PaymentStatusAuthorized, PaymentStatusCaptured,
      PaymentStatusPartiallyRefunded, PaymentStatusPartiallyRefunded, PaymentStatusRefunded])"
proof -
  have v: "valid_path [PaymentStatusCreated, PaymentStatusAuthorized, PaymentStatusCaptured,
     PaymentStatusPartiallyRefunded, PaymentStatusPartiallyRefunded, PaymentStatusRefunded]"
    by simp
  from v no_status_repeats [OF v] show ?thesis by blast
qed

text \<open>
  A status is terminal for \<^verbatim>\<open>IsTerminal\<close> exactly when the table has no entry for it, and
  then \<^verbatim>\<open>ValidateTransition\<close> rejects every target with the terminal-state error.
\<close>

theorem IsTerminal_agrees_with_table:
  "(IsTerminal s \<longleftrightarrow> AllowedTransitions s = []) \<and>
   (IsTerminal s \<longleftrightarrow> (\<forall>t. ValidateTransition s t = Some (TerminalState s)))"
  by (cases s) (auto simp: AllowedTransitions_def ValidateTransition_def)

text \<open>
  A payment that starts as created is refunded, fully or in part, only after it was
  captured.
\<close>

definition is_refund_status :: "payment_status \<Rightarrow> bool" where
  "is_refund_status s \<longleftrightarrow> s = PaymentStatusRefunded \<or> s = PaymentStatusPartiallyRefunded"

lemma refund_path_enters_captured:
  assumes "valid_path (a # ps)" and "status_rank a < 3"
    and "b \<in> set ps" and "is_refund_status b"
  shows "PaymentStatusCaptured \<in> set ps"
  using assms
proof (induction ps arbitrary: a)
  case Nil
  then show ?case by simp
next
  case (Cons c ps)
  from Cons.prems have step: "CanTransition a c" and path: "valid_path (c # ps)" by auto
  show ?case
  proof (cases "c = PaymentStatusCaptured")
    case True
    then show ?thesis by simp
  next
    case False
    with step Cons.prems(2) have c: "status_rank c < 3 \<or> IsTerminal c \<and> \<not> is_refund_status c"
      by (cases a) (auto simp: is_refund_status_def)
    show ?thesis
    proof (cases "status_rank c < 3")
      case True
      then have "b \<in> set ps"
        using Cons.prems(3,4) by (auto simp: is_refund_status_def)
      with Cons.IH [OF path True] Cons.prems(4) show ?thesis by simp
    next
      case stop: False
      with c have "\<not> CanTransition c d" for d by (cases c) auto
      with path have "ps = []" by (cases ps) auto
      with c stop Cons.prems(3,4) show ?thesis by simp
    qed
  qed
qed

end
