(* ===== verification/Database.thy ===== *)
theory Database
  imports State_Machine
begin

text \<open>
  The PostgreSQL tables of \<^verbatim>\<open>migrations/\<close> as lists of rows in insertion order, and the SQL
  statements of the services as functions on them. A statement that breaks a primary key, a
  unique or foreign key, or a CHECK constraint of the schema fails. Any statement can also fail
  for a reason outside the model (connection, time-out, a value too long for its column): the
  environment says which call sites fail and how. A transaction works on a copy that replaces
  the tables only at commit; a failed or abandoned transaction leaves them as they were. Row
  locks make transactions on one row sequential, so a transaction is one step.
\<close>

section \<open>Tables\<close>

record payment_row =
  pay_id :: string
  pay_merchant_id :: string
  pay_order_id :: string
  pay_amount :: int64
  pay_currency :: string
  pay_status :: payment_status
  pay_psp :: string
  pay_psp_payment_id :: "string option"
  pay_customer_email :: string
  pay_customer_name :: string
  pay_customer_phone :: string
  pay_metadata :: "json_obj option"
  pay_total_refunded :: int64
  pay_created_at :: time
  pay_updated_at :: time

record discrepancy_row =
  dr_id :: string
  dr_reconciliation_record_id :: string
  dr_payment_id :: "string option"
  dr_discrepancy_type :: discrepancy_type
  dr_internal_amount :: "int64 option"
  dr_psp_amount :: "int64 option"
  dr_internal_status :: "string option"
  dr_psp_status :: "string option"
  dr_resolution_status :: resolution_status
  dr_resolution_notes :: "string option"
  dr_created_at :: time
  dr_resolved_at :: "time option"

record db =
  payments :: "payment_row list"
  payment_state_transitions :: "state_transition list"
  ledger_accounts :: "ledger_account list"
  ledger_transactions :: "ledger_transaction list"
  ledger_entries :: "ledger_entry list"
  webhook_events :: "webhook_event list"
  reconciliation_records :: "reconciliation_record list"
  reconciliation_discrepancies :: "discrepancy_row list"

text \<open>The chart of accounts that the second migration seeds, every balance zero.\<close>

definition seed_account :: "string \<Rightarrow> string \<Rightarrow> string \<Rightarrow> account_type \<Rightarrow> ledger_account" where
  "seed_account n code name ty =
     \<lparr>la_ID = ''a0000001-0000-0000-0000-00000000000'' @ n, la_AccountCode = code,
      la_AccountName = name, la_AccountType = ty, la_Currency = ''INR'', la_CurrentBalance = 0\<rparr>"

definition seed_accounts :: "ledger_account list" where
  "seed_accounts =
     [seed_account ''1'' ''MERCHANT_RECV'' ''Merchant Receivable'' AccountTypeAsset,
      seed_account ''2'' ''PSP_SETTLEMENT'' ''PSP Settlement Account'' AccountTypeAsset,
      seed_account ''3'' ''CUSTOMER_DEP'' ''Customer Deposit'' AccountTypeLiability,
      seed_account ''4'' ''MERCHANT_PAY'' ''Merchant Payable'' AccountTypeLiability,
      seed_account ''5'' ''FEE_PAYABLE'' ''Fee Payable'' AccountTypeLiability,
      seed_account ''6'' ''PLATFORM_FEE'' ''Platform Fee Revenue'' AccountTypeRevenue,
      seed_account ''7'' ''PROCESSING_FEE'' ''Payment Processing Fee'' AccountTypeRevenue,
      seed_account ''8'' ''PSP_FEE_EXP'' ''PSP Fee Expense'' AccountTypeExpense,
      seed_account ''9'' ''REFUND_EXP'' ''Refund Expense'' AccountTypeExpense]"

definition migrated_db :: db where
  "migrated_db =
     \<lparr>payments = [], payment_state_transitions = [], ledger_accounts = seed_accounts,
      ledger_transactions = [], ledger_entries = [], webhook_events = [],
      reconciliation_records = [], reconciliation_discrepancies = []\<rparr>"

section \<open>The environment of an operation\<close>

text \<open>
  Call sites, by the statement they issue; a loop numbers its iterations. An operation that
  runs another one gives it its own row of faults and its own reading of the clock
  (\<open>e_fault env k\<close>, \<open>e_now env k\<close>). \<open>e_uuid env n\<close> is the \<open>n\<close>-th identifier \<^verbatim>\<open>uuid.NewString\<close>
  returns, \<open>e_order\<close> the order of an iteration over a map, \<open>e_cancel n\<close> the context's error if it
  ends during the \<open>n\<close>-th wait.
\<close>

datatype site =
    Begin
  | Commit
  | InsertPayment
  | SelectPayment
  | LockPayment
  | UpdatePayment
  | InsertTransition
  | SelectTransitions
  | ScanTransitions
  | InsertLedgerTx
  | LockAccount nat
  | UpdateAccount nat
  | InsertEntry nat
  | SelectAccount
  | SelectEntries
  | ScanEntries
  | FindWebhook
  | FindPaymentByPSP
  | InsertWebhook
  | UpdateWebhook
  | InsertRecon
  | SelectReconPayments
  | ScanReconPayments
  | UpdateRecon
  | MarkRecon
  | InsertDiscrepancy nat
  | SelectRecon
  | SelectDiscrepancies
  | ScanDiscrepancies
  | DashQuery nat
  | DashRows nat

record env =
  e_now :: "nat \<Rightarrow> time"
  e_uuid :: "nat \<Rightarrow> string"
  e_fault :: "nat \<Rightarrow> site \<Rightarrow> err option"
  e_order :: "string list"
  e_cancel :: "int \<Rightarrow> err option"

text \<open>
  No call fails and the generated identifiers are new: the situation in which an operation is
  expected to go through. \<open>quiet_env\<close> is a concrete environment of that kind.
\<close>

definition quiet :: "env \<Rightarrow> bool" where
  "quiet env \<longleftrightarrow> (\<forall>k s. e_fault env k s = None) \<and> inj (e_uuid env)"

definition quiet_env :: env where
  "quiet_env = \<lparr>e_now = (\<lambda>k. 1000 + int k), e_uuid = (\<lambda>n. ''id'' @ replicate n (CHR ''i'')), e_fault = (\<lambda>_ _. None),
     e_order = [], e_cancel = (\<lambda>_. None)\<rparr>"

lemma quiet_quiet_env: "quiet quiet_env"
proof -
  have "replicate x (CHR ''i'') = replicate y (CHR ''i'') \<Longrightarrow> x = y" for x y
    by (drule arg_cong [where f = length]) simp
  then show ?thesis by (auto simp: quiet_def quiet_env_def intro!: injI)
qed

section \<open>Transactions\<close>

type_synonym 'a tx = "db \<Rightarrow> err + 'a \<times> db"

definition bindT :: "'a tx \<Rightarrow> ('a \<Rightarrow> 'b tx) \<Rightarrow> 'b tx" where
  "bindT m f d = (case m d of Inl e \<Rightarrow> Inl e | Inr (a, d') \<Rightarrow> f a d')"

definition returnT :: "'a \<Rightarrow> 'a tx" where
  "returnT a d = Inr (a, d)"

definition failT :: "err \<Rightarrow> 'a tx" where
  "failT e d = Inl e"

text \<open>\<^verbatim>\<open>fmt.Errorf("ctx: %w", err)\<close> on the error of a call.\<close>

definition ctxT :: "string \<Rightarrow> 'a tx \<Rightarrow> 'a tx" where
  "ctxT ctx m d = mapErr (Wrapped ctx) (m d)"

definition wrapT :: "(err \<Rightarrow> err) \<Rightarrow> 'a tx \<Rightarrow> 'a tx" where
  "wrapT w m d = mapErr w (m d)"

text \<open>A statement at a call site, which the environment may make fail.\<close>

definition at_site :: "(site \<Rightarrow> err option) \<Rightarrow> site \<Rightarrow> 'a tx \<Rightarrow> 'a tx" where
  "at_site flt s m d = (case flt s of Some e \<Rightarrow> Inl e | None \<Rightarrow> m d)"

text \<open>\<^verbatim>\<open>Begin\<close> and \<^verbatim>\<open>Commit\<close> as calls, and the outcome of a whole transaction.\<close>

definition callT :: "(site \<Rightarrow> err option) \<Rightarrow> site \<Rightarrow> unit tx" where
  "callT flt s = at_site flt s (returnT ())"

definition run_tx :: "'a tx \<Rightarrow> db \<Rightarrow> (err + 'a) \<times> db" where
  "run_tx m d = (case m d of Inl e \<Rightarrow> (Inl e, d) | Inr (a, d') \<Rightarrow> (Inr a, d'))"

lemma bindT_Inr_iff [result_simps]:
  "bindT m f d = Inr x \<longleftrightarrow> (\<exists>a d'. m d = Inr (a, d') \<and> f a d' = Inr x)"
  by (auto simp: bindT_def split: sum.split)

lemma returnT_Inr_iff [result_simps]: "returnT a d = Inr x \<longleftrightarrow> x = (a, d)"
  by (auto simp: returnT_def)

lemma failT_Inr_iff [result_simps]: "failT e d = Inr x \<longleftrightarrow> False"
  by (simp add: failT_def)

lemma ctxT_Inr_iff [result_simps]: "ctxT c m d = Inr x \<longleftrightarrow> m d = Inr x"
  by (simp add: ctxT_def mapErr_Inr_iff)

lemma wrapT_Inr_iff [result_simps]: "wrapT w m d = Inr x \<longleftrightarrow> m d = Inr x"
  by (simp add: wrapT_def mapErr_Inr_iff)

lemma at_site_Inr_iff [result_simps]: "at_site flt s m d = Inr x \<longleftrightarrow> flt s = None \<and> m d = Inr x"
  by (auto simp: at_site_def split: option.split)

lemma callT_Inr_iff [result_simps]: "callT flt s d = Inr x \<longleftrightarrow> flt s = None \<and> x = ((), d)"
  by (auto simp: callT_def at_site_def returnT_def split: option.split)

lemma if_tx_Inr_iff [result_simps]:
  "(if b then m else n) d = Inr x \<longleftrightarrow> (b \<and> m d = Inr x) \<or> (\<not> b \<and> n d = Inr x)"
  by simp

lemma run_tx_cases:
  "run_tx m d = (Inr a, d') \<longleftrightarrow> m d = Inr (a, d')"
  "run_tx m d = (Inl e, d') \<longleftrightarrow> m d = Inl e \<and> d' = d"
  by (auto simp: run_tx_def split: sum.split)

lemma run_tx_keeps:
  assumes "P d" and "\<And>a d'. m d = Inr (a, d') \<Longrightarrow> P d'"
  shows "P (snd (run_tx m d))"
  using assms by (auto simp: run_tx_def split: sum.split)

section \<open>Constraints of the schema\<close>

definition chk_refund_cap :: "payment_row \<Rightarrow> bool" where
  "chk_refund_cap r \<longleftrightarrow> 0 \<le>s pay_total_refunded r \<and> pay_total_refunded r \<le>s pay_amount r"

definition chk_debit_credit :: "ledger_entry \<Rightarrow> bool" where
  "chk_debit_credit e \<longleftrightarrow>
     (0 <s le_Debit e \<and> le_Credit e = 0) \<or> (0 <s le_Credit e \<and> le_Debit e = 0)"

definition constraint_error :: "string \<Rightarrow> err" where
  "constraint_error c = ExternalErr (''violates constraint '' @ c)"

section \<open>Statements on payments\<close>

definition payment_by_id :: "db \<Rightarrow> string \<Rightarrow> payment_row option" where
  "payment_by_id d pid = find (\<lambda>r. pay_id r = pid) (payments d)"

definition insert_payment :: "payment_row \<Rightarrow> unit tx" where
  "insert_payment r d =
     (if payment_by_id d (pay_id r) \<noteq> None then Inl (constraint_error ''payments_pkey'')
      else if \<not> chk_refund_cap r then Inl (constraint_error ''chk_refund_cap'')
      else Inr ((), d\<lparr>payments := payments d @ [r]\<rparr>))"

text \<open>An \<^verbatim>\<open>UPDATE\<close> returns the number of rows it changed.\<close>

definition update_payments :: "(payment_row \<Rightarrow> bool) \<Rightarrow> (payment_row \<Rightarrow> payment_row) \<Rightarrow> nat tx" where
  "update_payments P f d =
     (if list_all (\<lambda>r. P r \<longrightarrow> chk_refund_cap (f r)) (payments d)
      then Inr (rows_matching P (payments d), d\<lparr>payments := update_where P f (payments d)\<rparr>)
      else Inl (constraint_error ''chk_refund_cap''))"

text \<open>\<^verbatim>\<open>SELECT ... FOR UPDATE\<close>: no row is the driver's \<^verbatim>\<open>ErrNoRows\<close>.\<close>

definition select_payment :: "string \<Rightarrow> payment_row tx" where
  "select_payment pid d =
     (case payment_by_id d pid of None \<Rightarrow> Inl ErrNoRows | Some r \<Rightarrow> Inr (r, d))"

definition insert_transition :: "state_transition \<Rightarrow> unit tx" where
  "insert_transition t d =
     (if payment_by_id d (tr_PaymentID t) = None
      then Inl (constraint_error ''payment_state_transitions_payment_id_fkey'')
      else if list_ex (\<lambda>x. tr_ID x = tr_ID t) (payment_state_transitions d)
      then Inl (constraint_error ''payment_state_transitions_pkey'')
      else Inr ((), d\<lparr>payment_state_transitions := payment_state_transitions d @ [t]\<rparr>))"

text \<open>Scanning a NULL column into a Go \<^verbatim>\<open>string\<close> is an error of the driver.\<close>

definition scan_string :: "string option \<Rightarrow> err + string" where
  "scan_string c =
     (case c of None \<Rightarrow> Inl (ExternalErr ''cannot scan NULL into *string'') | Some s \<Rightarrow> Inr s)"

section \<open>Statements on the ledger\<close>

definition account_by_code :: "db \<Rightarrow> string \<Rightarrow> ledger_account option" where
  "account_by_code d code = find (\<lambda>a. la_AccountCode a = code) (ledger_accounts d)"

definition select_account :: "string \<Rightarrow> ledger_account tx" where
  "select_account code d =
     (case account_by_code d code of None \<Rightarrow> Inl ErrNoRows | Some a \<Rightarrow> Inr (a, d))"

definition update_balance :: "string \<Rightarrow> int64 \<Rightarrow> unit tx" where
  "update_balance aid bal d =
     Inr ((), d\<lparr>ledger_accounts :=
       update_where (\<lambda>a. la_ID a = aid) (\<lambda>a. a\<lparr>la_CurrentBalance := bal\<rparr>) (ledger_accounts d)\<rparr>)"

definition insert_ledger_tx :: "ledger_transaction \<Rightarrow> unit tx" where
  "insert_ledger_tx t d =
     (if list_ex (\<lambda>x. lt_ID x = lt_ID t) (ledger_transactions d)
      then Inl (constraint_error ''ledger_transactions_pkey'')
      else if (case lt_PaymentID t of None \<Rightarrow> False | Some p \<Rightarrow> payment_by_id d p = None)
      then Inl (constraint_error ''ledger_transactions_payment_id_fkey'')
      else Inr ((), d\<lparr>ledger_transactions := ledger_transactions d @ [t]\<rparr>))"

definition insert_ledger_entry :: "ledger_entry \<Rightarrow> unit tx" where
  "insert_ledger_entry e d =
     (if list_ex (\<lambda>x. le_ID x = le_ID e) (ledger_entries d)
      then Inl (constraint_error ''ledger_entries_pkey'')
      else if \<not> list_ex (\<lambda>t. lt_ID t = le_TransactionID e) (ledger_transactions d)
      then Inl (constraint_error ''ledger_entries_transaction_id_fkey'')
      else if \<not> list_ex (\<lambda>a. la_ID a = le_AccountID e) (ledger_accounts d)
      then Inl (constraint_error ''ledger_entries_account_id_fkey'')
      else if \<not> chk_debit_credit e then Inl (constraint_error ''chk_debit_credit'')
      else Inr ((), d\<lparr>ledger_entries := ledger_entries d @ [e]\<rparr>))"

lemmas [tx_defs] = insert_payment_def update_payments_def select_payment_def insert_transition_def
  select_account_def update_balance_def insert_ledger_tx_def insert_ledger_entry_def

section \<open>The audit trail\<close>

text \<open>
  The rows of one payment in \<^verbatim>\<open>payment_state_transitions\<close>, and what replaying them gives: the
  status after a legal chain of changes that starts with the creation, nothing otherwise.
\<close>

definition trail :: "db \<Rightarrow> string \<Rightarrow> state_transition list" where
  "trail d pid = filter (\<lambda>t. tr_PaymentID t = pid) (payment_state_transitions d)"

fun replay_from :: "payment_status \<Rightarrow> state_transition list \<Rightarrow> payment_status option" where
  "replay_from s [] = Some s"
| "replay_from s (t # ts) =
     (if tr_FromStatus t = Some s \<and> CanTransition s (tr_ToStatus t)
      then replay_from (tr_ToStatus t) ts else None)"

fun replay :: "state_transition list \<Rightarrow> payment_status option" where
  "replay [] = None"
| "replay (t # ts) =
     (if tr_FromStatus t = None \<and> tr_ToStatus t = PaymentStatusCreated
      then replay_from PaymentStatusCreated ts else None)"

lemma replay_from_append:
  "replay_from s (ts @ us) = Option.bind (replay_from s ts) (\<lambda>s'. replay_from s' us)"
  by (induction ts arbitrary: s) auto

lemma replay_snoc:
  assumes "replay ts = Some s" and "tr_FromStatus t = Some s" and "CanTransition s (tr_ToStatus t)"
  shows "replay (ts @ [t]) = Some (tr_ToStatus t)"
  using assms by (cases ts) (auto simp: replay_from_append split: if_splits)

lemma replay_from_path:
  "replay_from s ts = Some s' \<Longrightarrow>
     valid_path (s # map tr_ToStatus ts) \<and> last (s # map tr_ToStatus ts) = s'"
  by (induction ts arbitrary: s) (auto split: if_splits)

lemma replay_path:
  assumes "replay ts = Some s"
  shows "\<exists>us. map tr_ToStatus ts = PaymentStatusCreated # us
    \<and> valid_path (PaymentStatusCreated # us) \<and> last (PaymentStatusCreated # us) = s"
proof (cases ts)
  case Nil
  with assms show ?thesis by simp
next
  case (Cons t us)
  with assms show ?thesis by (auto dest!: replay_from_path split: if_splits)
qed

section \<open>The invariant of the payment tables\<close>

text \<open>
  Identifiers are unique, the refund cap holds, every transition belongs to a payment, and the
  trail of every payment replays to its current status, and money was refunded only in a refund
  status.
\<close>

definition payments_inv :: "db \<Rightarrow> bool" where
  "payments_inv d \<longleftrightarrow>
     distinct (map pay_id (payments d))
   \<and> (\<forall>r \<in> set (payments d). chk_refund_cap r)
   \<and> (\<forall>t \<in> set (payment_state_transitions d). tr_PaymentID t \<in> pay_id ` set (payments d))
   \<and> (\<forall>r \<in> set (payments d). replay (trail d (pay_id r)) = Some (pay_status r))
   \<and> (\<forall>r \<in> set (payments d). pay_total_refunded r \<noteq> 0 \<longrightarrow> is_refund_status (pay_status r))"

lemma payments_inv_migrated: "payments_inv migrated_db"
  by (simp add: payments_inv_def migrated_db_def)

lemma payment_by_id_SomeD:
  "payment_by_id d pid = Some r \<Longrightarrow> r \<in> set (payments d) \<and> pay_id r = pid"
  by (auto simp: payment_by_id_def dest: find_SomeD)

lemma payment_by_id_None: "payment_by_id d pid = None \<longleftrightarrow> pid \<notin> pay_id ` set (payments d)"
  by (auto simp: payment_by_id_def find_None_iff)

lemma payment_by_id_eq:
  "payments_inv d \<Longrightarrow> r \<in> set (payments d) \<Longrightarrow> payment_by_id d (pay_id r) = Some r"
  by (auto simp: payments_inv_def payment_by_id_def intro: distinct_key_find)

lemma payments_inv_cong:
  assumes "payments d' = payments d"
    and "payment_state_transitions d' = payment_state_transitions d"
  shows "payments_inv d' = payments_inv d"
  using assms by (simp add: payments_inv_def trail_def)

text \<open>Creating a payment: its row and the first row of its trail.\<close>

lemma payments_inv_create:
  assumes inv: "payments_inv d"
    and ins: "insert_payment r d = Inr (u, d1)" "insert_transition t d1 = Inr (v, d2)"
    and row: "pay_status r = PaymentStatusCreated" "pay_total_refunded r = 0"
    and tr: "tr_PaymentID t = pay_id r" "tr_FromStatus t = None" "tr_ToStatus t = PaymentStatusCreated"
  shows "payments_inv d2"
proof -
  from ins have fresh: "pay_id r \<notin> pay_id ` set (payments d)"
    and cap: "chk_refund_cap r"
    and d2: "payments d2 = payments d @ [r]"
      "payment_state_transitions d2 = payment_state_transitions d @ [t]"
    by (auto simp: tx_defs payment_by_id_None split: if_splits)
  from inv fresh have "\<forall>x \<in> set (payment_state_transitions d). tr_PaymentID x \<noteq> pay_id r"
    unfolding payments_inv_def by metis
  then have none: "trail d (pay_id r) = []"
    by (simp add: trail_def filter_empty_conv)
  have old: "trail d2 (pay_id x) = trail d (pay_id x)" if "x \<in> set (payments d)" for x
    using that fresh tr(1) by (auto simp: trail_def d2)
  have new: "trail d2 (pay_id r) = [t]"
    using none tr(1) by (simp add: trail_def d2)
  show ?thesis
    using inv fresh cap old new row tr
    by (auto simp: payments_inv_def d2)
qed

text \<open>
  Changing the status of one payment and recording the change: the row is updated, one
  transition from its old to its new status is appended.
\<close>

lemma payments_inv_change:
  assumes inv: "payments_inv d" and r: "payment_by_id d pid = Some r"
    and upd: "payments d' = update_where (\<lambda>x. pay_id x = pid) f (payments d)"
    and cap: "chk_refund_cap (f r)" and idf: "pay_id (f r) = pid"
    and app: "payment_state_transitions d' = payment_state_transitions d @ [t]"
    and tr: "tr_PaymentID t = pid" "tr_FromStatus t = Some (pay_status r)"
      "tr_ToStatus t = pay_status (f r)"
    and legal: "CanTransition (pay_status r) (pay_status (f r))"
    and money: "pay_total_refunded (f r) = pay_total_refunded r \<or> is_refund_status (pay_status (f r))"
  shows "payments_inv d'"
proof -
  from r have rin: "r \<in> set (payments d)" and rid: "pay_id r = pid"
    by (auto dest: payment_by_id_SomeD)
  have only: "x = r" if "x \<in> set (payments d)" "pay_id x = pid" for x
    using payment_by_id_eq [OF inv that(1)] that(2) r by simp
  have ids: "map pay_id (payments d') = map pay_id (payments d)"
    using only idf rid by (auto simp: upd update_where_def)
  have rows: "x' \<in> set (payments d') \<longleftrightarrow> x' = f r \<or> x' \<in> set (payments d) \<and> pay_id x' \<noteq> pid" for x'
    unfolding upd in_set_update_where using only rin rid by metis
  have same: "trail d' (pay_id x) = trail d (pay_id x)" if "pay_id x \<noteq> pid" for x
    using that tr(1) by (auto simp: trail_def app)
  have mine: "trail d' pid = trail d pid @ [t]"
    using tr(1) by (simp add: trail_def app)
  from inv rin rid have "replay (trail d pid) = Some (pay_status r)"
    by (auto simp: payments_inv_def)
  with tr legal have "replay (trail d' pid) = Some (pay_status (f r))"
    unfolding mine by (metis replay_snoc)
  note mine_ok = this
  have idset: "pay_id ` set (payments d') = pay_id ` set (payments d)"
    using ids by (metis set_map)
  have pidin: "pid \<in> pay_id ` set (payments d)"
    using rin rid by (metis image_eqI)
  show ?thesis
    unfolding payments_inv_def
  proof (intro conjI ballI)
    show "distinct (map pay_id (payments d'))"
      using inv by (simp add: ids payments_inv_def)
    show "chk_refund_cap x" if "x \<in> set (payments d')" for x
      using that inv cap by (auto simp: rows payments_inv_def)
    show "tr_PaymentID x \<in> pay_id ` set (payments d')" if "x \<in> set (payment_state_transitions d')" for x
      using that inv tr(1) pidin by (auto simp: idset app payments_inv_def)
    show "replay (trail d' (pay_id x)) = Some (pay_status x)" if "x \<in> set (payments d')" for x
    proof (cases "x = f r")
      case True
      with mine_ok idf show ?thesis by simp
    next
      case False
      with that have "x \<in> set (payments d)" and other: "pay_id x \<noteq> pid" by (auto simp: rows)
      with inv have "replay (trail d (pay_id x)) = Some (pay_status x)"
        by (simp add: payments_inv_def)
      then show ?thesis by (simp only: same [OF other])
    qed
    have "pay_total_refunded r \<noteq> 0 \<longrightarrow> is_refund_status (pay_status r)"
      using inv rin by (simp add: payments_inv_def)
    with legal money have "pay_total_refunded (f r) \<noteq> 0 \<longrightarrow> is_refund_status (pay_status (f r))"
      by (auto simp: is_refund_status_def)
    then show "pay_total_refunded x \<noteq> 0 \<longrightarrow> is_refund_status (pay_status x)"
      if "x \<in> set (payments d')" for x
      using that inv by (auto simp: rows payments_inv_def)
  qed
qed

section \<open>Changing the status of one payment\<close>

text \<open>
  The two statements every status change issues, under the caller's wrapping of their errors:
  update the row, append to the trail.
\<close>

definition change_status ::
  "(site \<Rightarrow> err option) \<Rightarrow> (err \<Rightarrow> err) \<Rightarrow> (err \<Rightarrow> err) \<Rightarrow> string \<Rightarrow> (payment_row \<Rightarrow> payment_row) \<Rightarrow> state_transition \<Rightarrow> unit tx" where
  "change_status flt w1 w2 pid f t =
     bindT (wrapT w1 (at_site flt UpdatePayment (update_payments (\<lambda>r. pay_id r = pid) f))) (\<lambda>_.
     wrapT w2 (at_site flt InsertTransition (insert_transition t)))"

lemma change_status_Inr:
  assumes "change_status flt c1 c2 pid f t d = Inr (u, d')"
  shows "d' = d\<lparr>payments := update_where (\<lambda>x. pay_id x = pid) f (payments d),
                payment_state_transitions := payment_state_transitions d @ [t]\<rparr>
    \<and> (\<forall>r \<in> set (payments d). pay_id r = pid \<longrightarrow> chk_refund_cap (f r))"
  using assms
  by (auto simp: change_status_def result_simps tx_defs list_all_iff split: if_splits)

section \<open>Atomic steps of the payment tables\<close>

text \<open>
  The specification the operations implement: a payment appears as created, or one payment makes
  one legal move with its audit row. Everything that identifies the payment and its amount is
  fixed, and the refunded total moves only into a refund status.
\<close>

definition legal_change :: "payment_row \<Rightarrow> payment_row \<Rightarrow> bool" where
  "legal_change r r' \<longleftrightarrow>
     pay_id r' = pay_id r \<and> pay_merchant_id r' = pay_merchant_id r \<and> pay_order_id r' = pay_order_id r
   \<and> pay_amount r' = pay_amount r \<and> pay_currency r' = pay_currency r \<and> pay_psp r' = pay_psp r
   \<and> pay_created_at r' = pay_created_at r \<and> CanTransition (pay_status r) (pay_status r')
   \<and> chk_refund_cap r'
   \<and> (pay_total_refunded r' = pay_total_refunded r \<or> is_refund_status (pay_status r'))"

inductive pay_step :: "db \<Rightarrow> db \<Rightarrow> bool" where
  pay_created:
    "\<lbrakk>insert_payment r d = Inr (u, d1); insert_transition t d1 = Inr (v, d2);
      pay_status r = PaymentStatusCreated; pay_total_refunded r = 0; tr_PaymentID t = pay_id r;
      tr_FromStatus t = None; tr_ToStatus t = PaymentStatusCreated\<rbrakk> \<Longrightarrow> pay_step d d2"
| pay_changed:
    "\<lbrakk>payment_by_id d pid = Some r; legal_change r (f r); tr_PaymentID t = pid;
      tr_FromStatus t = Some (pay_status r); tr_ToStatus t = pay_status (f r);
      d' = d\<lparr>payments := update_where (\<lambda>x. pay_id x = pid) f (payments d),
             payment_state_transitions := payment_state_transitions d @ [t]\<rparr>\<rbrakk> \<Longrightarrow> pay_step d d'"

lemma pay_step_inv: "pay_step d d' \<Longrightarrow> payments_inv d \<Longrightarrow> payments_inv d'"
proof (induction rule: pay_step.induct)
  case (pay_created r d u d1 t v d2)
  then show ?case by (intro payments_inv_create [of d r u d1 t v d2])
next
  case (pay_changed d pid r f t d')
  moreover from this have "pay_id r = pid" by (auto dest: payment_by_id_SomeD)
  ultimately show ?case
    by (intro payments_inv_change [of d pid r d' f t]) (auto simp: legal_change_def)
qed

lemma pay_steps_inv: "pay_step\<^sup>*\<^sup>* d d' \<Longrightarrow> payments_inv d \<Longrightarrow> payments_inv d'"
  by (induction rule: rtranclp_induct) (auto intro: pay_step_inv)

lemma pay_step_frame:
  "pay_step d d' \<Longrightarrow> ledger_accounts d' = ledger_accounts d
    \<and> ledger_transactions d' = ledger_transactions d \<and> ledger_entries d' = ledger_entries d
    \<and> webhook_events d' = webhook_events d \<and> reconciliation_records d' = reconciliation_records d
    \<and> reconciliation_discrepancies d' = reconciliation_discrepancies d"
  by (induction rule: pay_step.induct) (auto simp: tx_defs split: if_splits)

lemma pay_steps_frame:
  "pay_step\<^sup>*\<^sup>* d d' \<Longrightarrow> ledger_accounts d' = ledger_accounts d
    \<and> ledger_transactions d' = ledger_transactions d \<and> ledger_entries d' = ledger_entries d
    \<and> webhook_events d' = webhook_events d \<and> reconciliation_records d' = reconciliation_records d
    \<and> reconciliation_discrepancies d' = reconciliation_discrepancies d"
  by (induction rule: rtranclp_induct) (auto dest!: pay_step_frame)

text \<open>What one step does to one payment: nothing, or a legal change.\<close>

lemma find_update_where_key:
  assumes "\<And>x. x \<in> set rs \<Longrightarrow> k x = c \<Longrightarrow> k (f x) = c"
  shows "find (\<lambda>x. k x = y) (update_where (\<lambda>x. k x = c) f rs) =
    (if y = c then map_option f (find (\<lambda>x. k x = y) rs) else find (\<lambda>x. k x = y) rs)"
  using assms by (induction rs) auto

lemma pay_step_payment:
  assumes "pay_step d d'" and "payments_inv d" and "payment_by_id d pid = Some r"
  shows "\<exists>r'. payment_by_id d' pid = Some r' \<and> (r' = r \<or> legal_change r r')"
  using assms(1)
proof cases
  case (pay_created r0 u d1 t v)
  with assms(3) show ?thesis
    by (auto simp: tx_defs payment_by_id_def find_append split: if_splits option.splits)
next
  case 2: (pay_changed pid' r0 f t)
  from 2(1) have r0: "r0 \<in> set (payments d)" "pay_id r0 = pid'" by (auto dest: payment_by_id_SomeD)
  have "pay_id (f x) = pid'" if "x \<in> set (payments d)" "pay_id x = pid'" for x
    using payment_by_id_eq [OF assms(2) that(1)] that(2) 2(1,2) r0(2) by (auto simp: legal_change_def)
  from find_update_where_key [of "payments d" pay_id pid' f pid, OF this] show ?thesis
    using 2 assms(3) by (auto simp: payment_by_id_def)
qed

lemma pay_steps_terminal:
  assumes "pay_step\<^sup>*\<^sup>* d d'" and "payments_inv d" and "payment_by_id d pid = Some r"
    and "validTransitions (pay_status r) = None"
  shows "payment_by_id d' pid = Some r"
  using assms
proof (induction rule: rtranclp_induct)
  case base
  then show ?case by simp
next
  case (step d1 d2)
  from pay_steps_inv [OF step.hyps(1) step.prems(1)] have "payments_inv d1" .
  with pay_step_payment [OF step.hyps(2) this step.IH [OF step.prems]] step.prems show ?case
    by (auto simp: legal_change_def CanTransition_def ValidateTransition_def)
qed

lemma change_status_step:
  assumes "change_status flt c1 c2 pid f t d = Inr (u, d')" and r: "payment_by_id d pid = Some r"
    and "chk_refund_cap (f r) \<Longrightarrow> legal_change r (f r)"
    and "tr_PaymentID t = pid" "tr_FromStatus t = Some (pay_status r)" "tr_ToStatus t = pay_status (f r)"
  shows "pay_step d d'"
  using change_status_Inr [OF assms(1)] payment_by_id_SomeD [OF r] assms by (intro pay_changed) auto

lemma payment_by_id_update:
  assumes "\<And>x. pay_id (f x) = pay_id x"
  shows "payment_by_id (d\<lparr>payments := update_where (\<lambda>x. pay_id x = c) f (payments d),
      payment_state_transitions := ts\<rparr>) pid =
    (if pid = c then map_option f (payment_by_id d pid) else payment_by_id d pid)"
  unfolding payment_by_id_def using find_update_where_key [of "payments d" pay_id c f pid] assms by simp

lemma trail_append:
  "trail (d\<lparr>payments := ps, payment_state_transitions := payment_state_transitions d @ [t]\<rparr>) pid =
    (if tr_PaymentID t = pid then trail d pid @ [t] else trail d pid)"
  by (simp add: trail_def)

end
