(* ===== verification/Retry.thy ===== *)
theory Retry
  imports Errors
begin

text \<open>
  Exponential back-off of \<^verbatim>\<open>internal/pkg/retry/retry.go\<close>. The retried operation is a function
  of the outside world \<open>'w\<close> (the provider it calls); the value its closure stores on success
  is its result. A cancelled context is an input: \<open>cancel n\<close> is the error of \<^verbatim>\<open>ctx.Err()\<close> if
  the context ends during the wait after attempt \<open>n\<close>. Tracing spans and log lines are not
  modelled.
\<close>

section \<open>Floating point to integer\<close>

text \<open>
  A \<^verbatim>\<open>float64\<close> is its rational value. Go's conversion to \<^verbatim>\<open>int64\<close> truncates; outside the
  range the result is the smallest integer, as on amd64.
\<close>

definition trunc :: "rat \<Rightarrow> int" where
  "trunc x = (if 0 \<le> x then \<lfloor>x\<rfloor> else \<lceil>x\<rceil>)"

definition float_to_int64 :: "rat \<Rightarrow> int64" where
  "float_to_int64 x =
     (if - (2 ^ 63) \<le> trunc x \<and> trunc x < 2 ^ 63 then word_of_int (trunc x)
      else word_of_int (- (2 ^ 63)))"

lemma sint_float_to_int64:
  "- (2 ^ 63) \<le> trunc x \<Longrightarrow> trunc x < 2 ^ 63 \<Longrightarrow> sint (float_to_int64 x) = trunc x"
  by (simp add: float_to_int64_def sint_sbintrunc' signed_take_bit_int_eq_self)

lemma trunc_mono:
  assumes "x \<le> y"
  shows "trunc x \<le> trunc y"
proof (cases "0 \<le> x \<or> y < 0")
  case True
  with assms show ?thesis by (auto simp: trunc_def floor_mono ceiling_mono)
next
  case False
  then have "trunc x \<le> 0" and "0 \<le> trunc y" by (auto simp: trunc_def ceiling_le_iff)
  then show ?thesis by linarith
qed

lemma trunc_of_int [simp]: "trunc (of_int i) = i"
  by (simp add: trunc_def)

section \<open>The retry loop\<close>

record retry_config =
  MaxAttempts :: int
  InitialWait :: duration
  MaxWait :: duration
  Multiplier :: rat

definition millisecond :: duration where "millisecond = 1000000"

definition retry_DefaultConfig :: retry_config where
  "retry_DefaultConfig =
     \<lparr>MaxAttempts = 3, InitialWait = 200 * millisecond, MaxWait = 5000 * millisecond,
      Multiplier = 2\<rparr>"

definition NonRetryable :: "err \<Rightarrow> err" where
  "NonRetryable e = NonRetryableError e"

text \<open>\<^verbatim>\<open>errors.As\<close> looks for the wrapper anywhere along the chain.\<close>

fun is_nonretryable_node :: "err \<Rightarrow> bool" where
  "is_nonretryable_node (NonRetryableError _) = True"
| "is_nonretryable_node _ = False"

definition IsNonRetryable :: "err \<Rightarrow> bool" where
  "IsNonRetryable e \<longleftrightarrow> list_ex is_nonretryable_node (error_chain e)"

function Do_from ::
  "retry_config \<Rightarrow> string \<Rightarrow> (int \<Rightarrow> err option) \<Rightarrow> ('w \<Rightarrow> (err + 'a) \<times> 'w) \<Rightarrow>
   int \<Rightarrow> err option \<Rightarrow> 'w \<Rightarrow> (err + 'a) \<times> 'w" where
  "Do_from cfg op cancel fn attempt lastErr w =
     (if attempt < MaxAttempts cfg then
        (case fn w of
           (Inr a, w') \<Rightarrow> (Inr a, w')
         | (Inl e, w') \<Rightarrow>
             if IsNonRetryable e then (Inl e, w')
             else if attempt = MaxAttempts cfg - 1
             then (Inl (RetriesExhausted op (MaxAttempts cfg) (Some e)), w')
             else case cancel attempt of
                    Some c \<Rightarrow> (Inl c, w')
                  | None \<Rightarrow> Do_from cfg op cancel fn (attempt + 1) (Some e) w')
      else (Inl (RetriesExhausted op (MaxAttempts cfg) lastErr), w))"
  by pat_completeness auto

termination
  by (relation "measure (\<lambda>(cfg, op, cancel, fn, attempt, lastErr, w). nat (MaxAttempts cfg - attempt))")
    auto

declare Do_from.simps [simp del]

definition Do ::
  "retry_config \<Rightarrow> string \<Rightarrow> (int \<Rightarrow> err option) \<Rightarrow> ('w \<Rightarrow> (err + 'a) \<times> 'w) \<Rightarrow> 'w \<Rightarrow> (err + 'a) \<times> 'w" where
  "Do cfg op cancel fn w = Do_from cfg op cancel fn 0 None w"

section \<open>The wait between attempts\<close>

text \<open>\<open>rnd\<close> is the sample of \<^verbatim>\<open>rand.Float64()\<close>, in \<open>[0, 1)\<close>.\<close>

definition backoffDuration :: "rat \<Rightarrow> int \<Rightarrow> retry_config \<Rightarrow> duration" where
  "backoffDuration rnd attempt cfg =
     (let wait = of_int (InitialWait cfg) * Multiplier cfg ^ nat attempt;
          wait = (if sint (float_to_int64 wait) > MaxWait cfg then of_int (MaxWait cfg) else wait);
          jitter = 1 + (rnd - 1 / 2) * (1 / 2)
      in sint (float_to_int64 (wait * jitter)))"

text \<open>
  With the jitter in its range and no overflow of the growing wait, the wait between
  attempts never exceeds the cap by more than a quarter (up to rounding) and never falls
  below three quarters of the capped exponential.
\<close>

theorem backoff_within_jittered_cap:
  assumes rnd: "0 \<le> rnd" "rnd < 1"
    and cfg: "0 \<le> InitialWait cfg" "0 \<le> Multiplier cfg" "0 \<le> MaxWait cfg" "MaxWait cfg < 2 ^ 62"
    and fits: "of_int (InitialWait cfg) * Multiplier cfg ^ nat attempt < 2 ^ 63"
  shows "of_int (backoffDuration rnd attempt cfg) \<le> 5 / 4 * (of_int (MaxWait cfg) + 1 :: rat)
    \<and> 3 / 4 * min (of_int (InitialWait cfg) * Multiplier cfg ^ nat attempt) (of_int (MaxWait cfg)) - 1
        < (of_int (backoffDuration rnd attempt cfg) :: rat)"
proof -
  define wait where "wait = of_int (InitialWait cfg) * Multiplier cfg ^ nat attempt"
  define capped where
    "capped = (if sint (float_to_int64 wait) > MaxWait cfg then of_int (MaxWait cfg) else wait)"
  define jitter where "jitter = 1 + (rnd - 1 / 2) * (1 / 2)"
  have wait0: "0 \<le> wait" and wait_lt: "wait < 2 ^ 63"
    using cfg fits by (simp_all add: wait_def)
  have tw: "sint (float_to_int64 wait) = \<lfloor>wait\<rfloor>"
    using wait0 wait_lt by (subst sint_float_to_int64) (auto simp: trunc_def floor_less_iff)
  have capped0: "0 \<le> capped" using wait0 cfg(3) by (simp add: capped_def)
  have capped_le: "capped \<le> of_int (MaxWait cfg) + 1"
    using tw by (auto simp: capped_def not_less floor_le_iff)
  have capped_ge: "min wait (of_int (MaxWait cfg)) \<le> capped" by (simp add: capped_def)
  have j: "3 / 4 \<le> jitter" "jitter \<le> 5 / 4" using rnd by (auto simp: jitter_def field_simps)
  have prod0: "0 \<le> capped * jitter" using capped0 j by simp
  have upper: "capped * jitter \<le> (of_int (MaxWait cfg) + 1) * (5 / 4)"
    using capped0 capped_le j by (intro mult_mono) auto
  have lower: "capped * (3 / 4) \<le> capped * jitter"
    using capped0 j by (intro mult_left_mono)
  have "(of_int (MaxWait cfg) + 1 :: rat) \<le> of_int (2 ^ 62)"
    using cfg(4) by (metis add1_zle_eq of_int_1 of_int_add of_int_le_iff)
  with upper have "capped * jitter < 2 ^ 63" by simp
  with prod0 have val: "backoffDuration rnd attempt cfg = \<lfloor>capped * jitter\<rfloor>"
    unfolding backoffDuration_def Let_def
    by (fold wait_def, fold capped_def, fold jitter_def, subst sint_float_to_int64)
      (auto simp: trunc_def floor_less_iff)
  have "of_int \<lfloor>capped * jitter\<rfloor> \<le> capped * jitter" and "capped * jitter < of_int \<lfloor>capped * jitter\<rfloor> + 1"
    by linarith+
  with upper lower capped_ge show ?thesis
    unfolding val wait_def [symmetric] by (intro conjI) linarith+
qed

theorem backoff_within_jittered_cap_witness:
  "of_int (backoffDuration (1 / 2) 1 retry_DefaultConfig) \<le> 5 / 4 * (5000000000 + 1 :: rat)"
proof -
  have "0 \<le> (1 / 2 :: rat)" and "(1 / 2 :: rat) < 1" by simp_all
  moreover have "0 \<le> InitialWait retry_DefaultConfig" and "0 \<le> Multiplier retry_DefaultConfig"
    and "0 \<le> MaxWait retry_DefaultConfig" and "MaxWait retry_DefaultConfig < 2 ^ 62"
    and "of_int (InitialWait retry_DefaultConfig) * Multiplier retry_DefaultConfig ^ nat 1 < 2 ^ 63"
    by (simp_all add: retry_DefaultConfig_def millisecond_def)
  ultimately show ?thesis
    using backoff_within_jittered_cap [of "1 / 2" retry_DefaultConfig 1]
    by (simp add: retry_DefaultConfig_def millisecond_def)
qed

section \<open>Properties\<close>

text \<open>The world before call \<open>k\<close>, and what that call returns.\<close>

fun world_after :: "('w \<Rightarrow> (err + 'a) \<times> 'w) \<Rightarrow> nat \<Rightarrow> 'w \<Rightarrow> 'w" where
  "world_after fn 0 w = w"
| "world_after fn (Suc k) w = world_after fn k (snd (fn w))"

definition outcome :: "('w \<Rightarrow> (err + 'a) \<times> 'w) \<Rightarrow> 'w \<Rightarrow> nat \<Rightarrow> err + 'a" where
  "outcome fn w k = fst (fn (world_after fn k w))"

text \<open>Call \<open>k\<close> fails in a way that the loop retries, and the context survives the wait.\<close>

definition retried :: "(int \<Rightarrow> err option) \<Rightarrow> ('w \<Rightarrow> (err + 'a) \<times> 'w) \<Rightarrow> 'w \<Rightarrow> int \<Rightarrow> nat \<Rightarrow> bool" where
  "retried cancel fn w attempt k \<longleftrightarrow>
     (\<exists>e. outcome fn w k = Inl e \<and> \<not> IsNonRetryable e) \<and> cancel (attempt + int k) = None"

lemma outcome_Suc: "outcome fn w (Suc k) = outcome fn (snd (fn w)) k"
  by (simp add: outcome_def)

lemma retried_Suc: "retried cancel fn w attempt (Suc k) = retried cancel fn (snd (fn w)) (attempt + 1) k"
  by (simp add: retried_def outcome_Suc add.assoc)

lemma Do_from_reaches:
  assumes "\<forall>j < k. retried cancel fn w attempt j" and "attempt + int k < MaxAttempts cfg"
  shows "\<exists>le. Do_from cfg op cancel fn attempt lastErr w =
    Do_from cfg op cancel fn (attempt + int k) le (world_after fn k w)"
  using assms
proof (induction k arbitrary: attempt lastErr w)
  case 0
  then show ?case by auto
next
  case (Suc k)
  from Suc.prems(1) have "retried cancel fn w attempt 0" by blast
  then obtain e where fail: "fst (fn w) = Inl e" "\<not> IsNonRetryable e" and go: "cancel attempt = None"
    by (auto simp: retried_def outcome_def)
  from Suc.prems have "\<forall>j < k. retried cancel fn (snd (fn w)) (attempt + 1) j"
    by (auto simp: retried_Suc [symmetric])
  moreover from Suc.prems(2) have "attempt + 1 + int k < MaxAttempts cfg" by simp
  ultimately obtain le where IH: "Do_from cfg op cancel fn (attempt + 1) (Some e) (snd (fn w)) =
      Do_from cfg op cancel fn (attempt + 1 + int k) le (world_after fn k (snd (fn w)))"
    using Suc.IH [of "snd (fn w)" "attempt + 1" "Some e"] by blast
  have "Do_from cfg op cancel fn attempt lastErr w =
      Do_from cfg op cancel fn (attempt + 1) (Some e) (snd (fn w))"
    using fail go Suc.prems(2)
    by (cases "fn w") (auto simp: Do_from.simps [of cfg op cancel fn attempt lastErr w])
  with IH show ?case by (auto simp: ac_simps)
qed

text \<open>
  The loop returns the value of the first successful call: when the calls before it all
  failed with retryable errors and the context survived the waits, call number \<open>k\<close> within
  the attempt limit decides the result, and no later call is made.
\<close>

theorem Do_first_success:
  assumes "int k < MaxAttempts cfg" and "\<forall>j < k. retried cancel fn w 0 j"
    and "outcome fn w k = Inr a"
  shows "Do cfg op cancel fn w = (Inr a, world_after fn (Suc k) w)"
proof -
  have last_world: "snd (fn (world_after fn k w)) = world_after fn (Suc k) w"
    by (induction k arbitrary: w) auto
  from Do_from_reaches [of k cancel fn w 0 cfg op None] assms obtain le where
    "Do cfg op cancel fn w = Do_from cfg op cancel fn (int k) le (world_after fn k w)"
    by (auto simp: Do_def)
  also have "\<dots> = (Inr a, snd (fn (world_after fn k w)))"
    using assms(1,3)
    by (cases "fn (world_after fn k w)")
      (auto simp: Do_from.simps [of cfg op cancel fn "int k"] outcome_def)
  finally show ?thesis by (simp add: last_world)
qed

text \<open>A provider that fails once and then answers; the world counts the calls.\<close>

definition flaky :: "nat \<Rightarrow> (err + string) \<times> nat" where
  "flaky n = (if n = 0 then Inl (ExternalErr ''timeout'') else Inr ''pi_1'', n + 1)"

theorem Do_first_success_witness:
  "Do retry_DefaultConfig ''psp'' (\<lambda>_. None) flaky 0 = (Inr ''pi_1'', 2)"
proof -
  have "int 1 < MaxAttempts retry_DefaultConfig" by (simp add: retry_DefaultConfig_def)
  moreover have "\<forall>j < 1. retried (\<lambda>_. None) flaky 0 0 j"
    by (simp add: retried_def outcome_def flaky_def IsNonRetryable_def)
  moreover have "outcome flaky 0 1 = Inr ''pi_1''" by (simp add: outcome_def flaky_def)
  ultimately have "Do retry_DefaultConfig ''psp'' (\<lambda>_. None) flaky 0 =
      (Inr ''pi_1'', world_after flaky (Suc 1) 0)"
    by (rule Do_first_success)
  then show ?thesis by (simp add: flaky_def numeral_2_eq_2)
qed

text \<open>
  How the loop can end, for any number of attempts: after some number of retried calls it
  stops with a success, a non-retryable error, a cancelled wait, or when the attempts are
  used up.
\<close>

definition Do_ends_at ::
  "retry_config \<Rightarrow> string \<Rightarrow> (int \<Rightarrow> err option) \<Rightarrow> ('w \<Rightarrow> (err + 'a) \<times> 'w) \<Rightarrow> 'w \<Rightarrow>
   int \<Rightarrow> (err + 'a) \<Rightarrow> nat \<Rightarrow> bool" where
  "Do_ends_at cfg op cancel fn w attempt r k \<longleftrightarrow>
     (\<forall>j < k. retried cancel fn w attempt j)
   \<and> (case outcome fn w k of
        Inr a \<Rightarrow> r = Inr a
      | Inl e \<Rightarrow>
          if IsNonRetryable e then r = Inl e
          else if attempt + int k = MaxAttempts cfg - 1
          then r = Inl (RetriesExhausted op (MaxAttempts cfg) (Some e))
          else \<exists>c. cancel (attempt + int k) = Some c \<and> r = Inl c)"

lemma Do_from_ends:
  assumes "attempt < MaxAttempts cfg"
  shows "\<exists>k r. attempt + int k < MaxAttempts cfg \<and> Do_ends_at cfg op cancel fn w attempt r k
    \<and> Do_from cfg op cancel fn attempt lastErr w = (r, world_after fn (Suc k) w)"
  using assms
proof (induction cfg op cancel fn attempt lastErr w rule: Do_from.induct)
  case (1 cfg op cancel fn attempt lastErr w)
  obtain r0 w' where fn: "fn w = (r0, w')" by (cases "fn w")
  show ?case
  proof (cases "retried cancel fn w attempt 0 \<and> attempt \<noteq> MaxAttempts cfg - 1")
    case False
    then have "Do_ends_at cfg op cancel fn w attempt
        (fst (Do_from cfg op cancel fn attempt lastErr w)) 0
      \<and> snd (Do_from cfg op cancel fn attempt lastErr w) = w'"
      using "1.prems" fn
      by (auto simp: Do_ends_at_def retried_def outcome_def
          Do_from.simps [of cfg op cancel fn attempt lastErr w]
          split: sum.splits option.splits)
    then show ?thesis
      using "1.prems" fn
      by (intro exI [of _ 0] exI [of _ "fst (Do_from cfg op cancel fn attempt lastErr w)"])
        (auto simp: prod_eq_iff)
  next
    case True
    then obtain e where e: "r0 = Inl e" "\<not> IsNonRetryable e" "cancel attempt = None"
      using fn by (auto simp: retried_def outcome_def)
    with True "1.prems" have lt: "attempt + 1 < MaxAttempts cfg" by auto
    have unfold: "Do_from cfg op cancel fn attempt lastErr w =
        Do_from cfg op cancel fn (attempt + 1) (Some e) w'"
      using True "1.prems" fn e by (simp add: Do_from.simps [of cfg op cancel fn attempt lastErr w])
    have "\<exists>k r. attempt + 1 + int k < MaxAttempts cfg
        \<and> Do_ends_at cfg op cancel fn w' (attempt + 1) r k
        \<and> Do_from cfg op cancel fn (attempt + 1) (Some e) w' = (r, world_after fn (Suc k) w')"
      using "1.IH" [OF "1.prems" fn [symmetric] e(1,2) _ e(3) lt] True by simp
    then obtain k r where k: "attempt + 1 + int k < MaxAttempts cfg"
        "Do_ends_at cfg op cancel fn w' (attempt + 1) r k"
        "Do_from cfg op cancel fn (attempt + 1) (Some e) w' = (r, world_after fn (Suc k) w')"
      by blast
    have w': "w' = snd (fn w)" by (simp add: fn)
    have "Do_ends_at cfg op cancel fn w attempt r (Suc k)"
      using k(2) True unfolding Do_ends_at_def w'
      by (auto simp: less_Suc_eq_0_disj retried_Suc outcome_Suc add.assoc split: sum.splits)
    with k unfold show ?thesis
      by (intro exI [of _ "Suc k"] exI [of _ r]) (auto simp: w')
  qed
qed

text \<open>
  C38: with at least one attempt allowed, the operation is called at most \<open>MaxAttempts\<close> times,
  it is called again only after a retryable failure whose wait was not cancelled, and the
  result is the success, the non-retryable error, the context's error or the exhausted-attempts
  error of the last call.
\<close>

theorem Do_attempts_bounded:
  assumes "0 < MaxAttempts cfg"
  shows "\<exists>k r. int (Suc k) \<le> MaxAttempts cfg \<and> Do_ends_at cfg op cancel fn w 0 r k
    \<and> Do cfg op cancel fn w = (r, world_after fn (Suc k) w)"
proof -
  from Do_from_ends [OF assms, of op cancel fn w None] obtain k r where
    "int k < MaxAttempts cfg" and "Do_ends_at cfg op cancel fn w 0 r k"
    and "Do_from cfg op cancel fn 0 None w = (r, world_after fn (Suc k) w)" by auto
  then show ?thesis by (intro exI [of _ k] exI [of _ r]) (simp add: Do_def)
qed

theorem Do_attempts_bounded_witness:
  "\<exists>k r. int (Suc k) \<le> 3
    \<and> Do retry_DefaultConfig ''psp'' (\<lambda>_. None) flaky 0 = (r, world_after flaky (Suc k) 0)"
proof -
  have "0 < MaxAttempts retry_DefaultConfig" by (simp add: retry_DefaultConfig_def)
  from Do_attempts_bounded [OF this, of "''psp''" "\<lambda>_. None" flaky 0]
  show ?thesis by (auto simp: retry_DefaultConfig_def)
qed

end
