(* ===== verification/Adapters.thy ===== *)
theory Adapters
  imports Retry
begin

text \<open>
  The contract every provider satisfies (\<^verbatim>\<open>internal/adapter/psp.go\<close>) and its three
  implementations. A provider is remote: its calls read and change a world \<open>'w\<close>. The Stripe and
  Razorpay SDKs are not part of the repository and are records of functions over that world; the
  mock provider's random samples, identifiers and HMAC are inputs. Tracing is not modelled, and
  the mock's simulated latency only sleeps.
\<close>

section \<open>The normalised contract\<close>

record psp_payment_request =
  pq_Amount :: int64
  pq_Currency :: string
  pq_Description :: string
  pq_OrderID :: string
  pq_CustomerEmail :: string
  pq_Metadata :: "(string \<times> string) list"

record psp_payment_response =
  ps_PSPPaymentID :: string
  ps_Status :: string
  ps_RawResponse :: json_obj

record psp_capture_response =
  pc_PSPPaymentID :: string
  pc_Status :: string

record psp_refund_response =
  rf_PSPRefundID :: string
  rf_PSPPaymentID :: string
  rf_RefundedAmount :: int64
  rf_Status :: string

record psp_status_response =
  sr_PSPPaymentID :: string
  sr_Status :: string
  sr_Amount :: int64
  sr_Currency :: string

record 'w psp_adapter =
  ad_Name :: string
  ad_CreatePayment :: "psp_payment_request \<Rightarrow> 'w \<Rightarrow> (err + psp_payment_response) \<times> 'w"
  ad_CapturePayment :: "string \<Rightarrow> int64 \<Rightarrow> string \<Rightarrow> 'w \<Rightarrow> (err + psp_capture_response) \<times> 'w"
  ad_RefundPayment :: "string \<Rightarrow> int64 \<Rightarrow> 'w \<Rightarrow> (err + psp_refund_response) \<times> 'w"
  ad_CancelPayment :: "string \<Rightarrow> 'w \<Rightarrow> err option \<times> 'w"
  ad_GetPaymentStatus :: "string \<Rightarrow> 'w \<Rightarrow> (err + psp_status_response) \<times> 'w"
  ad_VerifyWebhookSignature :: "string \<Rightarrow> string \<Rightarrow> err option"

text \<open>A provider call that fails is reported under the provider's prefix.\<close>

definition on_result :: "string \<Rightarrow> ('r \<Rightarrow> 'a) \<Rightarrow> (err + 'r) \<times> 'w \<Rightarrow> (err + 'a) \<times> 'w" where
  "on_result ctx f rw =
     (case rw of (Inl e, w) \<Rightarrow> (Inl (Wrapped ctx e), w) | (Inr r, w) \<Rightarrow> (Inr (f r), w))"

section \<open>The mock provider\<close>

record mock_config =
  mc_SuccessRate :: rat
  mc_WebhookSecret :: string

definition DefaultMockConfig :: mock_config where
  "DefaultMockConfig =
     \<lparr>mc_SuccessRate = 95 / 100, mc_WebhookSecret = ''mock_webhook_secret_key''\<rparr>"

text \<open>
  The mock's world: the samples its generator will return and the identifiers \<^verbatim>\<open>uuid.NewString\<close>
  will return, each with the number already used.
\<close>

record mock_world =
  mw_floats :: "nat \<Rightarrow> rat"
  mw_next_float :: nat
  mw_uuids :: "nat \<Rightarrow> string"
  mw_next_uuid :: nat

definition shouldSucceed :: "mock_config \<Rightarrow> mock_world \<Rightarrow> bool \<times> mock_world" where
  "shouldSucceed cfg w =
     (mw_floats w (mw_next_float w) < mc_SuccessRate cfg,
      w\<lparr>mw_next_float := mw_next_float w + 1\<rparr>)"

definition fresh_uuid :: "mock_world \<Rightarrow> string \<times> mock_world" where
  "fresh_uuid w = (mw_uuids w (mw_next_uuid w), w\<lparr>mw_next_uuid := mw_next_uuid w + 1\<rparr>)"

definition mock_CreatePayment ::
  "mock_config \<Rightarrow> psp_payment_request \<Rightarrow> mock_world \<Rightarrow> (err + psp_payment_response) \<times> mock_world" where
  "mock_CreatePayment cfg req w =
     (let (ok, w) = shouldSucceed cfg w
      in if \<not> ok
         then (Inl (Errorf (''mock psp: simulated payment failure for order '' @ pq_OrderID req)), w)
         else let (u, w) = fresh_uuid w
              in (Inr \<lparr>ps_PSPPaymentID = ''mock_pay_'' @ take 8 u, ps_Status = ''authorized'',
                       ps_RawResponse = [(''mock'', JBool True),
                                         (''amount'', JNum (of_int (sint (pq_Amount req))))]\<rparr>, w))"

definition mock_CapturePayment ::
  "mock_config \<Rightarrow> string \<Rightarrow> int64 \<Rightarrow> string \<Rightarrow> mock_world \<Rightarrow> (err + psp_capture_response) \<times> mock_world" where
  "mock_CapturePayment cfg pid amount currency w =
     (let (ok, w) = shouldSucceed cfg w
      in if \<not> ok then (Inl (Errorf (''mock psp: simulated capture failure for '' @ pid)), w)
         else (Inr \<lparr>pc_PSPPaymentID = pid, pc_Status = ''captured''\<rparr>, w))"

definition mock_RefundPayment ::
  "mock_config \<Rightarrow> string \<Rightarrow> int64 \<Rightarrow> mock_world \<Rightarrow> (err + psp_refund_response) \<times> mock_world" where
  "mock_RefundPayment cfg pid amount w =
     (let (ok, w) = shouldSucceed cfg w
      in if \<not> ok then (Inl (Errorf (''mock psp: simulated refund failure for '' @ pid)), w)
         else let (u, w) = fresh_uuid w
              in (Inr \<lparr>rf_PSPRefundID = ''mock_ref_'' @ take 8 u, rf_PSPPaymentID = pid,
                       rf_RefundedAmount = amount, rf_Status = ''refunded''\<rparr>, w))"

definition mock_CancelPayment :: "mock_config \<Rightarrow> string \<Rightarrow> mock_world \<Rightarrow> err option \<times> mock_world" where
  "mock_CancelPayment cfg pid w =
     (let (ok, w) = shouldSucceed cfg w
      in if \<not> ok then (Some (Errorf (''mock psp: simulated cancel failure for '' @ pid)), w)
         else (None, w))"

definition mock_GetPaymentStatus :: "string \<Rightarrow> mock_world \<Rightarrow> (err + psp_status_response) \<times> mock_world" where
  "mock_GetPaymentStatus pid w =
     (Inr \<lparr>sr_PSPPaymentID = pid, sr_Status = ''captured'', sr_Amount = 0, sr_Currency = ''INR''\<rparr>, w)"

text \<open>\<open>hmac\<close> is the hexadecimal HMAC-SHA256 of a payload under a secret.\<close>

definition mock_VerifyWebhookSignature ::
  "(string \<Rightarrow> string \<Rightarrow> string) \<Rightarrow> mock_config \<Rightarrow> string \<Rightarrow> string \<Rightarrow> err option" where
  "mock_VerifyWebhookSignature hmac cfg payload signature =
     (let expected = hmac (mc_WebhookSecret cfg) payload
      in if expected \<noteq> signature then Some (Errorf ''mock psp: invalid webhook signature'') else None)"

definition NewMockPSP :: "(string \<Rightarrow> string \<Rightarrow> string) \<Rightarrow> mock_config \<Rightarrow> mock_world psp_adapter" where
  "NewMockPSP hmac cfg =
     \<lparr>ad_Name = ''mock'', ad_CreatePayment = mock_CreatePayment cfg,
      ad_CapturePayment = mock_CapturePayment cfg, ad_RefundPayment = mock_RefundPayment cfg,
      ad_CancelPayment = mock_CancelPayment cfg, ad_GetPaymentStatus = mock_GetPaymentStatus,
      ad_VerifyWebhookSignature = mock_VerifyWebhookSignature hmac cfg\<rparr>"

section \<open>Stripe\<close>

record stripe_intent_params =
  sp_Amount :: int64
  sp_Currency :: string
  sp_CaptureMethod :: string
  sp_Description :: string
  sp_ReceiptEmail :: "string option"
  sp_Metadata :: "(string \<times> string) list"

record stripe_intent =
  pi_ID :: string
  pi_Status :: string
  pi_Amount :: int64
  pi_Currency :: string
  pi_ClientSecret :: string
  pi_CaptureMethod :: string

record stripe_refund =
  sf_ID :: string
  sf_Amount :: int64
  sf_Status :: string

record 'w stripe_sdk =
  sdk_New :: "stripe_intent_params \<Rightarrow> 'w \<Rightarrow> (err + stripe_intent) \<times> 'w"
  sdk_Capture :: "string \<Rightarrow> int64 option \<Rightarrow> 'w \<Rightarrow> (err + stripe_intent) \<times> 'w"
  sdk_Refund :: "string \<Rightarrow> int64 option \<Rightarrow> 'w \<Rightarrow> (err + stripe_refund) \<times> 'w"
  sdk_Cancel :: "string \<Rightarrow> 'w \<Rightarrow> (err + stripe_intent) \<times> 'w"
  sdk_Get :: "string \<Rightarrow> 'w \<Rightarrow> (err + stripe_intent) \<times> 'w"
  sdk_ConstructEvent :: "string \<Rightarrow> string \<Rightarrow> string \<Rightarrow> err option"

definition stripe_CreatePayment ::
  "'w stripe_sdk \<Rightarrow> psp_payment_request \<Rightarrow> 'w \<Rightarrow> (err + psp_payment_response) \<times> 'w" where
  "stripe_CreatePayment sdk req w =
     on_result ''stripe create payment''
       (\<lambda>pi. \<lparr>ps_PSPPaymentID = pi_ID pi, ps_Status = pi_Status pi,
              ps_RawResponse = [(''client_secret'', JStr (pi_ClientSecret pi)),
                                (''capture_method'', JStr (pi_CaptureMethod pi))]\<rparr>)
       (sdk_New sdk
         \<lparr>sp_Amount = pq_Amount req, sp_Currency = pq_Currency req, sp_CaptureMethod = ''manual'',
          sp_Description = pq_Description req,
          sp_ReceiptEmail = (if pq_CustomerEmail req \<noteq> [] then Some (pq_CustomerEmail req) else None),
          sp_Metadata = pq_Metadata req @ [(''order_id'', pq_OrderID req)]\<rparr> w)"

definition stripe_CapturePayment ::
  "'w stripe_sdk \<Rightarrow> string \<Rightarrow> int64 \<Rightarrow> string \<Rightarrow> 'w \<Rightarrow> (err + psp_capture_response) \<times> 'w" where
  "stripe_CapturePayment sdk pid amount currency w =
     on_result ''stripe capture'' (\<lambda>pi. \<lparr>pc_PSPPaymentID = pi_ID pi, pc_Status = pi_Status pi\<rparr>)
       (sdk_Capture sdk pid (if 0 <s amount then Some amount else None) w)"

definition stripe_RefundPayment ::
  "'w stripe_sdk \<Rightarrow> string \<Rightarrow> int64 \<Rightarrow> 'w \<Rightarrow> (err + psp_refund_response) \<times> 'w" where
  "stripe_RefundPayment sdk pid amount w =
     on_result ''stripe refund''
       (\<lambda>r. \<lparr>rf_PSPRefundID = sf_ID r, rf_PSPPaymentID = pid, rf_RefundedAmount = sf_Amount r,
             rf_Status = sf_Status r\<rparr>)
       (sdk_Refund sdk pid (if 0 <s amount then Some amount else None) w)"

definition stripe_CancelPayment :: "'w stripe_sdk \<Rightarrow> string \<Rightarrow> 'w \<Rightarrow> err option \<times> 'w" where
  "stripe_CancelPayment sdk pid w =
     (case sdk_Cancel sdk pid w of
        (Inl e, w) \<Rightarrow> (Some (Wrapped ''stripe cancel'' e), w)
      | (Inr _, w) \<Rightarrow> (None, w))"

definition stripe_GetPaymentStatus ::
  "'w stripe_sdk \<Rightarrow> string \<Rightarrow> 'w \<Rightarrow> (err + psp_status_response) \<times> 'w" where
  "stripe_GetPaymentStatus sdk pid w =
     on_result ''stripe get status''
       (\<lambda>pi. \<lparr>sr_PSPPaymentID = pi_ID pi, sr_Status = pi_Status pi, sr_Amount = pi_Amount pi,
              sr_Currency = pi_Currency pi\<rparr>)
       (sdk_Get sdk pid w)"

definition stripe_VerifyWebhookSignature ::
  "'w stripe_sdk \<Rightarrow> string \<Rightarrow> string \<Rightarrow> string \<Rightarrow> err option" where
  "stripe_VerifyWebhookSignature sdk secret payload signature =
     map_option (Wrapped ''stripe: invalid webhook signature'')
       (sdk_ConstructEvent sdk payload signature secret)"

definition NewStripeAdapter :: "'w stripe_sdk \<Rightarrow> string \<Rightarrow> 'w psp_adapter" where
  "NewStripeAdapter sdk secret =
     \<lparr>ad_Name = ''stripe'', ad_CreatePayment = stripe_CreatePayment sdk,
      ad_CapturePayment = stripe_CapturePayment sdk, ad_RefundPayment = stripe_RefundPayment sdk,
      ad_CancelPayment = stripe_CancelPayment sdk, ad_GetPaymentStatus = stripe_GetPaymentStatus sdk,
      ad_VerifyWebhookSignature = stripe_VerifyWebhookSignature sdk secret\<rparr>"

section \<open>Razorpay\<close>

text \<open>Requests and answers of this SDK are JSON maps.\<close>

record 'w razorpay_sdk =
  rz_OrderCreate :: "json_obj \<Rightarrow> 'w \<Rightarrow> (err + json_obj) \<times> 'w"
  rz_PaymentCapture :: "string \<Rightarrow> int64 \<Rightarrow> json_obj \<Rightarrow> 'w \<Rightarrow> (err + json_obj) \<times> 'w"
  rz_RefundCreate :: "json_obj \<Rightarrow> 'w \<Rightarrow> (err + json_obj) \<times> 'w"
  rz_PaymentFetch :: "string \<Rightarrow> 'w \<Rightarrow> (err + json_obj) \<times> 'w"

definition json_int :: "int64 \<Rightarrow> json" where
  "json_int n = JNum (of_int (sint n))"

definition razorpay_CreatePayment ::
  "'w razorpay_sdk \<Rightarrow> psp_payment_request \<Rightarrow> 'w \<Rightarrow> (err + psp_payment_response) \<times> 'w" where
  "razorpay_CreatePayment sdk req w =
     on_result ''razorpay create order''
       (\<lambda>body. \<lparr>ps_PSPPaymentID = string_field body ''id'', ps_Status = string_field body ''status'',
                ps_RawResponse = body\<rparr>)
       (rz_OrderCreate sdk
         [(''amount'', json_int (pq_Amount req)), (''currency'', JStr (pq_Currency req)),
          (''receipt'', JStr (pq_OrderID req)),
          (''notes'', JObj [(''order_id'', JStr (pq_OrderID req)),
                            (''customer_email'', JStr (pq_CustomerEmail req))])] w)"

definition razorpay_CapturePayment ::
  "'w razorpay_sdk \<Rightarrow> string \<Rightarrow> int64 \<Rightarrow> string \<Rightarrow> 'w \<Rightarrow> (err + psp_capture_response) \<times> 'w" where
  "razorpay_CapturePayment sdk pid amount currency w =
     on_result ''razorpay capture''
       (\<lambda>body. \<lparr>pc_PSPPaymentID = pid, pc_Status = string_field body ''status''\<rparr>)
       (rz_PaymentCapture sdk pid amount [(''currency'', JStr currency)] w)"

definition razorpay_RefundPayment ::
  "'w razorpay_sdk \<Rightarrow> string \<Rightarrow> int64 \<Rightarrow> 'w \<Rightarrow> (err + psp_refund_response) \<times> 'w" where
  "razorpay_RefundPayment sdk pid amount w =
     on_result ''razorpay refund''
       (\<lambda>body. \<lparr>rf_PSPRefundID = string_field body ''id'', rf_PSPPaymentID = pid,
                rf_RefundedAmount = float_to_int64 (float_field body ''amount''),
                rf_Status = string_field body ''status''\<rparr>)
       (rz_RefundCreate sdk
         ((''payment_id'', JStr pid) # (if 0 <s amount then [(''amount'', json_int amount)] else [])) w)"

definition razorpay_CancelPayment :: "string \<Rightarrow> 'w \<Rightarrow> err option \<times> 'w" where
  "razorpay_CancelPayment pid w = (None, w)"

definition razorpay_GetPaymentStatus ::
  "'w razorpay_sdk \<Rightarrow> string \<Rightarrow> 'w \<Rightarrow> (err + psp_status_response) \<times> 'w" where
  "razorpay_GetPaymentStatus sdk pid w =
     on_result ''razorpay get status''
       (\<lambda>body. \<lparr>sr_PSPPaymentID = pid, sr_Status = string_field body ''status'',
                sr_Amount = float_to_int64 (float_field body ''amount''),
                sr_Currency = string_field body ''currency''\<rparr>)
       (rz_PaymentFetch sdk pid w)"

definition razorpay_VerifyWebhookSignature ::
  "(string \<Rightarrow> string \<Rightarrow> string) \<Rightarrow> string \<Rightarrow> string \<Rightarrow> string \<Rightarrow> err option" where
  "razorpay_VerifyWebhookSignature hmac secret payload signature =
     (let expected = hmac secret payload
      in if expected \<noteq> signature then Some (Errorf ''razorpay: invalid webhook signature'') else None)"

definition NewRazorpayAdapter ::
  "'w razorpay_sdk \<Rightarrow> (string \<Rightarrow> string \<Rightarrow> string) \<Rightarrow> string \<Rightarrow> 'w psp_adapter" where
  "NewRazorpayAdapter sdk hmac secret =
     \<lparr>ad_Name = ''razorpay'', ad_CreatePayment = razorpay_CreatePayment sdk,
      ad_CapturePayment = razorpay_CapturePayment sdk, ad_RefundPayment = razorpay_RefundPayment sdk,
      ad_CancelPayment = razorpay_CancelPayment, ad_GetPaymentStatus = razorpay_GetPaymentStatus sdk,
      ad_VerifyWebhookSignature = razorpay_VerifyWebhookSignature hmac secret\<rparr>"

section \<open>Signed webhooks\<close>

text \<open>
  What the webhook service relies on: a signature is accepted exactly when it is the
  provider's authentication code of the payload, so at most one signature fits a payload.
\<close>

locale signed_webhooks =
  fixes verify :: "string \<Rightarrow> string \<Rightarrow> err option"
    and mac :: "string \<Rightarrow> string"
  assumes verify_accepts: "verify payload sig = None \<longleftrightarrow> sig = mac payload"
begin

lemma genuine_accepted: "verify payload (mac payload) = None"
  by (simp add: verify_accepts)

lemma forged_rejected: "sig \<noteq> mac payload \<Longrightarrow> \<exists>e. verify payload sig = Some e"
  using verify_accepts by (metis option.exhaust)

lemma signature_unique: "verify payload sig = None \<Longrightarrow> verify payload sig' = None \<Longrightarrow> sig = sig'"
  by (simp add: verify_accepts)

end

interpretation mock_signed: signed_webhooks
  "mock_VerifyWebhookSignature hmac cfg" "hmac (mc_WebhookSecret cfg)" for hmac cfg
  by unfold_locales (auto simp: mock_VerifyWebhookSignature_def Let_def)

interpretation razorpay_signed: signed_webhooks
  "razorpay_VerifyWebhookSignature hmac secret" "hmac secret" for hmac secret
  by unfold_locales (auto simp: razorpay_VerifyWebhookSignature_def Let_def)

end
