(* ===== verification/Circuit_Breaker.thy ===== *)
theory Circuit_Breaker
  imports Prelude "HOL-Library.Sublist"
begin

text \<open>
  The circuit breaker of \<^verbatim>\<open>internal/pkg/circuitbreaker/circuitbreaker.go\<close>. Every operation
  holds the breaker's mutex, so it is one state-passing function; an operation that reads
  the clock takes the instant it reads. The counters are Go \<^verbatim>\<open>int\<close>s that grow by one per
  provider call, kept as integers. An abstract breaker with three states is given and the
  code is shown to simulate it.
\<close>

section \<open>The breaker and its operations\<close>

datatype cb_state = StateClosed | StateOpen | StateHalfOpen

record cb_config =
  FailureThreshold :: int
  SuccessThreshold :: int
  OpenTimeout :: duration

definition cb_DefaultConfig :: cb_config where
  "cb_DefaultConfig =
     \<lparr>FailureThreshold = 5, SuccessThreshold = 2, OpenTimeout = 30 * second\<rparr>"

record circuit_breaker =
  cb_name :: string
  cb_st :: cb_state
  cb_cfg :: cb_config
  consecutiveFails :: int
  consecutiveOK :: int
  totalRequests :: int
  totalFailures :: int
  lastFailureAt :: time
  openedAt :: time

definition cb_New :: "string \<Rightarrow> cb_config \<Rightarrow> circuit_breaker" where
  "cb_New nm cfg =
     \<lparr>cb_name = nm, cb_st = StateClosed, cb_cfg = cfg, consecutiveFails = 0, consecutiveOK = 0,
      totalRequests = 0, totalFailures = 0, lastFailureAt = zero_time, openedAt = zero_time\<rparr>"

definition Allow :: "time \<Rightarrow> circuit_breaker \<Rightarrow> bool \<times> circuit_breaker" where
  "Allow now cb =
     (case cb_st cb of
        StateClosed \<Rightarrow> (True, cb)
      | StateOpen \<Rightarrow>
          if now - openedAt cb \<ge> OpenTimeout (cb_cfg cb)
          then (True, cb\<lparr>cb_st := StateHalfOpen, consecutiveOK := 0\<rparr>)
          else (False, cb)
      | StateHalfOpen \<Rightarrow> (True, cb))"

definition cb_RecordSuccess :: "circuit_breaker \<Rightarrow> circuit_breaker" where
  "cb_RecordSuccess cb =
     (let cb = cb\<lparr>totalRequests := totalRequests cb + 1, consecutiveFails := 0\<rparr>
      in if cb_st cb = StateHalfOpen
         then let cb = cb\<lparr>consecutiveOK := consecutiveOK cb + 1\<rparr>
              in if consecutiveOK cb \<ge> SuccessThreshold (cb_cfg cb)
                 then cb\<lparr>cb_st := StateClosed\<rparr>
                 else cb
         else cb)"

definition cb_RecordFailure :: "time \<Rightarrow> circuit_breaker \<Rightarrow> circuit_breaker" where
  "cb_RecordFailure now cb =
     (let cb = cb\<lparr>totalRequests := totalRequests cb + 1, totalFailures := totalFailures cb + 1,
                  consecutiveFails := consecutiveFails cb + 1, consecutiveOK := 0,
                  lastFailureAt := now\<rparr>
      in if cb_st cb = StateHalfOpen
         then cb\<lparr>cb_st := StateOpen, openedAt := now\<rparr>
         else if cb_st cb = StateClosed \<and> consecutiveFails cb \<ge> FailureThreshold (cb_cfg cb)
         then cb\<lparr>cb_st := StateOpen, openedAt := now\<rparr>
         else cb)"

definition GetState :: "circuit_breaker \<Rightarrow> cb_state" where
  "GetState cb = cb_st cb"

text \<open>The success rate is the exact quotient; the code rounds it to a \<^verbatim>\<open>float64\<close>.\<close>

record cb_stats =
  st_Name :: string
  st_State :: cb_state
  st_TotalRequests :: int
  st_TotalFailures :: int
  st_ConsecutiveFails :: int
  st_SuccessRate :: rat
  st_LastFailureAt :: time

definition Stats :: "circuit_breaker \<Rightarrow> cb_stats" where
  "Stats cb =
     \<lparr>st_Name = cb_name cb, st_State = cb_st cb, st_TotalRequests = totalRequests cb,
      st_TotalFailures = totalFailures cb, st_ConsecutiveFails = consecutiveFails cb,
      st_SuccessRate =
        (if totalRequests cb > 0
         then of_int (totalRequests cb - totalFailures cb) / of_int (totalRequests cb)
         else 0),
      st_LastFailureAt = lastFailureAt cb\<rparr>"

section \<open>Events and the invariant\<close>

datatype cb_event = EvAllow time | EvSuccess | EvFailure time

text \<open>A call with what its caller sees: only \<^verbatim>\<open>Allow\<close> answers.\<close>

fun cb_react :: "circuit_breaker \<Rightarrow> cb_event \<Rightarrow> bool option \<times> circuit_breaker" where
  "cb_react cb (EvAllow t) = (case Allow t cb of (ok, cb') \<Rightarrow> (Some ok, cb'))"
| "cb_react cb EvSuccess = (None, cb_RecordSuccess cb)"
| "cb_react cb (EvFailure t) = (None, cb_RecordFailure t cb)"

definition cb_step :: "circuit_breaker \<Rightarrow> cb_event \<Rightarrow> circuit_breaker" where
  "cb_step cb e = snd (cb_react cb e)"

lemma cb_step_simps [simp]:
  "cb_step cb (EvAllow t) = snd (Allow t cb)" "cb_step cb EvSuccess = cb_RecordSuccess cb"
  "cb_step cb (EvFailure t) = cb_RecordFailure t cb"
  by (simp_all add: cb_step_def split: prod.split)

lemmas cb_op_defs = Allow_def cb_RecordSuccess_def cb_RecordFailure_def Let_def

definition cb_inv :: "circuit_breaker \<Rightarrow> bool" where
  "cb_inv cb \<longleftrightarrow>
     0 < FailureThreshold (cb_cfg cb) \<and> 0 < SuccessThreshold (cb_cfg cb)
   \<and> 0 \<le> consecutiveFails cb \<and> 0 \<le> consecutiveOK cb
   \<and> 0 \<le> totalFailures cb \<and> totalFailures cb \<le> totalRequests cb
   \<and> (cb_st cb = StateClosed \<longrightarrow> consecutiveFails cb < FailureThreshold (cb_cfg cb))
   \<and> (cb_st cb = StateHalfOpen \<longrightarrow> consecutiveOK cb < SuccessThreshold (cb_cfg cb))"

lemma cb_inv_New: "0 < FailureThreshold cfg \<Longrightarrow> 0 < SuccessThreshold cfg \<Longrightarrow> cb_inv (cb_New nm cfg)"
  by (simp add: cb_inv_def cb_New_def)

lemma cb_inv_step: "cb_inv cb \<Longrightarrow> cb_inv (cb_step cb e)"
  by (cases e; cases "cb_st cb") (auto simp: cb_inv_def cb_op_defs)

interpretation breaker: machine cb_step cb_inv
  by unfold_locales (rule cb_inv_step)

lemma cb_op_cfg [simp]:
  "cb_cfg (snd (Allow t cb)) = cb_cfg cb"
  "cb_cfg (cb_RecordSuccess cb) = cb_cfg cb"
  "cb_cfg (cb_RecordFailure t cb) = cb_cfg cb"
  by (simp_all add: cb_op_defs split: cb_state.split)

lemma cb_step_cfg [simp]: "cb_cfg (cb_step cb e) = cb_cfg cb"
  by (cases e) simp_all

lemma cb_run_cfg [simp]: "cb_cfg (foldl cb_step cb es) = cb_cfg cb"
  by (induction es arbitrary: cb) auto

text \<open>
  On every run from a fresh breaker with positive thresholds, a closed breaker has
  fewer consecutive failures than the threshold, a half-open one fewer consecutive
  successes than needed, and the success rate it reports lies between 0 and 1.
\<close>

theorem breaker_run_invariant:
  assumes "0 < FailureThreshold cfg" and "0 < SuccessThreshold cfg"
  shows "cb_inv (foldl cb_step (cb_New nm cfg) es)
    \<and> 0 \<le> st_SuccessRate (Stats (foldl cb_step (cb_New nm cfg) es))
    \<and> st_SuccessRate (Stats (foldl cb_step (cb_New nm cfg) es)) \<le> 1"
proof -
  let ?cb = "foldl cb_step (cb_New nm cfg) es"
  have inv: "cb_inv ?cb"
    using assms by (intro breaker.run_keeps_inv cb_inv_New)
  then have "0 \<le> totalFailures ?cb" and "totalFailures ?cb \<le> totalRequests ?cb"
    by (auto simp: cb_inv_def)
  then have "0 \<le> st_SuccessRate (Stats ?cb)" and "st_SuccessRate (Stats ?cb) \<le> 1"
    by (auto simp: Stats_def divide_le_eq)
  with inv show ?thesis by blast
qed

theorem breaker_run_invariant_witness:
  "cb_inv (foldl cb_step (cb_New ''mock'' cb_DefaultConfig) [EvFailure 1, EvSuccess, EvAllow 2])"
proof -
  have "0 < FailureThreshold cb_DefaultConfig" and "0 < SuccessThreshold cb_DefaultConfig"
    by (simp_all add: cb_DefaultConfig_def)
  from breaker_run_invariant [OF this] show ?thesis by blast
qed

section \<open>When the breaker trips\<close>

text \<open>The outcomes of the calls made while closed: \<open>True\<close> for a success.\<close>

definition outcome_event :: "time \<Rightarrow> bool \<Rightarrow> cb_event" where
  "outcome_event t ok = (if ok then EvSuccess else EvFailure t)"

definition trailing_failures :: "bool list \<Rightarrow> nat" where
  "trailing_failures os = length (takeWhile Not (rev os))"

lemma trailing_failures_snoc [simp]:
  "trailing_failures (os @ [ok]) = (if ok then 0 else Suc (trailing_failures os))"
  by (simp add: trailing_failures_def)

lemma trailing_failures_Nil [simp]: "trailing_failures [] = 0"
  by (simp add: trailing_failures_def)

definition after_outcomes :: "string \<Rightarrow> cb_config \<Rightarrow> time \<Rightarrow> bool list \<Rightarrow> circuit_breaker" where
  "after_outcomes nm cfg t os = foldl cb_step (cb_New nm cfg) (map (outcome_event t) os)"

lemma after_outcomes_snoc:
  "after_outcomes nm cfg t (os @ [ok]) =
     (if ok then cb_RecordSuccess (after_outcomes nm cfg t os)
      else cb_RecordFailure t (after_outcomes nm cfg t os))"
  by (simp add: after_outcomes_def outcome_event_def)

lemma after_outcomes_cfg [simp]: "cb_cfg (after_outcomes nm cfg t os) = cfg"
  by (simp add: after_outcomes_def cb_New_def)

lemma after_outcomes_state:
  assumes "0 < FailureThreshold cfg"
  shows "consecutiveFails (after_outcomes nm cfg t os) = int (trailing_failures os)
    \<and> (cb_st (after_outcomes nm cfg t os) =
        (if \<forall>p. prefix p os \<longrightarrow> int (trailing_failures p) < FailureThreshold cfg
         then StateClosed else StateOpen))"
proof (induction os rule: rev_induct)
  case Nil
  then show ?case using assms by (simp add: after_outcomes_def cb_New_def)
next
  case (snoc ok os)
  then show ?case
    by (auto simp: after_outcomes_snoc cb_op_defs)
qed

text \<open>
  Fed only with call outcomes, a fresh breaker is still closed exactly when no stretch
  of the history reached the failure threshold of consecutive failures; otherwise it is
  open. One success in between starts the count again.
\<close>

theorem breaker_closed_iff_no_failure_streak:
  assumes "0 < FailureThreshold cfg"
  shows "(GetState (after_outcomes nm cfg t os) = StateClosed \<longleftrightarrow>
           (\<forall>p. prefix p os \<longrightarrow> int (trailing_failures p) < FailureThreshold cfg))
    \<and> (GetState (after_outcomes nm cfg t os) \<noteq> StateClosed \<longrightarrow>
         GetState (after_outcomes nm cfg t os) = StateOpen)"
  using after_outcomes_state [OF assms] by (auto simp: GetState_def)

theorem breaker_closed_iff_no_failure_streak_witness:
  "GetState (after_outcomes ''mock'' cb_DefaultConfig 7
       [False, False, False, False, True, False, False, False, False, False]) = StateOpen"
proof -
  let ?os = "[False, False, False, False, True, False, False, False, False, False]"
  have "0 < FailureThreshold cb_DefaultConfig" by (simp add: cb_DefaultConfig_def)
  note claim = breaker_closed_iff_no_failure_streak [OF this, of "''mock''" 7 ?os]
  have "\<not> int (trailing_failures ?os) < FailureThreshold cb_DefaultConfig"
    by (simp add: trailing_failures_def cb_DefaultConfig_def)
  with claim show ?thesis by (meson prefix_order.refl)
qed

section \<open>An open breaker blocks, then probes\<close>

text \<open>An event is early when it does not ask after the time-out has passed.\<close>

fun early :: "circuit_breaker \<Rightarrow> cb_event \<Rightarrow> bool" where
  "early cb (EvAllow t) = (t - openedAt cb < OpenTimeout (cb_cfg cb))"
| "early cb _ = True"

lemma open_step_early:
  assumes "cb_st cb = StateOpen" and "early cb e"
  shows "cb_st (cb_step cb e) = StateOpen \<and> openedAt (cb_step cb e) = openedAt cb"
  using assms by (cases e) (auto simp: cb_op_defs)

lemma open_run_early:
  assumes "cb_st cb = StateOpen" and "\<forall>e \<in> set es. early cb e"
  shows "cb_st (foldl cb_step cb es) = StateOpen \<and> openedAt (foldl cb_step cb es) = openedAt cb"
  using assms
proof (induction es rule: rev_induct)
  case Nil
  then show ?case by simp
next
  case (snoc e es)
  let ?cb = "foldl cb_step cb es"
  from snoc have open_cb: "cb_st ?cb = StateOpen" and same: "openedAt ?cb = openedAt cb"
    by auto
  with snoc.prems(2) have "early ?cb e" by (cases e) auto
  with open_step_early [OF open_cb] same show ?case by simp
qed

text \<open>
  Once open, the breaker refuses every request until the time-out has passed since it
  opened, whatever late results of calls still in flight are recorded meanwhile; and the
  first request after that is let through as a probe.
\<close>

theorem open_breaker_blocks_until_timeout:
  assumes "cb_st cb = StateOpen" and "\<forall>e \<in> set es. early cb e"
  shows "(fst (Allow t (foldl cb_step cb es)) \<longleftrightarrow> OpenTimeout (cb_cfg cb) \<le> t - openedAt cb)
    \<and> (OpenTimeout (cb_cfg cb) \<le> t - openedAt cb \<longrightarrow>
         GetState (snd (Allow t (foldl cb_step cb es))) = StateHalfOpen)"
  using open_run_early [OF assms] by (auto simp: Allow_def GetState_def)

theorem open_breaker_blocks_until_timeout_witness:
  "\<not> fst (Allow (29 * second)
       (foldl cb_step (after_outcomes ''mock'' cb_DefaultConfig 0 (replicate 5 False)) [EvSuccess]))"
proof -
  let ?cb = "after_outcomes ''mock'' cb_DefaultConfig 0 (replicate 5 False)"
  have st: "cb_st ?cb = StateOpen" and opened: "openedAt ?cb = 0"
    by (simp_all add: after_outcomes_def outcome_event_def cb_op_defs cb_New_def
        cb_DefaultConfig_def numeral_eq_Suc)
  have "\<forall>e \<in> set [EvSuccess]. early ?cb e" by simp
  from open_breaker_blocks_until_timeout [OF st this, of "29 * second"] opened
  show ?thesis by (simp add: cb_DefaultConfig_def second_def)
qed

text \<open>
  A probing breaker closes after the configured number of successes, and one failure sends
  it back to open with a new time-out.
\<close>

lemma half_open_successes:
  assumes "cb_st cb = StateHalfOpen" and "int n + consecutiveOK cb < SuccessThreshold (cb_cfg cb)"
  shows "cb_st (foldl cb_step cb (replicate n EvSuccess)) = StateHalfOpen
    \<and> consecutiveOK (foldl cb_step cb (replicate n EvSuccess)) = int n + consecutiveOK cb"
  using assms
proof (induction n arbitrary: cb)
  case 0
  then show ?case by simp
next
  case (Suc n)
  let ?cb = "cb_step cb EvSuccess"
  from Suc.prems have "cb_st ?cb = StateHalfOpen" and "consecutiveOK ?cb = consecutiveOK cb + 1"
    by (auto simp: cb_op_defs)
  with Suc.IH [of ?cb] Suc.prems show ?case by simp
qed

text \<open>
  Recovery: from any open breaker with a positive success threshold, one request after
  the time-out followed by as many successes as the threshold closes it with a clean
  failure count.
\<close>

theorem breaker_recovers:
  assumes "cb_st cb = StateOpen" and "0 < SuccessThreshold (cb_cfg cb)"
    and "OpenTimeout (cb_cfg cb) \<le> t - openedAt cb"
  shows "let cb' = foldl cb_step cb
             (EvAllow t # replicate (nat (SuccessThreshold (cb_cfg cb))) EvSuccess)
         in GetState cb' = StateClosed \<and> consecutiveFails cb' = 0"
proof -
  define n where "n = nat (SuccessThreshold (cb_cfg cb)) - 1"
  have n: "nat (SuccessThreshold (cb_cfg cb)) = Suc n" and n': "int n + 1 = SuccessThreshold (cb_cfg cb)"
    using assms(2) by (auto simp: n_def)
  let ?h = "cb_step cb (EvAllow t)"
  have h: "cb_st ?h = StateHalfOpen" "consecutiveOK ?h = 0"
    using assms by (auto simp: Allow_def)
  let ?m = "foldl cb_step ?h (replicate n EvSuccess)"
  have m: "cb_st ?m = StateHalfOpen" "consecutiveOK ?m = int n"
    using half_open_successes [OF h(1), of n] h(2) n' by auto
  have last_step: "cb_st (cb_step ?m EvSuccess) = StateClosed \<and> consecutiveFails (cb_step ?m EvSuccess) = 0"
    using m n' by (simp add: cb_RecordSuccess_def Let_def)
  have "replicate (Suc n) EvSuccess = replicate n EvSuccess @ [EvSuccess]"
    by (simp add: replicate_append_same)
  then have "foldl cb_step cb (EvAllow t # replicate (Suc n) EvSuccess) = cb_step ?m EvSuccess"
    by (simp only: foldl_Cons foldl_append foldl_Nil)
  with last_step show ?thesis by (simp add: n GetState_def Let_def del: foldl_Cons replicate.simps)
qed

theorem breaker_recovers_witness:
  "GetState (foldl cb_step
       ((cb_New ''mock'' cb_DefaultConfig)\<lparr>cb_st := StateOpen, openedAt := 0\<rparr>)
       (EvAllow (31 * second) # replicate 2 EvSuccess)) = StateClosed"
proof -
  let ?cb = "(cb_New ''mock'' cb_DefaultConfig)\<lparr>cb_st := StateOpen, openedAt := 0\<rparr>"
  have "cb_st ?cb = StateOpen" and "0 < SuccessThreshold (cb_cfg ?cb)"
    and "OpenTimeout (cb_cfg ?cb) \<le> 31 * second - openedAt ?cb"
    by (simp_all add: cb_New_def cb_DefaultConfig_def second_def)
  from breaker_recovers [OF this] show ?thesis
    by (simp add: cb_New_def cb_DefaultConfig_def Let_def)
qed

section \<open>Refinement of an abstract breaker\<close>

datatype breaker_spec = Healthy int | Tripped time | Probing int

text \<open>The abstract breaker says what every call answers and where it leads.\<close>

fun spec_react :: "cb_config \<Rightarrow> breaker_spec \<Rightarrow> cb_event \<Rightarrow> bool option \<times> breaker_spec" where
  "spec_react cfg (Healthy n) (EvAllow t) = (Some True, Healthy n)"
| "spec_react cfg (Healthy n) EvSuccess = (None, Healthy 0)"
| "spec_react cfg (Healthy n) (EvFailure t) =
     (None, if n + 1 \<ge> FailureThreshold cfg then Tripped t else Healthy (n + 1))"
| "spec_react cfg (Tripped s) (EvAllow t) =
     (if t - s \<ge> OpenTimeout cfg then (Some True, Probing 0) else (Some False, Tripped s))"
| "spec_react cfg (Tripped s) EvSuccess = (None, Tripped s)"
| "spec_react cfg (Tripped s) (EvFailure t) = (None, Tripped s)"
| "spec_react cfg (Probing k) (EvAllow t) = (Some True, Probing k)"
| "spec_react cfg (Probing k) EvSuccess =
     (None, if k + 1 \<ge> SuccessThreshold cfg then Healthy 0 else Probing (k + 1))"
| "spec_react cfg (Probing k) (EvFailure t) = (None, Tripped t)"

text \<open>The answers along a run, with the state at its end.\<close>

fun observed :: "('s \<Rightarrow> 'e \<Rightarrow> 'o \<times> 's) \<Rightarrow> 's \<Rightarrow> 'e list \<Rightarrow> 'o list \<times> 's" where
  "observed react s [] = ([], s)"
| "observed react s (e # es) =
     (case react s e of (x, s') \<Rightarrow> (case observed react s' es of (xs, s'') \<Rightarrow> (x # xs, s'')))"

definition breaker_abs :: "circuit_breaker \<Rightarrow> breaker_spec" where
  "breaker_abs cb =
     (case cb_st cb of
        StateClosed \<Rightarrow> Healthy (consecutiveFails cb)
      | StateOpen \<Rightarrow> Tripped (openedAt cb)
      | StateHalfOpen \<Rightarrow> Probing (consecutiveOK cb))"

lemma breaker_abs_react:
  "map_prod id breaker_abs (cb_react cb e) = spec_react (cb_cfg cb) (breaker_abs cb) e"
  by (cases e; cases "cb_st cb") (auto simp: breaker_abs_def cb_op_defs)

lemma observed_step: "snd (observed cb_react cb es) = foldl cb_step cb es"
  by (induction es arbitrary: cb) (simp_all add: cb_step_def split: prod.split, metis snd_conv)

text \<open>
  C25: the breaker with its counters and timestamps refines the three-state abstract breaker on every
  sequence of calls: it answers each question whether a request may pass as the abstract breaker does,
  and ends in the state that stands for the abstract one. So a healthy breaker never refuses, a
  tripped one refuses until its time-out is over and then probes, and of the counters only the one of
  the present state matters.
\<close>

theorem breaker_refines_spec:
  "map_prod id breaker_abs (observed cb_react cb es) = observed (spec_react (cb_cfg cb)) (breaker_abs cb) es"
proof (induction es arbitrary: cb)
  case Nil
  then show ?case by simp
next
  case (Cons e es)
  obtain x cb' where step: "cb_react cb e = (x, cb')" by (cases "cb_react cb e")
  then have "cb_cfg cb' = cb_cfg cb" using cb_step_cfg [of cb e] by (simp add: cb_step_def)
  with Cons.IH [of cb'] breaker_abs_react [of cb e] step show ?case
    by (auto simp: map_prod_def split: prod.splits)
qed

section \<open>The breaker as a gate\<close>

text \<open>
  What a router relies on when it asks a breaker: a refusal changes nothing, and asking
  again at the same instant gives the same answer and changes nothing more.
\<close>

locale gate =
  fixes ask :: "time \<Rightarrow> 'b \<Rightarrow> bool \<times> 'b"
    and blocked :: "time \<Rightarrow> 'b \<Rightarrow> bool"
  assumes ask_answer: "fst (ask t b) \<longleftrightarrow> \<not> blocked t b"
    and ask_refused: "blocked t b \<Longrightarrow> snd (ask t b) = b"
    and ask_stable: "\<not> blocked t b \<Longrightarrow> ask t (snd (ask t b)) = (True, snd (ask t b))"
begin

lemma ask_eq: "ask t b = (\<not> blocked t b, snd (ask t b))"
  by (rule prod_eqI) (simp_all add: ask_answer)

lemma ask_twice: "ask t (snd (ask t b)) = ask t b"
proof (cases "blocked t b")
  case True
  then show ?thesis by (simp add: ask_refused)
next
  case False
  then show ?thesis using ask_eq [of t b] ask_stable [OF False] by simp
qed

lemma blocked_after_ask: "blocked t (snd (ask t b)) = blocked t b"
  using ask_answer [of t "snd (ask t b)"] ask_answer [of t b] by (simp add: ask_twice)

lemma refused_iff: "ask t b = (False, b) \<longleftrightarrow> blocked t b"
  using ask_answer [of t b] ask_refused [of t b] by (cases "ask t b") auto

end

definition cb_blocked :: "time \<Rightarrow> circuit_breaker \<Rightarrow> bool" where
  "cb_blocked t cb \<longleftrightarrow> cb_st cb = StateOpen \<and> t - openedAt cb < OpenTimeout (cb_cfg cb)"

interpretation cb_gate: gate Allow cb_blocked
  by unfold_locales (auto simp: Allow_def cb_blocked_def split: cb_state.splits)

end
