(* ===== verification/Router.thy ===== *)
theory Router
  imports Adapters Circuit_Breaker
begin

text \<open>
  Provider selection, \<^verbatim>\<open>internal/service/router.go\<close>: the registry of adapters with one breaker
  each, the routing rules, and \<^verbatim>\<open>Route\<close>. Asking a breaker may move it to half-open, so routing
  changes the registry. The order in which Go iterates over the adapter map is an argument.
  The result is compared with a specification that does not touch any state: the first usable
  entry of a list of candidates.
\<close>

section \<open>The registry\<close>

record 'w router =
  adapters :: "string \<rightharpoonup> 'w psp_adapter"
  breakers :: "string \<rightharpoonup> circuit_breaker"
  rules :: "routing_rule list"

definition NewPaymentRouter :: "'w router" where
  "NewPaymentRouter = \<lparr>adapters = Map.empty, breakers = Map.empty, rules = []\<rparr>"

definition RegisterAdapter :: "string \<Rightarrow> 'w psp_adapter \<Rightarrow> 'w router \<Rightarrow> 'w router" where
  "RegisterAdapter name a rt =
     rt\<lparr>adapters := (adapters rt)(name \<mapsto> a),
        breakers := (breakers rt)(name \<mapsto> cb_New name cb_DefaultConfig)\<rparr>"

definition LoadRules :: "routing_rule list \<Rightarrow> 'w router \<Rightarrow> 'w router" where
  "LoadRules rs rt = rt\<lparr>rules := rs\<rparr>"

definition GetAdapter :: "'w router \<Rightarrow> string \<Rightarrow> err + 'w psp_adapter" where
  "GetAdapter rt name =
     (case adapters rt name of None \<Rightarrow> Inl (AdapterNotFound name) | Some adp \<Rightarrow> Inr adp)"

definition GetAdapters :: "'w router \<Rightarrow> (string \<rightharpoonup> 'w psp_adapter)" where
  "GetAdapters rt = adapters rt"

definition RecordSuccess :: "string \<Rightarrow> 'w router \<Rightarrow> 'w router" where
  "RecordSuccess psp rt =
     (case breakers rt psp of
        None \<Rightarrow> rt
      | Some cb \<Rightarrow> rt\<lparr>breakers := (breakers rt)(psp \<mapsto> cb_RecordSuccess cb)\<rparr>)"

definition RecordFailure :: "time \<Rightarrow> string \<Rightarrow> 'w router \<Rightarrow> 'w router" where
  "RecordFailure now psp rt =
     (case breakers rt psp of
        None \<Rightarrow> rt
      | Some cb \<Rightarrow> rt\<lparr>breakers := (breakers rt)(psp \<mapsto> cb_RecordFailure now cb)\<rparr>)"

definition GetBreakerStats :: "'w router \<Rightarrow> (string \<rightharpoonup> cb_stats)" where
  "GetBreakerStats rt = map_option Stats \<circ> breakers rt"

section \<open>Routing\<close>

definition isAvailable :: "time \<Rightarrow> string \<Rightarrow> 'w router \<Rightarrow> bool \<times> 'w router" where
  "isAvailable now psp rt =
     (case breakers rt psp of
        None \<Rightarrow> (True, rt)
      | Some cb \<Rightarrow>
          (case Allow now cb of
             (ok, cb') \<Rightarrow> (ok, rt\<lparr>breakers := (breakers rt)(psp \<mapsto> cb')\<rparr>)))"

definition matches :: "routing_conditions \<Rightarrow> create_payment_request \<Rightarrow> bool" where
  "matches cond req \<longleftrightarrow>
     \<not> (case MinAmount cond of None \<Rightarrow> False | Some m \<Rightarrow> rq_Amount req <s m)
   \<and> \<not> (case MaxAmount cond of None \<Rightarrow> False | Some m \<Rightarrow> m <s rq_Amount req)
   \<and> \<not> (rc_Currency cond \<noteq> [] \<and> rq_Currency req \<noteq> rc_Currency cond)"

type_synonym 'w route_result = "(routing_decision \<times> 'w psp_adapter) option"

definition preferred_decision :: "string \<Rightarrow> routing_decision" where
  "preferred_decision psp =
     \<lparr>rd_SelectedPSP = psp, rd_FallbackPSP = [], rd_Reason = ''merchant_preference'',
      rd_RuleName = ''explicit_override''\<rparr>"

definition primary_decision :: "routing_rule \<Rightarrow> routing_decision" where
  "primary_decision rule =
     \<lparr>rd_SelectedPSP = ru_PrimaryPSP rule, rd_FallbackPSP = ru_FallbackPSP rule,
      rd_Reason = ''rule_match'', rd_RuleName = ru_Name rule\<rparr>"

definition fallback_decision :: "routing_rule \<Rightarrow> routing_decision" where
  "fallback_decision rule =
     \<lparr>rd_SelectedPSP = ru_FallbackPSP rule, rd_FallbackPSP = [],
      rd_Reason = ''circuit_breaker_fallback'', rd_RuleName = ru_Name rule\<rparr>"

definition last_resort_decision :: "string \<Rightarrow> routing_decision" where
  "last_resort_decision psp =
     \<lparr>rd_SelectedPSP = psp, rd_FallbackPSP = [], rd_Reason = ''last_resort_fallback'',
      rd_RuleName = ''no_rule_matched''\<rparr>"

text \<open>The merchant's preference: the adapter is looked up before its breaker is asked.\<close>

definition route_preferred ::
  "time \<Rightarrow> create_payment_request \<Rightarrow> 'w router \<Rightarrow> 'w route_result \<times> 'w router" where
  "route_preferred now req rt =
     (case rq_RoutingPreferences req of
        None \<Rightarrow> (None, rt)
      | Some pref \<Rightarrow>
          if pref = [] then (None, rt)
          else case adapters rt pref of
                 None \<Rightarrow> (None, rt)
               | Some adp \<Rightarrow>
                   (case isAvailable now pref rt of
                      (True, rt') \<Rightarrow> (Some (preferred_decision pref, adp), rt')
                    | (False, rt') \<Rightarrow> (None, rt')))"

text \<open>Under a rule the breaker is asked first; an unregistered provider has none.\<close>

definition try_psp ::
  "time \<Rightarrow> string \<Rightarrow> routing_decision \<Rightarrow> 'w router \<Rightarrow> 'w route_result \<times> 'w router" where
  "try_psp now psp dec rt =
     (case isAvailable now psp rt of
        (True, rt') \<Rightarrow> (map_option (Pair dec) (adapters rt' psp), rt')
      | (False, rt') \<Rightarrow> (None, rt'))"

text \<open>A step that selected a provider returns; otherwise the next one runs.\<close>

definition or_else ::
  "'w route_result \<times> 'w router \<Rightarrow> ('w router \<Rightarrow> 'w route_result \<times> 'w router) \<Rightarrow>
   'w route_result \<times> 'w router" where
  "or_else res next_step =
     (case res of (Some r, rt) \<Rightarrow> (Some r, rt) | (None, rt) \<Rightarrow> next_step rt)"

fun route_rules ::
  "time \<Rightarrow> create_payment_request \<Rightarrow> routing_rule list \<Rightarrow> 'w router \<Rightarrow> 'w route_result \<times> 'w router" where
  "route_rules now req [] rt = (None, rt)"
| "route_rules now req (rule # rs) rt =
     (if \<not> matches (ru_Conditions rule) req then route_rules now req rs rt
      else or_else (try_psp now (ru_PrimaryPSP rule) (primary_decision rule) rt) (\<lambda>rt'.
           or_else (if ru_FallbackPSP rule \<noteq> []
                    then try_psp now (ru_FallbackPSP rule) (fallback_decision rule) rt'
                    else (None, rt')) (\<lambda>rt''.
           route_rules now req rs rt'')))"

fun route_last_resort ::
  "time \<Rightarrow> string list \<Rightarrow> 'w router \<Rightarrow> 'w route_result \<times> 'w router" where
  "route_last_resort now [] rt = (None, rt)"
| "route_last_resort now (name # names) rt =
     or_else (try_psp now name (last_resort_decision name) rt) (\<lambda>rt'.
       route_last_resort now names rt')"

text \<open>\<open>order\<close> lists the registered names in the order of the map iteration.\<close>

definition Route ::
  "time \<Rightarrow> string list \<Rightarrow> create_payment_request \<Rightarrow> 'w router \<Rightarrow>
   (err + routing_decision \<times> 'w psp_adapter) \<times> 'w router" where
  "Route now order req rt =
     (case or_else (route_preferred now req rt) (\<lambda>rt.
           or_else (route_rules now req (rules rt) rt) (\<lambda>rt.
           route_last_resort now order rt)) of
        (Some r, rt) \<Rightarrow> (Inr r, rt)
      | (None, rt) \<Rightarrow> (Inl (Errorf ''all PSPs are unavailable''), rt))"

section \<open>What routing leaves alone\<close>

text \<open>Whether a provider would be let through at an instant, without asking.\<close>

definition available :: "time \<Rightarrow> 'w router \<Rightarrow> string \<Rightarrow> bool" where
  "available now rt psp \<longleftrightarrow>
     (case breakers rt psp of None \<Rightarrow> True | Some cb \<Rightarrow> \<not> cb_blocked now cb)"

text \<open>A router differs from another by breakers having been asked at an instant.\<close>

definition asked :: "time \<Rightarrow> 'w router \<Rightarrow> 'w router \<Rightarrow> bool" where
  "asked now rt rt' \<longleftrightarrow>
     adapters rt' = adapters rt \<and> rules rt' = rules rt
   \<and> (\<forall>psp. breakers rt' psp = breakers rt psp
          \<or> breakers rt' psp = map_option (\<lambda>cb. snd (Allow now cb)) (breakers rt psp))"

lemma asked_refl [simp, intro]: "asked now rt rt"
  by (simp add: asked_def)

lemma asked_twice:
  assumes "b' = b \<or> b' = map_option (\<lambda>cb. snd (Allow now cb)) b"
    and "b'' = b' \<or> b'' = map_option (\<lambda>cb. snd (Allow now cb)) b'"
  shows "b'' = b \<or> b'' = map_option (\<lambda>cb. snd (Allow now cb)) b"
  using assms by (cases b) (auto simp: cb_gate.ask_twice)

lemma asked_trans: "asked now rt rt' \<Longrightarrow> asked now rt' rt'' \<Longrightarrow> asked now rt rt''"
  unfolding asked_def by (metis asked_twice)

lemma asked_available: "asked now rt rt' \<Longrightarrow> available now rt' psp = available now rt psp"
  by (cases "breakers rt psp")
    (auto simp: asked_def available_def cb_gate.blocked_after_ask dest: spec [of _ psp])

lemma asked_adapters: "asked now rt rt' \<Longrightarrow> adapters rt' = adapters rt"
  by (simp add: asked_def)

lemma isAvailable_spec: "fst (isAvailable now psp rt) = available now rt psp"
  using cb_gate.ask_eq [of now]
  by (auto simp: isAvailable_def available_def cb_gate.ask_answer split: option.split prod.split)
    (metis cb_gate.ask_answer fst_conv)+

lemma isAvailable_asked: "asked now rt (snd (isAvailable now psp rt))"
  by (auto simp: isAvailable_def asked_def split: option.split prod.split)

lemma isAvailable_eq: "isAvailable now psp rt = (available now rt psp, snd (isAvailable now psp rt))"
  by (rule prod_eqI) (simp_all add: isAvailable_spec)

section \<open>The specification: the first usable candidate\<close>

definition usable :: "time \<Rightarrow> 'w router \<Rightarrow> string \<times> routing_decision \<Rightarrow> bool" where
  "usable now rt c \<longleftrightarrow> adapters rt (fst c) \<noteq> None \<and> available now rt (fst c)"

definition preferred_candidates :: "create_payment_request \<Rightarrow> (string \<times> routing_decision) list" where
  "preferred_candidates req =
     (case rq_RoutingPreferences req of
        None \<Rightarrow> [] | Some pref \<Rightarrow> if pref = [] then [] else [(pref, preferred_decision pref)])"

definition rule_candidates ::
  "create_payment_request \<Rightarrow> routing_rule \<Rightarrow> (string \<times> routing_decision) list" where
  "rule_candidates req rule =
     (if matches (ru_Conditions rule) req
      then (ru_PrimaryPSP rule, primary_decision rule)
           # (if ru_FallbackPSP rule \<noteq> [] then [(ru_FallbackPSP rule, fallback_decision rule)] else [])
      else [])"

definition candidates ::
  "create_payment_request \<Rightarrow> routing_rule list \<Rightarrow> string list \<Rightarrow> (string \<times> routing_decision) list" where
  "candidates req rs order =
     preferred_candidates req @ concat (map (rule_candidates req) rs)
       @ map (\<lambda>n. (n, last_resort_decision n)) order"

text \<open>The answer for a list of candidates, with the adapter that goes with it.\<close>

definition pick ::
  "time \<Rightarrow> 'w router \<Rightarrow> (string \<times> routing_decision) list \<Rightarrow> 'w route_result" where
  "pick now rt cs =
     Option.bind (find (usable now rt) cs)
       (\<lambda>(psp, dec). map_option (Pair dec) (adapters rt psp))"

lemma pick_Nil [simp]: "pick now rt [] = None"
  by (simp add: pick_def)

lemma pick_Cons:
  "pick now rt ((psp, dec) # cs) =
     (if available now rt psp
      then case adapters rt psp of Some adp \<Rightarrow> Some (dec, adp) | None \<Rightarrow> pick now rt cs
      else pick now rt cs)"
  by (auto simp: pick_def usable_def split: option.split)

lemma pick_append:
  "pick now rt (cs @ ds) = (case pick now rt cs of Some r \<Rightarrow> Some r | None \<Rightarrow> pick now rt ds)"
proof (induction cs)
  case (Cons c cs)
  then show ?case by (cases c) (simp add: pick_Cons split: option.split)
qed simp

lemma pick_asked: "asked now rt rt' \<Longrightarrow> pick now rt' cs = pick now rt cs"
  by (induction cs) (auto simp: pick_Cons asked_available asked_adapters split: option.split)

text \<open>A routing step answers like the specification and only asks breakers.\<close>

definition routes_like ::
  "time \<Rightarrow> 'w router \<Rightarrow> 'w route_result \<times> 'w router \<Rightarrow> (string \<times> routing_decision) list \<Rightarrow> bool" where
  "routes_like now rt res cs \<longleftrightarrow> fst res = pick now rt cs \<and> asked now rt (snd res)"

lemma try_psp_like: "routes_like now rt (try_psp now psp dec rt) [(psp, dec)]"
proof -
  have "adapters (snd (isAvailable now psp rt)) = adapters rt"
    by (rule asked_adapters [OF isAvailable_asked])
  then show ?thesis
    unfolding routes_like_def try_psp_def
    by (subst (1 2) isAvailable_eq)
      (auto simp: pick_Cons isAvailable_asked split: bool.split option.split)
qed

lemma routes_like_seq:
  assumes "routes_like now rt res cs"
    and "\<And>rt'. asked now rt rt' \<Longrightarrow> routes_like now rt' (f rt') ds"
  shows "routes_like now rt (or_else res f) (cs @ ds)"
proof -
  obtain r rt' where res: "res = (r, rt')" by (cases res)
  with assms(1) have r: "r = pick now rt cs" and ask: "asked now rt rt'"
    by (auto simp: routes_like_def)
  from assms(2) [OF ask] ask show ?thesis
    by (auto simp: res r or_else_def routes_like_def pick_append pick_asked intro: asked_trans
        split: option.split)
qed

lemma route_preferred_like: "routes_like now rt (route_preferred now req rt) (preferred_candidates req)"
proof (cases "rq_RoutingPreferences req")
  case None
  then show ?thesis
    by (simp add: routes_like_def route_preferred_def preferred_candidates_def)
next
  case (Some pref)
  then show ?thesis
    unfolding routes_like_def route_preferred_def preferred_candidates_def
    by (subst (1 2) isAvailable_eq)
      (auto simp: pick_Cons isAvailable_asked split: option.split bool.split)
qed

lemma route_rules_like:
  fixes rt :: "'w router"
  shows "routes_like now rt (route_rules now req rs rt) (concat (map (rule_candidates req) rs))"
proof (induction rs arbitrary: rt)
  case Nil
  then show ?case by (simp add: routes_like_def)
next
  case (Cons rule rs)
  show ?case
  proof (cases "matches (ru_Conditions rule) req")
    case False
    with Cons show ?thesis by (simp add: rule_candidates_def)
  next
    case True
    let ?fb = "if ru_FallbackPSP rule \<noteq> [] then [(ru_FallbackPSP rule, fallback_decision rule)] else []"
    have fb: "routes_like now rt'
        (if ru_FallbackPSP rule \<noteq> []
         then try_psp now (ru_FallbackPSP rule) (fallback_decision rule) rt' else (None, rt')) ?fb" for rt' :: "'w router"
      using try_psp_like [of now rt'] by (simp add: routes_like_def)
    have tail: "routes_like now rt'
        (or_else (if ru_FallbackPSP rule \<noteq> []
                  then try_psp now (ru_FallbackPSP rule) (fallback_decision rule) rt' else (None, rt'))
           (\<lambda>rt''. route_rules now req rs rt''))
        (?fb @ concat (map (rule_candidates req) rs))" for rt' :: "'w router"
      by (rule routes_like_seq, rule fb, rule Cons.IH)
    have cs: "concat (map (rule_candidates req) (rule # rs)) =
        [(ru_PrimaryPSP rule, primary_decision rule)] @ ?fb @ concat (map (rule_candidates req) rs)"
      using True by (simp add: rule_candidates_def)
    show ?thesis
      unfolding cs
      by (simp only: route_rules.simps True not_True_eq_False if_False)
        (rule routes_like_seq, rule try_psp_like, rule tail)
  qed
qed

lemma route_last_resort_like:
  "routes_like now rt (route_last_resort now names rt) (map (\<lambda>n. (n, last_resort_decision n)) names)"
proof (induction names arbitrary: rt)
  case Nil
  then show ?case by (simp add: routes_like_def)
next
  case (Cons n names)
  have "routes_like now rt (route_last_resort now (n # names) rt)
      ([(n, last_resort_decision n)] @ map (\<lambda>n. (n, last_resort_decision n)) names)"
    unfolding route_last_resort.simps by (intro routes_like_seq try_psp_like Cons.IH)
  then show ?case by simp
qed

lemma Route_like:
  fixes rt :: "'w router"
  shows "fst (Route now order req rt) =
     (case pick now rt (candidates req (rules rt) order) of
        Some r \<Rightarrow> Inr r | None \<Rightarrow> Inl (Errorf ''all PSPs are unavailable''))
   \<and> asked now rt (snd (Route now order req rt))"
proof -
  have rest: "asked now rt rt' \<Longrightarrow> routes_like now rt'
      (or_else (route_rules now req (rules rt') rt') (\<lambda>rt. route_last_resort now order rt))
      (concat (map (rule_candidates req) (rules rt)) @ map (\<lambda>n. (n, last_resort_decision n)) order)" for rt' :: "'w router"
    unfolding asked_def [of now rt rt']
    by (erule conjE, simp only:)
      (rule routes_like_seq, rule route_rules_like, rule route_last_resort_like)
  have "routes_like now rt
      (or_else (route_preferred now req rt) (\<lambda>rt. or_else (route_rules now req (rules rt) rt)
        (\<lambda>rt. route_last_resort now order rt)))
      (candidates req (rules rt) order)"
    unfolding candidates_def by (rule routes_like_seq, rule route_preferred_like, rule rest)
  then show ?thesis
    by (auto simp: routes_like_def Route_def split: prod.split option.split)
qed

text \<open>
  C23: \<^verbatim>\<open>Route\<close> picks the first usable candidate, in this order: the merchant's preference, for
  each matching rule its primary and then its fallback provider, then any registered provider.
  Usable means registered and let through by its breaker. It fails only when no candidate is
  usable, and it changes nothing but breakers it asked.
\<close>

theorem Route_first_usable_candidate:
  "fst (Route now order req rt) =
     (case find (usable now rt) (candidates req (rules rt) order) of
        None \<Rightarrow> Inl (Errorf ''all PSPs are unavailable'')
      | Some (psp, dec) \<Rightarrow> Inr (dec, the (adapters rt psp)))
   \<and> asked now rt (snd (Route now order req rt))"
  using Route_like [of now order req rt]
  by (auto simp: pick_def usable_def split: option.split dest!: find_SomeD)

lemma decision_selects_candidate:
  "(psp, dec) \<in> set (candidates req rs order) \<Longrightarrow> rd_SelectedPSP dec = psp"
  by (auto simp: candidates_def preferred_candidates_def rule_candidates_def preferred_decision_def
      primary_decision_def fallback_decision_def last_resort_decision_def
      split: option.splits if_splits)

text \<open>
  C24: the breaker protects a failing provider: a provider whose breaker is open inside its
  time-out is never selected, whatever the rules or the merchant ask for, and as long as the
  map iteration reaches some registered provider that is let through, routing succeeds.
\<close>

theorem Route_respects_breakers:
  assumes "set order = dom (adapters rt)"
  shows "(\<forall>dec adp. fst (Route now order req rt) = Inr (dec, adp) \<longrightarrow>
            adapters rt (rd_SelectedPSP dec) = Some adp \<and> available now rt (rd_SelectedPSP dec))
    \<and> (isInl (fst (Route now order req rt)) \<longleftrightarrow>
         (\<forall>psp \<in> dom (adapters rt). \<not> available now rt psp))"
proof -
  let ?cs = "candidates req (rules rt) order"
  have sel: "find (usable now rt) ?cs = Some (psp, dec) \<Longrightarrow>
      rd_SelectedPSP dec = psp \<and> adapters rt psp \<noteq> None \<and> available now rt psp" for psp dec
    by (auto dest!: find_SomeD simp: usable_def decision_selects_candidate)
  have none: "find (usable now rt) ?cs = None \<longleftrightarrow> (\<forall>psp \<in> dom (adapters rt). \<not> available now rt psp)"
  proof
    assume "find (usable now rt) ?cs = None"
    then have "\<forall>n \<in> set order. \<not> usable now rt (n, last_resort_decision n)"
      by (auto simp: find_None_iff candidates_def)
    with assms show "\<forall>psp \<in> dom (adapters rt). \<not> available now rt psp"
      by (auto simp: usable_def)
  qed (auto simp: find_None_iff usable_def dom_def)
  show ?thesis
    using Route_first_usable_candidate [of now order req rt] sel none
    by (auto split: option.splits prod.splits)
qed

definition demo_request :: create_payment_request where
  "demo_request =
     \<lparr>rq_MerchantID = ''merchant_abc'', rq_OrderID = ''order_1'', rq_Amount = 10000,
      rq_Currency = ''INR'', rq_CustomerEmail = [], rq_CustomerPhone = [], rq_CustomerName = [],
      rq_PaymentMethodType = [], rq_PaymentMethodDetails = None, rq_RoutingPreferences = None,
      rq_Metadata = None\<rparr>"

definition demo_rule :: routing_rule where
  "demo_rule =
     \<lparr>ru_Name = ''default_mock_rule'',
      ru_Conditions = \<lparr>MinAmount = None, MaxAmount = None, rc_Currency = [], rc_Country = [],
                       rc_CountryNe = []\<rparr>,
      ru_PrimaryPSP = PSPMock, ru_FallbackPSP = [], ru_Priority = 100\<rparr>"

definition demo_router :: "mock_world router" where
  "demo_router =
     LoadRules [demo_rule]
       (RegisterAdapter PSPMock (NewMockPSP (\<lambda>secret payload. secret @ payload) DefaultMockConfig)
         NewPaymentRouter)"

theorem Route_respects_breakers_witness:
  "\<not> isInl (fst (Route 0 [PSPMock] demo_request demo_router))"
proof -
  have "set [PSPMock] = dom (adapters demo_router)"
    by (simp add: demo_router_def LoadRules_def RegisterAdapter_def NewPaymentRouter_def)
  note claim = Route_respects_breakers [OF this, of 0 demo_request]
  have "PSPMock \<in> dom (adapters demo_router)" and "available 0 demo_router PSPMock"
    by (simp_all add: demo_router_def LoadRules_def RegisterAdapter_def NewPaymentRouter_def
        available_def cb_blocked_def cb_New_def)
  with claim show ?thesis by blast
qed

end
