(* ===== verification/Payment_Service.thy ===== *)
theory Payment_Service
  imports Database Router
begin

text \<open>
  The payment service, \<^verbatim>\<open>internal/service/payment.go\<close>: create, read, capture, refund, cancel.
  Its state is the database, the router with its breakers, the world of the providers and the
  events handed to Pub/Sub. A provider call changes the world even when the transaction around it
  is rolled back afterwards.
\<close>

section \<open>State\<close>

record payment_event =
  pe_PaymentID :: string
  pe_FromStatus :: string
  pe_ToStatus :: string
  pe_Trigger :: string
  pe_Timestamp :: time

record 'w sys =
  sdb :: db
  srouter :: "'w router"
  world :: 'w
  pubsub_on :: bool
  events :: "payment_event list"

definition PublishPaymentEvent ::
  "time \<Rightarrow> string \<Rightarrow> payment_status \<Rightarrow> payment_status \<Rightarrow> string \<Rightarrow> 'w sys \<Rightarrow> 'w sys" where
  "PublishPaymentEvent now paymentID from to trigger s =
     (if pubsub_on s
      then s\<lparr>events := events s @ [\<lparr>pe_PaymentID = paymentID, pe_FromStatus = status_string from,
             pe_ToStatus = status_string to, pe_Trigger = trigger, pe_Timestamp = now\<rparr>]\<rparr>
      else s)"

section \<open>Reading a payment\<close>

definition payment_of_row :: "payment_row \<Rightarrow> string \<Rightarrow> payment" where
  "payment_of_row r pspPaymentID =
     \<lparr>ID = pay_id r, MerchantID = pay_merchant_id r, OrderID = pay_order_id r, Amount = pay_amount r,
      Currency = pay_currency r, Status = pay_status r, PSP = pay_psp r, PSPPaymentID = pspPaymentID,
      CustomerEmail = pay_customer_email r, CustomerPhone = [], CustomerName = [],
      PaymentMethodType = [], PaymentMethodDetails = None, TotalRefunded = pay_total_refunded r,
      Metadata = None, CreatedAt = pay_created_at r, UpdatedAt = pay_updated_at r, CreatedBy = []\<rparr>"

text \<open>
  \<^verbatim>\<open>ORDER BY created_at\<close> leaves the order of equal times open; here they stay in insertion order.
\<close>

definition GetPayment :: "env \<Rightarrow> nat \<Rightarrow> string \<Rightarrow> db \<Rightarrow> err + payment_response" where
  "GetPayment env k pid d =
     (let flt = e_fault env k in
      case at_site flt SelectPayment (select_payment pid) d of
        Inl e \<Rightarrow> Inl (if e = ErrNoRows then ErrPaymentNotFound else e)
      | Inr (r, _) \<Rightarrow>
          andThen (scan_string (pay_psp_payment_id r)) (\<lambda>pspPaymentID.
          andThen (guardE (flt SelectTransitions)) (\<lambda>_.
          andThen (mapErr (Wrapped ''iterating state transitions'') (guardE (flt ScanTransitions))) (\<lambda>_.
          Inr \<lparr>pr_Payment = payment_of_row r pspPaymentID,
               pr_StateTransitions = sort_key tr_CreatedAt (trail d pid)\<rparr>))))"

section \<open>Changing the status with an optimistic lock\<close>

definition with_status :: "payment_status \<Rightarrow> string \<Rightarrow> time \<Rightarrow> payment_row \<Rightarrow> payment_row" where
  "with_status to pspPaymentID now r =
     r\<lparr>pay_status := to,
       pay_psp_payment_id := (if pspPaymentID \<noteq> [] then Some pspPaymentID else pay_psp_payment_id r),
       pay_updated_at := now\<rparr>"

definition status_transition ::
  "env \<Rightarrow> nat \<Rightarrow> string \<Rightarrow> payment_status \<Rightarrow> payment_status \<Rightarrow> string \<Rightarrow> string \<Rightarrow> state_transition" where
  "status_transition env k paymentID from to reason trigger =
     \<lparr>tr_ID = e_uuid env (1 + k), tr_PaymentID = paymentID, tr_FromStatus = Some from,
      tr_ToStatus = to, tr_Reason = reason, tr_TriggeredBy = trigger, tr_CreatedAt = e_now env k\<rparr>"

definition status_update_tx ::
  "env \<Rightarrow> nat \<Rightarrow> string \<Rightarrow> payment_status \<Rightarrow> payment_status \<Rightarrow> string \<Rightarrow> string \<Rightarrow> string \<Rightarrow> unit tx" where
  "status_update_tx env k paymentID from to pspPaymentID reason trigger =
     (let flt = e_fault env k; now = e_now env k in
      bindT (callT flt Begin) (\<lambda>_.
      bindT (at_site flt UpdatePayment (update_payments
               (\<lambda>r. pay_id r = paymentID \<and> pay_status r = from)
               (with_status to pspPaymentID now))) (\<lambda>affected.
      bindT (if affected = 0 then failT (OptimisticLockFailed paymentID from) else returnT ()) (\<lambda>_.
      bindT (at_site flt InsertTransition (insert_transition
               (status_transition env k paymentID from to reason trigger))) (\<lambda>_.
      callT flt Commit)))))"

definition updatePaymentState ::
  "env \<Rightarrow> nat \<Rightarrow> string \<Rightarrow> payment_status \<Rightarrow> payment_status \<Rightarrow> string \<Rightarrow> string \<Rightarrow> string \<Rightarrow>
   'w sys \<Rightarrow> (err + unit) \<times> 'w sys" where
  "updatePaymentState env k paymentID from to pspPaymentID reason trigger s =
     (case ValidateTransition from to of
        Some e \<Rightarrow> (Inl e, s)
      | None \<Rightarrow>
          (case run_tx (status_update_tx env k paymentID from to pspPaymentID reason trigger) (sdb s) of
             (Inl e, _) \<Rightarrow> (Inl e, s)
           | (Inr _, d') \<Rightarrow>
               (Inr (), PublishPaymentEvent (e_now env k) paymentID from to trigger (s\<lparr>sdb := d'\<rparr>))))"

section \<open>Creating a payment\<close>

definition initial_row :: "env \<Rightarrow> create_payment_request \<Rightarrow> string \<Rightarrow> payment_row" where
  "initial_row env req psp =
     \<lparr>pay_id = e_uuid env 0, pay_merchant_id = rq_MerchantID req, pay_order_id = rq_OrderID req,
      pay_amount = rq_Amount req, pay_currency = rq_Currency req, pay_status = PaymentStatusCreated,
      pay_psp = psp, pay_psp_payment_id = None, pay_customer_email = rq_CustomerEmail req,
      pay_customer_name = rq_CustomerName req, pay_customer_phone = rq_CustomerPhone req,
      pay_metadata = rq_Metadata req, pay_total_refunded = 0, pay_created_at = e_now env 0,
      pay_updated_at = e_now env 0\<rparr>"

definition initial_transition :: "env \<Rightarrow> state_transition" where
  "initial_transition env =
     \<lparr>tr_ID = e_uuid env 1, tr_PaymentID = e_uuid env 0, tr_FromStatus = None,
      tr_ToStatus = PaymentStatusCreated, tr_Reason = ''Payment initialized'',
      tr_TriggeredBy = ''system'', tr_CreatedAt = e_now env 0\<rparr>"

definition create_tx :: "env \<Rightarrow> create_payment_request \<Rightarrow> string \<Rightarrow> unit tx" where
  "create_tx env req psp =
     (let flt = e_fault env 0 in
      bindT (ctxT ''begin tx'' (callT flt Begin)) (\<lambda>_.
      bindT (ctxT ''inserting payment'' (at_site flt InsertPayment (insert_payment (initial_row env req psp)))) (\<lambda>_.
      bindT (ctxT ''inserting transition''
               (at_site flt InsertTransition (insert_transition (initial_transition env)))) (\<lambda>_.
      ctxT ''commit tx'' (callT flt Commit)))))"

definition psp_request :: "create_payment_request \<Rightarrow> psp_payment_request" where
  "psp_request req =
     \<lparr>pq_Amount = rq_Amount req, pq_Currency = rq_Currency req,
      pq_Description = ''Order '' @ rq_OrderID req, pq_OrderID = rq_OrderID req,
      pq_CustomerEmail = rq_CustomerEmail req, pq_Metadata = []\<rparr>"

text \<open>The outcome of the provider call, on the breaker and on the payment.\<close>

definition record_outcome :: "env \<Rightarrow> string \<Rightarrow> err + psp_payment_response \<Rightarrow> 'w router \<Rightarrow> 'w router" where
  "record_outcome env psp pspRes rt =
     (case pspRes of Inl _ \<Rightarrow> RecordFailure (e_now env 1) psp rt | Inr _ \<Rightarrow> RecordSuccess psp rt)"

definition final_update :: "env \<Rightarrow> err + psp_payment_response \<Rightarrow> 'w sys \<Rightarrow> (err + unit) \<times> 'w sys" where
  "final_update env pspRes s =
     (case pspRes of
        Inl e \<Rightarrow> updatePaymentState env 1 (e_uuid env 0) PaymentStatusCreated PaymentStatusFailed
                   [] (Error e) ''system'' s
      | Inr r \<Rightarrow> updatePaymentState env 1 (e_uuid env 0) PaymentStatusCreated PaymentStatusAuthorized
                   (ps_PSPPaymentID r) ''PSP authorization successful'' ''system'' s)"

definition CreatePayment ::
  "env \<Rightarrow> create_payment_request \<Rightarrow> 'w sys \<Rightarrow> (err + payment_response) \<times> 'w sys" where
  "CreatePayment env req s =
     (case Route (e_now env 0) (e_order env) req (srouter s) of
        (Inl e, rt) \<Rightarrow> (Inl (Wrapped ''routing payment'' e), s\<lparr>srouter := rt\<rparr>)
      | (Inr (decision, pspAdapter), rt) \<Rightarrow>
        let psp = rd_SelectedPSP decision in
        (case run_tx (create_tx env req psp) (sdb s) of
           (Inl e, _) \<Rightarrow> (Inl e, s\<lparr>srouter := rt\<rparr>)
         | (Inr _, d1) \<Rightarrow>
           (case Do retry_DefaultConfig ''psp_create_payment'' (e_cancel env)
                   (ad_CreatePayment pspAdapter (psp_request req)) (world s) of
              (pspRes, w) \<Rightarrow>
                (case final_update env pspRes
                        (s\<lparr>sdb := d1, world := w, srouter := record_outcome env psp pspRes rt\<rparr>) of
                   (Inl e, s2) \<Rightarrow> (Inl (Wrapped ''updating final state'' e), s2)
                 | (Inr _, s2) \<Rightarrow>
                     (case pspRes of
                        Inl e \<Rightarrow> (Inl (Wrapped ''psp failed'' e), s2)
                      | Inr _ \<Rightarrow> (GetPayment env 2 (e_uuid env 0) (sdb s2), s2))))))"

section \<open>Capture, refund, cancel\<close>

text \<open>
  Capture and refund lock the row, check it, call the provider under the lock, then write. Every
  error of the locked read is reported as a missing payment, a NULL provider id included.
\<close>

definition lock_payment :: "env \<Rightarrow> string \<Rightarrow> (payment_row \<times> string) tx" where
  "lock_payment env pid d =
     mapErr (\<lambda>_. ErrPaymentNotFound)
       (case at_site (e_fault env 0) LockPayment (select_payment pid) d of
          Inl e \<Rightarrow> Inl e
        | Inr (r, d') \<Rightarrow> andThen (scan_string (pay_psp_payment_id r)) (\<lambda>pspID. Inr ((r, pspID), d')))"

definition lock_tx :: "env \<Rightarrow> string \<Rightarrow> (payment_row \<times> string) tx" where
  "lock_tx env pid =
     bindT (ctxT ''begin tx'' (callT (e_fault env 0) Begin)) (\<lambda>_. lock_payment env pid)"

definition capture_transition :: "env \<Rightarrow> string \<Rightarrow> state_transition" where
  "capture_transition env pid =
     \<lparr>tr_ID = e_uuid env 0, tr_PaymentID = pid, tr_FromStatus = Some PaymentStatusAuthorized,
      tr_ToStatus = PaymentStatusCaptured, tr_Reason = ''Payment captured via API'',
      tr_TriggeredBy = ''api'', tr_CreatedAt = e_now env 0\<rparr>"

definition capture_writes :: "env \<Rightarrow> string \<Rightarrow> unit tx" where
  "capture_writes env pid =
     bindT (change_status (e_fault env 0) (Wrapped ''updating capture state'') (Wrapped ''recording capture transition'') pid
              (\<lambda>r. r\<lparr>pay_status := PaymentStatusCaptured, pay_updated_at := e_now env 0\<rparr>)
              (capture_transition env pid)) (\<lambda>_.
     ctxT ''commit capture tx'' (callT (e_fault env 0) Commit))"

definition CapturePayment :: "env \<Rightarrow> string \<Rightarrow> 'w sys \<Rightarrow> (err + payment_response) \<times> 'w sys" where
  "CapturePayment env pid s =
     (case lock_tx env pid (sdb s) of
        Inl e \<Rightarrow> (Inl e, s)
      | Inr ((p, pspID), d) \<Rightarrow>
          if pay_status p \<noteq> PaymentStatusAuthorized then (Inl ErrNotAuthorized, s)
          else case GetAdapter (srouter s) (pay_psp p) of
            Inl e \<Rightarrow> (Inl e, s)
          | Inr adp \<Rightarrow>
            (case ad_CapturePayment adp pspID (pay_amount p) (pay_currency p) (world s) of
               (Inl e, w) \<Rightarrow> (Inl (Wrapped ''psp capture failed'' e), s\<lparr>world := w\<rparr>)
             | (Inr _, w) \<Rightarrow>
               (case capture_writes env pid d of
                  Inl e \<Rightarrow> (Inl e, s\<lparr>world := w\<rparr>)
                | Inr (_, d') \<Rightarrow>
                    (GetPayment env 1 pid d',
                     PublishPaymentEvent (e_now env 1) pid PaymentStatusAuthorized PaymentStatusCaptured
                       ''api'' (s\<lparr>world := w, sdb := d'\<rparr>)))))"

definition refund_reason :: "int64 \<Rightarrow> int64 \<Rightarrow> int64 \<Rightarrow> string" where
  "refund_reason amount newTotalRefunded original =
     ''Refund of '' @ show_int64 amount @ '' processed (total refunded: ''
       @ show_int64 newTotalRefunded @ ''/'' @ show_int64 original @ '')''"

definition refund_status :: "int64 \<Rightarrow> int64 \<Rightarrow> payment_status" where
  "refund_status newTotalRefunded original =
     (if original \<le>s newTotalRefunded then PaymentStatusRefunded else PaymentStatusPartiallyRefunded)"

definition refund_transition :: "env \<Rightarrow> payment_row \<Rightarrow> int64 \<Rightarrow> state_transition" where
  "refund_transition env p amount =
     (let newTotalRefunded = pay_total_refunded p + amount in
      \<lparr>tr_ID = e_uuid env 0, tr_PaymentID = pay_id p, tr_FromStatus = Some (pay_status p),
       tr_ToStatus = refund_status newTotalRefunded (pay_amount p),
       tr_Reason = refund_reason amount newTotalRefunded (pay_amount p),
       tr_TriggeredBy = ''api'', tr_CreatedAt = e_now env 0\<rparr>)"

definition refund_writes :: "env \<Rightarrow> payment_row \<Rightarrow> int64 \<Rightarrow> unit tx" where
  "refund_writes env p amount =
     (let newTotalRefunded = pay_total_refunded p + amount in
      bindT (change_status (e_fault env 0) (Wrapped ''updating refund state'') (Wrapped ''recording refund transition'') (pay_id p)
              (\<lambda>r. r\<lparr>pay_status := refund_status newTotalRefunded (pay_amount p),
                     pay_total_refunded := newTotalRefunded, pay_updated_at := e_now env 0\<rparr>)
              (refund_transition env p amount)) (\<lambda>_.
      ctxT ''commit refund tx'' (callT (e_fault env 0) Commit)))"

definition RefundPayment ::
  "env \<Rightarrow> string \<Rightarrow> int64 \<Rightarrow> 'w sys \<Rightarrow> (err + payment_response) \<times> 'w sys" where
  "RefundPayment env pid amount s =
     (case lock_tx env pid (sdb s) of
        Inl e \<Rightarrow> (Inl e, s)
      | Inr ((p, pspID), d) \<Rightarrow>
          if pay_status p \<noteq> PaymentStatusCaptured \<and> pay_status p \<noteq> PaymentStatusPartiallyRefunded
          then (Inl (NotRefundable (pay_status p)), s)
          else let remaining = pay_amount p - pay_total_refunded p in
          if remaining <s amount
          then (Inl (RefundExceeds amount remaining (pay_amount p) (pay_total_refunded p)), s)
          else case GetAdapter (srouter s) (pay_psp p) of
            Inl e \<Rightarrow> (Inl e, s)
          | Inr adp \<Rightarrow>
            (case ad_RefundPayment adp pspID amount (world s) of
               (Inl e, w) \<Rightarrow> (Inl (Wrapped ''psp refund failed'' e), s\<lparr>world := w\<rparr>)
             | (Inr _, w) \<Rightarrow>
               (case refund_writes env p amount d of
                  Inl e \<Rightarrow> (Inl e, s\<lparr>world := w\<rparr>)
                | Inr (_, d') \<Rightarrow>
                    (GetPayment env 1 pid d',
                     PublishPaymentEvent (e_now env 1) pid (pay_status p)
                       (refund_status (pay_total_refunded p + amount) (pay_amount p)) ''api''
                       (s\<lparr>world := w, sdb := d'\<rparr>)))))"

definition CancelPayment :: "env \<Rightarrow> string \<Rightarrow> 'w sys \<Rightarrow> (err + payment_response) \<times> 'w sys" where
  "CancelPayment env pid s =
     (case GetPayment env 0 pid (sdb s) of
        Inl e \<Rightarrow> (Inl e, s)
      | Inr resp \<Rightarrow>
          let p = pr_Payment resp in
          if Status p \<noteq> PaymentStatusAuthorized then (Inl ErrNotAuthorized, s)
          else case GetAdapter (srouter s) (PSP p) of
            Inl e \<Rightarrow> (Inl e, s)
          | Inr adp \<Rightarrow>
            (case ad_CancelPayment adp (PSPPaymentID p) (world s) of
               (Some e, w) \<Rightarrow> (Inl (Wrapped ''psp cancel failed'' e), s\<lparr>world := w\<rparr>)
             | (None, w) \<Rightarrow>
               (case updatePaymentState env 1 pid (Status p) PaymentStatusCancelled (PSPPaymentID p)
                       ''Payment cancelled via API'' ''api'' (s\<lparr>world := w\<rparr>) of
                  (Inl e, s) \<Rightarrow> (Inl e, s)
                | (Inr _, s) \<Rightarrow> (GetPayment env 2 pid (sdb s), s))))"

section \<open>The operations implement the atomic steps\<close>

lemma PublishPaymentEvent_frame [simp]:
  "sdb (PublishPaymentEvent now pid from to trigger s) = sdb s"
  "world (PublishPaymentEvent now pid from to trigger s) = world s"
  "srouter (PublishPaymentEvent now pid from to trigger s) = srouter s"
  by (simp_all add: PublishPaymentEvent_def)

lemma create_tx_step:
  assumes "create_tx env req psp d = Inr (u, d')"
  shows "pay_step d d' \<and> payment_by_id d (e_uuid env 0) = None
    \<and> payment_by_id d' (e_uuid env 0) = Some (initial_row env req psp)"
proof -
  from assms obtain d1 where ins: "insert_payment (initial_row env req psp) d = Inr ((), d1)"
      "insert_transition (initial_transition env) d1 = Inr ((), d')"
    by (auto simp: create_tx_def Let_def result_simps)
  then have "pay_step d d'"
    by (rule pay_created) (simp_all add: initial_row_def initial_transition_def)
  with ins show ?thesis
    by (auto simp: tx_defs payment_by_id_def find_append initial_row_def split: if_splits option.splits)
qed

lemma status_update_row:
  assumes inv: "payments_inv d"
    and upd: "status_update_tx env k pid from to pspID reason trigger d = Inr (u, d')"
  obtains r where "payment_by_id d pid = Some r" "pay_status r = from"
    "d' = d\<lparr>payments := update_where (\<lambda>r. pay_id r = pid) (with_status to pspID (e_now env k)) (payments d),
          payment_state_transitions := payment_state_transitions d @
            [status_transition env k pid from to reason trigger]\<rparr>"
proof -
  let ?P = "\<lambda>r. pay_id r = pid \<and> pay_status r = from"
  from upd obtain d1 n where upd: "update_payments ?P (with_status to pspID (e_now env k)) d = Inr (n, d1)"
    and n: "n \<noteq> 0"
    and ins: "insert_transition (status_transition env k pid from to reason trigger) d1 = Inr ((), d')"
    by (auto simp: status_update_tx_def Let_def result_simps)
  from upd have rows: "n = rows_matching ?P (payments d)"
    and d1: "d1 = d\<lparr>payments := update_where ?P (with_status to pspID (e_now env k)) (payments d)\<rparr>"
    by (simp_all add: update_payments_def split: if_splits)
  from n rows obtain r where r: "r \<in> set (payments d)" "pay_id r = pid" "pay_status r = from"
    by (auto simp: rows_matching_def filter_empty_conv)
  from payment_by_id_eq [OF inv r(1)] r(2) have key: "payment_by_id d pid = Some r" by simp
  have "?P x = (pay_id x = pid)" if "x \<in> set (payments d)" for x
    using payment_by_id_eq [OF inv that] key r(3) by (metis option.inject)
  then have "update_where ?P g (payments d) = update_where (\<lambda>x. pay_id x = pid) g (payments d)" for g
    unfolding update_where_def by (intro map_cong refl if_cong) auto
  with d1 ins have d': "d' = d\<lparr>payments := update_where (\<lambda>r. pay_id r = pid)
              (with_status to pspID (e_now env k)) (payments d),
          payment_state_transitions := payment_state_transitions d @
            [status_transition env k pid from to reason trigger]\<rparr>"
    by (simp add: insert_transition_def split: if_splits)
  from that [OF key r(3) d'] show thesis .
qed

lemma status_update_step:
  assumes inv: "payments_inv d" and legal: "CanTransition from to"
    and upd: "status_update_tx env k pid from to pspID reason trigger d = Inr (u, d')"
  shows "pay_step d d'"
proof (rule status_update_row [OF inv upd])
  fix r
  assume r: "payment_by_id d pid = Some r" "pay_status r = from"
    and d': "d' = d\<lparr>payments := update_where (\<lambda>r. pay_id r = pid)
              (with_status to pspID (e_now env k)) (payments d),
          payment_state_transitions := payment_state_transitions d @
            [status_transition env k pid from to reason trigger]\<rparr>"
  from inv r(1) have "chk_refund_cap r" by (auto simp: payments_inv_def dest: payment_by_id_SomeD)
  with r legal have "legal_change r (with_status to pspID (e_now env k) r)"
    by (simp add: legal_change_def chk_refund_cap_def with_status_def)
  from pay_changed [OF r(1) this _ _ _ d'] r(2) show "pay_step d d'"
    by (simp add: status_transition_def with_status_def)
qed

lemma updatePaymentState_cases:
  "(\<exists>e. updatePaymentState env k pid from to pspID reason trigger s = (Inl e, s)) \<or>
   (\<exists>d'. CanTransition from to
      \<and> status_update_tx env k pid from to pspID reason trigger (sdb s) = Inr ((), d')
      \<and> updatePaymentState env k pid from to pspID reason trigger s =
          (Inr (), PublishPaymentEvent (e_now env k) pid from to trigger (s\<lparr>sdb := d'\<rparr>)))"
proof (cases "ValidateTransition from to")
  case None
  show ?thesis
  proof (cases "status_update_tx env k pid from to pspID reason trigger (sdb s)")
    case (Inl e)
    show ?thesis unfolding updatePaymentState_def None run_tx_def Inl by simp
  next
    case (Inr ud)
    then obtain d' where "status_update_tx env k pid from to pspID reason trigger (sdb s) = Inr ((), d')"
      by (cases ud) simp
    then show ?thesis unfolding updatePaymentState_def None run_tx_def CanTransition_def by simp
  qed
qed (simp add: updatePaymentState_def)

lemma updatePaymentState_steps:
  assumes "payments_inv (sdb s)"
  shows "pay_step\<^sup>*\<^sup>* (sdb s) (sdb (snd (updatePaymentState env k pid from to pspID reason trigger s)))"
  using updatePaymentState_cases [of env k pid "from" to pspID reason trigger s]
    status_update_step [OF assms] by auto

lemma lock_tx_Inr:
  "lock_tx env pid d = Inr ((p, pspID), d') \<Longrightarrow>
     d' = d \<and> payment_by_id d pid = Some p \<and> pay_id p = pid \<and> pay_psp_payment_id p = Some pspID"
  by (auto simp: lock_tx_def lock_payment_def at_site_def select_payment_def result_simps result_iffs
      scan_string_def dest: payment_by_id_SomeD split: option.splits sum.splits)

lemma capture_writes_step:
  assumes "capture_writes env pid d = Inr (u, d')" and "payment_by_id d pid = Some r"
    and "pay_status r = PaymentStatusAuthorized"
  shows "pay_step d d'"
proof -
  from assms(1) have "change_status (e_fault env 0) (Wrapped ''updating capture state'') (Wrapped ''recording capture transition'') pid
      (\<lambda>r. r\<lparr>pay_status := PaymentStatusCaptured, pay_updated_at := e_now env 0\<rparr>)
      (capture_transition env pid) d = Inr ((), d')"
    by (auto simp: capture_writes_def result_simps)
  from change_status_step [OF this assms(2)] assms(3) show ?thesis
    by (simp add: legal_change_def capture_transition_def)
qed

lemma refund_writes_step:
  assumes "refund_writes env r amount d = Inr (u, d')" and r: "payment_by_id d (pay_id r) = Some r"
    and "pay_status r = PaymentStatusCaptured \<or> pay_status r = PaymentStatusPartiallyRefunded"
  shows "pay_step d d'"
proof -
  from assms(1) have "change_status (e_fault env 0) (Wrapped ''updating refund state'') (Wrapped ''recording refund transition'') (pay_id r)
      (\<lambda>x. x\<lparr>pay_status := refund_status (pay_total_refunded r + amount) (pay_amount r),
            pay_total_refunded := pay_total_refunded r + amount, pay_updated_at := e_now env 0\<rparr>)
      (refund_transition env r amount) d = Inr ((), d')"
    by (auto simp: refund_writes_def Let_def result_simps)
  from change_status_step [OF this r] assms(3) show ?thesis
    by (auto simp: legal_change_def refund_transition_def refund_status_def is_refund_status_def Let_def)
qed

text \<open>Each operation ends in one of the ways listed; an error never writes the database.\<close>

lemma CapturePayment_outcome:
  "(\<exists>e w. CapturePayment env pid s = (Inl e, s\<lparr>world := w\<rparr>)) \<or>
   (\<exists>p pspID adp x w d'. lock_tx env pid (sdb s) = Inr ((p, pspID), sdb s)
      \<and> pay_status p = PaymentStatusAuthorized \<and> adapters (srouter s) (pay_psp p) = Some adp
      \<and> ad_CapturePayment adp pspID (pay_amount p) (pay_currency p) (world s) = (Inr x, w)
      \<and> capture_writes env pid (sdb s) = Inr ((), d')
      \<and> CapturePayment env pid s = (GetPayment env 1 pid d',
          PublishPaymentEvent (e_now env 1) pid PaymentStatusAuthorized PaymentStatusCaptured ''api''
            (s\<lparr>world := w, sdb := d'\<rparr>)))"
proof (cases "lock_tx env pid (sdb s)")
  case (Inl e)
  then have "CapturePayment env pid s = (Inl e, s\<lparr>world := world s\<rparr>)" by (simp add: CapturePayment_def)
  then show ?thesis by blast
next
  case (Inr pd)
  obtain p pspID d where pd: "pd = ((p, pspID), d)" by (metis prod.collapse)
  with Inr lock_tx_Inr have lock: "lock_tx env pid (sdb s) = Inr ((p, pspID), sdb s)" by metis
  show ?thesis
  proof (cases "pay_status p = PaymentStatusAuthorized \<and> adapters (srouter s) (pay_psp p) \<noteq> None")
    case False
    then have "\<exists>e. CapturePayment env pid s = (Inl e, s\<lparr>world := world s\<rparr>)"
      by (cases "pay_status p = PaymentStatusAuthorized")
        (simp_all add: CapturePayment_def lock GetAdapter_def)
    then show ?thesis by blast
  next
    case True
    then obtain adp where adp: "adapters (srouter s) (pay_psp p) = Some adp" by auto
    obtain r w where call: "ad_CapturePayment adp pspID (pay_amount p) (pay_currency p) (world s) = (r, w)"
      by (metis prod.collapse)
    consider e where "r = Inl e" | x e where "r = Inr x" "capture_writes env pid (sdb s) = Inl e"
      | x d' where "r = Inr x" "capture_writes env pid (sdb s) = Inr ((), d')"
      by (cases r; cases "capture_writes env pid (sdb s)") auto
    then show ?thesis
    proof cases
      case 3
      with True adp call lock show ?thesis by (simp add: CapturePayment_def GetAdapter_def)
    qed (use True adp call in \<open>auto simp: CapturePayment_def lock GetAdapter_def\<close>)
  qed
qed

lemma RefundPayment_outcome:
  "(\<exists>e w. RefundPayment env pid amount s = (Inl e, s\<lparr>world := w\<rparr>)) \<or>
   (\<exists>p pspID adp x w d'. lock_tx env pid (sdb s) = Inr ((p, pspID), sdb s)
      \<and> (pay_status p = PaymentStatusCaptured \<or> pay_status p = PaymentStatusPartiallyRefunded)
      \<and> amount \<le>s pay_amount p - pay_total_refunded p
      \<and> adapters (srouter s) (pay_psp p) = Some adp
      \<and> ad_RefundPayment adp pspID amount (world s) = (Inr x, w)
      \<and> refund_writes env p amount (sdb s) = Inr ((), d')
      \<and> RefundPayment env pid amount s = (GetPayment env 1 pid d',
          PublishPaymentEvent (e_now env 1) pid (pay_status p)
            (refund_status (pay_total_refunded p + amount) (pay_amount p)) ''api''
            (s\<lparr>world := w, sdb := d'\<rparr>)))"
proof (cases "lock_tx env pid (sdb s)")
  case (Inl e)
  then have "RefundPayment env pid amount s = (Inl e, s\<lparr>world := world s\<rparr>)" by (simp add: RefundPayment_def)
  then show ?thesis by blast
next
  case (Inr pd)
  obtain p pspID d where pd: "pd = ((p, pspID), d)" by (metis prod.collapse)
  with Inr lock_tx_Inr have lock: "lock_tx env pid (sdb s) = Inr ((p, pspID), sdb s)" by metis
  show ?thesis
  proof (cases "(pay_status p = PaymentStatusCaptured \<or> pay_status p = PaymentStatusPartiallyRefunded)
      \<and> \<not> pay_amount p - pay_total_refunded p <s amount \<and> adapters (srouter s) (pay_psp p) \<noteq> None")
    case False
    then have "\<exists>e. RefundPayment env pid amount s = (Inl e, s\<lparr>world := world s\<rparr>)"
      by (cases "pay_status p = PaymentStatusCaptured \<or> pay_status p = PaymentStatusPartiallyRefunded";
          cases "pay_amount p - pay_total_refunded p <s amount")
        (simp_all add: RefundPayment_def lock GetAdapter_def)
    then show ?thesis by blast
  next
    case True
    then obtain adp where adp: "adapters (srouter s) (pay_psp p) = Some adp" by auto
    from True have le: "amount \<le>s pay_amount p - pay_total_refunded p" by (simp add: int64_order)
    obtain r w where call: "ad_RefundPayment adp pspID amount (world s) = (r, w)"
      by (metis prod.collapse)
    consider e where "r = Inl e" | x e where "r = Inr x" "refund_writes env p amount (sdb s) = Inl e"
      | x d' where "r = Inr x" "refund_writes env p amount (sdb s) = Inr ((), d')"
      by (cases r; cases "refund_writes env p amount (sdb s)") auto
    then show ?thesis
    proof cases
      case 3
      with True adp call lock le show ?thesis by (auto simp: RefundPayment_def GetAdapter_def Let_def)
    qed (use True adp call in \<open>auto simp: RefundPayment_def lock GetAdapter_def Let_def\<close>)
  qed
qed

lemma CreatePayment_outcome:
  "(\<exists>e rt. CreatePayment env req s = (Inl e, s\<lparr>srouter := rt\<rparr>)) \<or>
   (\<exists>dec adp rt d1 res w u s2.
        Route (e_now env 0) (e_order env) req (srouter s) = (Inr (dec, adp), rt)
      \<and> create_tx env req (rd_SelectedPSP dec) (sdb s) = Inr ((), d1)
      \<and> Do retry_DefaultConfig ''psp_create_payment'' (e_cancel env)
          (ad_CreatePayment adp (psp_request req)) (world s) = (res, w)
      \<and> final_update env res (s\<lparr>sdb := d1, world := w,
          srouter := record_outcome env (rd_SelectedPSP dec) res rt\<rparr>) = (u, s2)
      \<and> CreatePayment env req s =
          (case u of
             Inl e \<Rightarrow> (Inl (Wrapped ''updating final state'' e), s2)
           | Inr _ \<Rightarrow> (case res of
               Inl e \<Rightarrow> (Inl (Wrapped ''psp failed'' e), s2)
             | Inr _ \<Rightarrow> (GetPayment env 2 (e_uuid env 0) (sdb s2), s2))))"
proof -
  obtain r rt where route: "Route (e_now env 0) (e_order env) req (srouter s) = (r, rt)"
    by (metis prod.collapse)
  show ?thesis
  proof (cases r)
    case (Inl e)
    with route show ?thesis by (auto simp: CreatePayment_def)
  next
    case (Inr da)
    obtain dec adp where da: "da = (dec, adp)" by (metis prod.collapse)
    show ?thesis
    proof (cases "create_tx env req (rd_SelectedPSP dec) (sdb s)")
      case (Inl e)
      with route Inr da have "CreatePayment env req s = (Inl e, s\<lparr>srouter := rt\<rparr>)"
        by (simp add: CreatePayment_def run_tx_def)
      then show ?thesis by blast
    next
      case tx: (Inr ud)
      obtain d1 where ud: "ud = ((), d1)" by (metis old.unit.exhaust prod.collapse)
      obtain res w where res: "Do retry_DefaultConfig ''psp_create_payment'' (e_cancel env)
          (ad_CreatePayment adp (psp_request req)) (world s) = (res, w)" by (metis prod.collapse)
      obtain u s2 where fin: "final_update env res (s\<lparr>sdb := d1, world := w,
          srouter := record_outcome env (rd_SelectedPSP dec) res rt\<rparr>) = (u, s2)" by (metis prod.collapse)
      from route Inr da tx ud res fin have "CreatePayment env req s =
          (case u of
             Inl e \<Rightarrow> (Inl (Wrapped ''updating final state'' e), s2)
           | Inr _ \<Rightarrow> (case res of
               Inl e \<Rightarrow> (Inl (Wrapped ''psp failed'' e), s2)
             | Inr _ \<Rightarrow> (GetPayment env 2 (e_uuid env 0) (sdb s2), s2)))"
        by (cases u) (simp_all add: CreatePayment_def run_tx_def)
      with route Inr da tx ud res fin show ?thesis by blast
    qed
  qed
qed

lemma final_update_steps:
  assumes "payments_inv (sdb s)" and "final_update env res s = (u, s2)"
  shows "pay_step\<^sup>*\<^sup>* (sdb s) (sdb s2) \<and> world s2 = world s \<and> srouter s2 = srouter s"
proof -
  note steps = updatePaymentState_steps [OF assms(1)]
  have frame: "updatePaymentState env k pid from to pspID reason trigger s = (u', s') \<Longrightarrow>
      world s' = world s \<and> srouter s' = srouter s" for k pid "from" to pspID reason trigger u' s'
    using updatePaymentState_cases [of env k pid "from" to pspID reason trigger s] by auto
  from assms(2) show ?thesis
    using steps frame unfolding final_update_def by (cases res) (auto, (metis snd_conv)+)
qed

lemma CreatePayment_steps:
  assumes inv: "payments_inv (sdb s)"
  shows "pay_step\<^sup>*\<^sup>* (sdb s) (sdb (snd (CreatePayment env req s)))"
  using CreatePayment_outcome [of env req s]
proof (elim disjE exE conjE)
  fix dec adp rt d1 res w u s2
  assume tx: "create_tx env req (rd_SelectedPSP dec) (sdb s) = Inr ((), d1)"
    and fin: "final_update env res (s\<lparr>sdb := d1, world := w,
          srouter := record_outcome env (rd_SelectedPSP dec) res rt\<rparr>) = (u, s2)"
    and res: "CreatePayment env req s =
          (case u of
             Inl e \<Rightarrow> (Inl (Wrapped ''updating final state'' e), s2)
           | Inr _ \<Rightarrow> (case res of
               Inl e \<Rightarrow> (Inl (Wrapped ''psp failed'' e), s2)
             | Inr _ \<Rightarrow> (GetPayment env 2 (e_uuid env 0) (sdb s2), s2)))"
  from create_tx_step [OF tx] have step: "pay_step (sdb s) d1" by simp
  with final_update_steps [OF _ fin] pay_step_inv [OF step inv] have "pay_step\<^sup>*\<^sup>* (sdb s) (sdb s2)"
    by (auto intro: converse_rtranclp_into_rtranclp)
  with res show ?thesis by (cases u; cases res) simp_all
qed auto

lemma CancelPayment_steps:
  assumes inv: "payments_inv (sdb s)"
  shows "pay_step\<^sup>*\<^sup>* (sdb s) (sdb (snd (CancelPayment env pid s)))"
proof -
  have upd: "pay_step\<^sup>*\<^sup>* (sdb s) (sdb s2)"
    if "updatePaymentState env 1 pid st PaymentStatusCancelled pspID why ''api'' (s\<lparr>world := w\<rparr>) = (u, s2)"
    for st pspID why w u s2
    using updatePaymentState_steps [of "s\<lparr>world := w\<rparr>" env 1 pid st PaymentStatusCancelled pspID why "''api''"]
      inv that by simp
  then show ?thesis
    by (auto simp: CancelPayment_def Let_def split: sum.split prod.split option.split)
qed

section \<open>Runs of the API\<close>

datatype payment_call =
    CallCreate env create_payment_request
  | CallGet env string
  | CallCapture env string
  | CallRefund env string int64
  | CallCancel env string

fun payment_api :: "'w sys \<Rightarrow> payment_call \<Rightarrow> 'w sys" where
  "payment_api s (CallCreate env req) = snd (CreatePayment env req s)"
| "payment_api s (CallGet env pid) = s"
| "payment_api s (CallCapture env pid) = snd (CapturePayment env pid s)"
| "payment_api s (CallRefund env pid amount) = snd (RefundPayment env pid amount s)"
| "payment_api s (CallCancel env pid) = snd (CancelPayment env pid s)"

lemma CapturePayment_steps:
  "pay_step\<^sup>*\<^sup>* (sdb s) (sdb (snd (CapturePayment env pid s)))"
  using CapturePayment_outcome [of env pid s]
  by (auto dest!: lock_tx_Inr intro: r_into_rtranclp [of pay_step, OF capture_writes_step])

lemma RefundPayment_steps:
  "pay_step\<^sup>*\<^sup>* (sdb s) (sdb (snd (RefundPayment env pid amount s)))"
  using RefundPayment_outcome [of env pid amount s]
  by (auto dest!: lock_tx_Inr intro: r_into_rtranclp [of pay_step, OF refund_writes_step])

lemma payment_api_steps:
  "payments_inv (sdb s) \<Longrightarrow> pay_step\<^sup>*\<^sup>* (sdb s) (sdb (payment_api s c))"
  by (cases c) (simp_all add: CreatePayment_steps CapturePayment_steps RefundPayment_steps CancelPayment_steps)

interpretation payment_machine: machine payment_api "\<lambda>s. payments_inv (sdb s)"
  by unfold_locales (blast intro: pay_steps_inv payment_api_steps)

lemma payment_run_steps:
  "payments_inv (sdb s) \<Longrightarrow> pay_step\<^sup>*\<^sup>* (sdb s) (sdb (foldl payment_api s cs))"
proof (induction cs arbitrary: s)
  case Nil
  then show ?case by simp
next
  case (Cons c cs)
  have "payments_inv (sdb (payment_api s c))" by (rule payment_machine.inv_step [OF Cons.prems])
  from rtranclp_trans [OF payment_api_steps [OF Cons.prems] Cons.IH [OF this]] show ?case by simp
qed

text \<open>
  Whatever sequence of payment calls the service executes on a fresh database, with whatever
  provider answers and database failures, every payment keeps a complete and legal audit trail:
  its rows replay, from creation on, along the transition table to the status the payment has. The
  refunded total stays between zero and the payment's amount and is non-zero only in a refund
  status, and payment identifiers stay unique.
\<close>

theorem payment_api_audit_trail:
  "let d = sdb (foldl payment_api (s\<lparr>sdb := migrated_db\<rparr>) calls)
   in distinct (map pay_id (payments d)) \<and> list_all (\<lambda>r.
      replay (trail d (pay_id r)) = Some (pay_status r)
      \<and> 0 \<le> sint (pay_total_refunded r) \<and> sint (pay_total_refunded r) \<le> sint (pay_amount r)
      \<and> (pay_total_refunded r = 0 \<or> is_refund_status (pay_status r))) (payments d)"
proof -
  have "payments_inv (sdb (foldl payment_api (s\<lparr>sdb := migrated_db\<rparr>) calls))"
    by (rule payment_machine.run_keeps_inv) (simp add: payments_inv_migrated)
  then show ?thesis
    by (auto simp: payments_inv_def chk_refund_cap_def int64_order list_all_iff Let_def)
qed

text \<open>
  A payment that reached a terminal status (failed, cancelled, refunded) is frozen: no sequence
  of calls changes any column of its row.
\<close>

theorem terminal_payment_frozen:
  assumes "payments_inv (sdb s)" and "payment_by_id (sdb s) pid = Some r" and "IsTerminal (pay_status r)"
  shows "payment_by_id (sdb (foldl payment_api s calls)) pid = Some r"
proof -
  have "validTransitions (pay_status r) = None" using assms(3) by (cases "pay_status r") simp_all
  with pay_steps_terminal [OF payment_run_steps [OF assms(1)] assms(1,2)] show ?thesis .
qed

section \<open>What each operation does\<close>

lemma capture_writes_db:
  assumes "capture_writes env pid d = Inr (u, d')"
  shows "d' = d\<lparr>payments := update_where (\<lambda>r. pay_id r = pid)
            (\<lambda>r. r\<lparr>pay_status := PaymentStatusCaptured, pay_updated_at := e_now env 0\<rparr>) (payments d),
          payment_state_transitions := payment_state_transitions d @ [capture_transition env pid]\<rparr>"
  using assms by (auto simp: capture_writes_def result_simps dest!: change_status_Inr)

lemma refund_writes_db:
  assumes "refund_writes env p amount d = Inr (u, d')"
  shows "d' = d\<lparr>payments := update_where (\<lambda>r. pay_id r = pay_id p)
            (\<lambda>r. r\<lparr>pay_status := refund_status (pay_total_refunded p + amount) (pay_amount p),
                   pay_total_refunded := pay_total_refunded p + amount,
                   pay_updated_at := e_now env 0\<rparr>) (payments d),
          payment_state_transitions := payment_state_transitions d @ [refund_transition env p amount]\<rparr>
    \<and> (\<forall>r \<in> set (payments d). pay_id r = pay_id p \<longrightarrow>
        0 \<le>s pay_total_refunded p + amount \<and> pay_total_refunded p + amount \<le>s pay_amount r)"
  using assms
  by (auto simp: refund_writes_def Let_def result_simps chk_refund_cap_def dest!: change_status_Inr)

lemma GetPayment_row:
  "GetPayment env k pid d = Inr resp \<Longrightarrow>
     \<exists>r pspID. payment_by_id d pid = Some r \<and> pay_psp_payment_id r = Some pspID
       \<and> pr_Payment resp = payment_of_row r pspID
       \<and> pr_StateTransitions resp = sort_key tr_CreatedAt (trail d pid)"
  by (auto simp: GetPayment_def Let_def result_iffs at_site_def select_payment_def scan_string_def
      split: sum.splits option.splits)

text \<open>
  C17: A capture call either leaves every table as it was, or it moves exactly one payment, which was
  authorized, to captured, together with its audit row and nothing else; a successful answer
  shows the payment captured. The only error after the change is a failed read of the answer.
\<close>

theorem CapturePayment_effect:
  "case CapturePayment env pid s of (res, s') \<Rightarrow>
     (sdb s' = sdb s \<and> isInl res)
   \<or> (\<exists>p. payment_by_id (sdb s) pid = Some p \<and> pay_status p = PaymentStatusAuthorized
        \<and> (\<forall>q. payment_by_id (sdb s') q =
             (if q = pid then Some (p\<lparr>pay_status := PaymentStatusCaptured, pay_updated_at := e_now env 0\<rparr>)
              else payment_by_id (sdb s) q))
        \<and> trail (sdb s') pid = trail (sdb s) pid @ [capture_transition env pid]
        \<and> (case res of
             Inl e \<Rightarrow> GetPayment env 1 pid (sdb s') = Inl e
           | Inr resp \<Rightarrow> Status (pr_Payment resp) = PaymentStatusCaptured
               \<and> Amount (pr_Payment resp) = pay_amount p))"
  using CapturePayment_outcome [of env pid s]
proof (elim disjE exE conjE)
  fix p pspID adp x w d'
  assume lock: "lock_tx env pid (sdb s) = Inr ((p, pspID), sdb s)"
    and st: "pay_status p = PaymentStatusAuthorized"
    and wr: "capture_writes env pid (sdb s) = Inr ((), d')"
    and res: "CapturePayment env pid s = (GetPayment env 1 pid d',
          PublishPaymentEvent (e_now env 1) pid PaymentStatusAuthorized PaymentStatusCaptured ''api''
            (s\<lparr>world := w, sdb := d'\<rparr>))"
  from lock_tx_Inr [OF lock] have p: "payment_by_id (sdb s) pid = Some p" by simp
  from capture_writes_db [OF wr] p
  have rows: "payment_by_id d' q =
      (if q = pid then Some (p\<lparr>pay_status := PaymentStatusCaptured, pay_updated_at := e_now env 0\<rparr>)
       else payment_by_id (sdb s) q)" for q
    by (simp add: payment_by_id_update)
  from capture_writes_db [OF wr] have "trail d' pid = trail (sdb s) pid @ [capture_transition env pid]"
    by (simp add: trail_append capture_transition_def)
  with p st rows res show ?thesis
    by (auto split: sum.split dest!: GetPayment_row simp: payment_of_row_def)
qed auto

lemma refund_fits:
  assumes inv: "payments_inv d" and p: "payment_by_id d pid = Some p"
    and le: "amount \<le>s pay_amount p - pay_total_refunded p"
  shows "sint (pay_total_refunded p + amount) = sint (pay_total_refunded p) + sint amount
    \<and> sint (pay_total_refunded p) + sint amount \<le> sint (pay_amount p)"
proof -
  from inv p have cap: "0 \<le> sint (pay_total_refunded p)" "sint (pay_total_refunded p) \<le> sint (pay_amount p)"
    by (auto simp: payments_inv_def chk_refund_cap_def int64_order dest: payment_by_id_SomeD)
  then have "sint (pay_amount p - pay_total_refunded p) = sint (pay_amount p) - sint (pay_total_refunded p)"
    by (intro sint64_diff_nonneg) linarith+
  with le have fits: "sint (pay_total_refunded p) + sint amount \<le> sint (pay_amount p)"
    by (simp add: int64_order)
  with cap show ?thesis by (simp add: sint64_add_upto)
qed

lemma refund_writes_row:
  assumes inv: "payments_inv d" and p: "payment_by_id d pid = Some p" and pid: "pay_id p = pid"
    and le: "amount \<le>s pay_amount p - pay_total_refunded p" and wr: "refund_writes env p amount d = Inr ((), d')"
  obtains p' where "\<forall>q. payment_by_id d' q = (if q = pid then Some p' else payment_by_id d q)"
    "sint (pay_total_refunded p') = sint (pay_total_refunded p) + sint amount" "sint (pay_total_refunded p') \<le> sint (pay_amount p)"
    "pay_amount p' = pay_amount p"
    "pay_status p' = (if sint (pay_total_refunded p') = sint (pay_amount p)
                      then PaymentStatusRefunded else PaymentStatusPartiallyRefunded)"
    "trail d' pid = trail d pid @ [refund_transition env p amount]"
proof -
  from refund_fits [OF inv p le]
  have total: "sint (pay_total_refunded p + amount) = sint (pay_total_refunded p) + sint amount"
    and fits: "sint (pay_total_refunded p) + sint amount \<le> sint (pay_amount p)" by simp_all
  define p' where "p' = p\<lparr>pay_status := refund_status (pay_total_refunded p + amount) (pay_amount p),
      pay_total_refunded := pay_total_refunded p + amount, pay_updated_at := e_now env 0\<rparr>"
  from refund_writes_db [OF wr] p pid
  have rows: "payment_by_id d' q = (if q = pid then Some p' else payment_by_id d q)" for q
    by (simp add: payment_by_id_update p'_def)
  from refund_writes_db [OF wr] pid have "trail d' pid = trail d pid @ [refund_transition env p amount]"
    by (simp add: trail_append refund_transition_def Let_def)
  moreover have "pay_status p' = (if sint (pay_total_refunded p') = sint (pay_amount p)
      then PaymentStatusRefunded else PaymentStatusPartiallyRefunded)"
    using total fits by (auto simp: p'_def refund_status_def int64_order)
  moreover have "sint (pay_total_refunded p') = sint (pay_total_refunded p) + sint amount" and "pay_amount p' = pay_amount p"
    using total by (simp_all add: p'_def)
  ultimately show thesis using fits rows by (intro that [of p']) simp_all
qed

text \<open>
  C16: A refund call either leaves every table as it was, or it raises the refunded total of exactly
  one captured or partly refunded payment by exactly the requested amount, without overflow and
  never beyond the payment's amount; the payment becomes refunded exactly when nothing is left.
\<close>

theorem RefundPayment_effect:
  assumes "payments_inv (sdb s)"
  shows "case RefundPayment env pid amount s of (res, s') \<Rightarrow>
     (sdb s' = sdb s \<and> isInl res)
   \<or> (\<exists>p p'. payment_by_id (sdb s) pid = Some p
        \<and> (pay_status p = PaymentStatusCaptured \<or> pay_status p = PaymentStatusPartiallyRefunded)
        \<and> (\<forall>q. payment_by_id (sdb s') q = (if q = pid then Some p' else payment_by_id (sdb s) q))
        \<and> sint (pay_total_refunded p') = sint (pay_total_refunded p) + sint amount
        \<and> sint (pay_total_refunded p') \<le> sint (pay_amount p) \<and> pay_amount p' = pay_amount p
        \<and> pay_status p' = (if sint (pay_total_refunded p') = sint (pay_amount p)
                           then PaymentStatusRefunded else PaymentStatusPartiallyRefunded)
        \<and> trail (sdb s') pid = trail (sdb s) pid @ [refund_transition env p amount])"
  using RefundPayment_outcome [of env pid amount s]
proof (rule disjE)
  assume "\<exists>p pspID adp x w d'. lock_tx env pid (sdb s) = Inr ((p, pspID), sdb s)
      \<and> (pay_status p = PaymentStatusCaptured \<or> pay_status p = PaymentStatusPartiallyRefunded)
      \<and> amount \<le>s pay_amount p - pay_total_refunded p
      \<and> adapters (srouter s) (pay_psp p) = Some adp
      \<and> ad_RefundPayment adp pspID amount (world s) = (Inr x, w)
      \<and> refund_writes env p amount (sdb s) = Inr ((), d')
      \<and> RefundPayment env pid amount s = (GetPayment env 1 pid d',
          PublishPaymentEvent (e_now env 1) pid (pay_status p)
            (refund_status (pay_total_refunded p + amount) (pay_amount p)) ''api''
            (s\<lparr>world := w, sdb := d'\<rparr>))"
  then obtain p pspID w d' where lock: "lock_tx env pid (sdb s) = Inr ((p, pspID), sdb s)"
    and st: "pay_status p = PaymentStatusCaptured \<or> pay_status p = PaymentStatusPartiallyRefunded"
    and le: "amount \<le>s pay_amount p - pay_total_refunded p"
    and wr: "refund_writes env p amount (sdb s) = Inr ((), d')"
    and res: "RefundPayment env pid amount s = (GetPayment env 1 pid d',
          PublishPaymentEvent (e_now env 1) pid (pay_status p)
            (refund_status (pay_total_refunded p + amount) (pay_amount p)) ''api''
            (s\<lparr>world := w, sdb := d'\<rparr>))" by blast
  from lock_tx_Inr [OF lock] have p: "payment_by_id (sdb s) pid = Some p" and pid: "pay_id p = pid"
    by simp_all
  from refund_writes_row [OF assms p pid le wr] obtain p' where
    "\<forall>q. payment_by_id d' q = (if q = pid then Some p' else payment_by_id (sdb s) q)"
    "sint (pay_total_refunded p') = sint (pay_total_refunded p) + sint amount" "sint (pay_total_refunded p') \<le> sint (pay_amount p)"
    "pay_amount p' = pay_amount p"
    "pay_status p' = (if sint (pay_total_refunded p') = sint (pay_amount p)
                      then PaymentStatusRefunded else PaymentStatusPartiallyRefunded)"
    "trail d' pid = trail (sdb s) pid @ [refund_transition env p amount]" .
  then show ?thesis
    unfolding res prod.case using p st by (intro disjI2 exI [of _ p] exI [of _ p']) simp
qed auto

text \<open>
  C18: A call that the payment's state forbids changes nothing at all: no provider is called, no row
  and no breaker changes, no event is published. Forbidden are capturing or cancelling a payment
  that is not authorized, and refunding one that was not captured or by more than what remains.
\<close>

theorem forbidden_calls_change_nothing:
  assumes "payment_by_id (sdb s) pid = Some p"
  shows "(pay_status p \<noteq> PaymentStatusAuthorized \<longrightarrow>
            isInl (fst (CapturePayment env pid s)) \<and> snd (CapturePayment env pid s) = s
          \<and> isInl (fst (CancelPayment env pid s)) \<and> snd (CancelPayment env pid s) = s)
    \<and> ((pay_status p \<noteq> PaymentStatusCaptured \<and> pay_status p \<noteq> PaymentStatusPartiallyRefunded
          \<or> pay_amount p - pay_total_refunded p <s amount) \<longrightarrow>
            isInl (fst (RefundPayment env pid amount s)) \<and> snd (RefundPayment env pid amount s) = s)"
proof -
  have lock: "lock_tx env pid (sdb s) = Inr ((q, pspID), d) \<Longrightarrow> q = p" for q pspID d
    using assms by (auto dest: lock_tx_Inr)
  have get: "GetPayment env 0 pid (sdb s) = Inr resp \<Longrightarrow> Status (pr_Payment resp) = pay_status p" for resp
    using assms by (auto dest!: GetPayment_row simp: payment_of_row_def)
  have cap: "pay_status p \<noteq> PaymentStatusAuthorized \<Longrightarrow> \<exists>e. CapturePayment env pid s = (Inl e, s)"
    using lock by (cases "lock_tx env pid (sdb s)") (auto simp: CapturePayment_def)
  have can: "pay_status p \<noteq> PaymentStatusAuthorized \<Longrightarrow> \<exists>e. CancelPayment env pid s = (Inl e, s)"
    using get by (cases "GetPayment env 0 pid (sdb s)") (auto simp: CancelPayment_def Let_def)
  have ref: "pay_status p \<noteq> PaymentStatusCaptured \<and> pay_status p \<noteq> PaymentStatusPartiallyRefunded
      \<or> pay_amount p - pay_total_refunded p <s amount \<Longrightarrow> \<exists>e. RefundPayment env pid amount s = (Inl e, s)"
    using lock by (cases "lock_tx env pid (sdb s)") (auto simp: RefundPayment_def Let_def)
  show ?thesis using cap can ref by fastforce
qed

section \<open>Refunds over a whole run\<close>

definition total_of :: "db \<Rightarrow> string \<Rightarrow> int" where
  "total_of d pid = (case payment_by_id d pid of None \<Rightarrow> 0 | Some r \<Rightarrow> sint (pay_total_refunded r))"

definition amount_of :: "db \<Rightarrow> string \<Rightarrow> int" where
  "amount_of d pid = (case payment_by_id d pid of None \<Rightarrow> 0 | Some r \<Rightarrow> sint (pay_amount r))"

text \<open>The refunds of one payment that a run of calls carried out: those that changed a table.\<close>

fun refunded_by :: "string \<Rightarrow> 'w sys \<Rightarrow> payment_call list \<Rightarrow> int" where
  "refunded_by pid s [] = 0"
| "refunded_by pid s (c # cs) =
     (case c of
        CallRefund env q amount \<Rightarrow> if q = pid \<and> sdb (payment_api s c) \<noteq> sdb s then sint amount else 0
      | _ \<Rightarrow> 0) + refunded_by pid (payment_api s c) cs"

lemma status_update_total:
  assumes "payments_inv d" and "status_update_tx env k q from to pspID reason trigger d = Inr (u, d')"
  shows "total_of d' pid = total_of d pid"
proof (rule status_update_row [OF assms])
  fix r
  assume "d' = d\<lparr>payments := update_where (\<lambda>r. pay_id r = q) (with_status to pspID (e_now env k)) (payments d),
      payment_state_transitions := payment_state_transitions d @ [status_transition env k q from to reason trigger]\<rparr>"
  then have "payment_by_id d' pid =
      (if pid = q then map_option (with_status to pspID (e_now env k)) (payment_by_id d pid) else payment_by_id d pid)"
    by (simp add: payment_by_id_update with_status_def)
  then show ?thesis by (simp add: total_of_def with_status_def split: option.split)
qed

lemma updatePaymentState_total:
  assumes "payments_inv (sdb s)"
    and "updatePaymentState env k q from to pspID reason trigger s = (u, s')"
  shows "total_of (sdb s') pid = total_of (sdb s) pid"
  using updatePaymentState_cases [of env k q "from" to pspID reason trigger s] assms(2)
    status_update_total [OF assms(1)] by auto

lemma CreatePayment_total:
  assumes inv: "payments_inv (sdb s)"
  shows "total_of (sdb (snd (CreatePayment env req s))) pid = total_of (sdb s) pid"
  using CreatePayment_outcome [of env req s]
proof (elim disjE exE conjE)
  fix dec adp rt d1 res w u s2
  assume tx: "create_tx env req (rd_SelectedPSP dec) (sdb s) = Inr ((), d1)"
    and fin: "final_update env res (s\<lparr>sdb := d1, world := w,
          srouter := record_outcome env (rd_SelectedPSP dec) res rt\<rparr>) = (u, s2)"
    and res: "CreatePayment env req s =
          (case u of
             Inl e \<Rightarrow> (Inl (Wrapped ''updating final state'' e), s2)
           | Inr _ \<Rightarrow> (case res of
               Inl e \<Rightarrow> (Inl (Wrapped ''psp failed'' e), s2)
             | Inr _ \<Rightarrow> (GetPayment env 2 (e_uuid env 0) (sdb s2), s2)))"
  from create_tx_step [OF tx] pay_step_inv inv have inv1: "payments_inv d1" by blast
  from tx have "payments d1 = payments (sdb s) @ [initial_row env req (rd_SelectedPSP dec)]"
    by (auto simp: create_tx_def Let_def result_simps tx_defs split: if_splits)
  then have "total_of d1 pid = total_of (sdb s) pid"
    by (simp add: total_of_def payment_by_id_def find_append initial_row_def split: option.split)
  moreover from fin inv1 have "total_of (sdb s2) pid = total_of d1 pid"
    unfolding final_update_def
    by (cases res) (auto dest!: updatePaymentState_total [where pid = pid, rotated])
  moreover have "sdb (snd (CreatePayment env req s)) = sdb s2"
    unfolding res by (cases u; cases res) simp_all
  ultimately show ?thesis by simp
qed auto

lemma CancelPayment_total:
  assumes inv: "payments_inv (sdb s)"
  shows "total_of (sdb (snd (CancelPayment env q s))) pid = total_of (sdb s) pid"
proof -
  have upd: "total_of (sdb s2) pid = total_of (sdb s) pid"
    if "updatePaymentState env 1 q st PaymentStatusCancelled pspID rsn ''api'' (s\<lparr>world := w\<rparr>) = (u, s2)"
    for st pspID rsn w u s2
    using updatePaymentState_total [OF _ that, of pid] inv by simp
  then show ?thesis
    by (auto simp: CancelPayment_def Let_def split: sum.split prod.split option.split)
qed

lemma CapturePayment_total: "total_of (sdb (snd (CapturePayment env q s))) pid = total_of (sdb s) pid"
  using CapturePayment_outcome [of env q s]
proof (elim disjE exE conjE)
  fix p pspID adp x w d'
  assume wr: "capture_writes env q (sdb s) = Inr ((), d')"
    and res: "CapturePayment env q s = (GetPayment env 1 q d',
          PublishPaymentEvent (e_now env 1) q PaymentStatusAuthorized PaymentStatusCaptured ''api''
            (s\<lparr>world := w, sdb := d'\<rparr>))"
  from capture_writes_db [OF wr] have "payment_by_id d' pid =
      (if pid = q then map_option (\<lambda>r. r\<lparr>pay_status := PaymentStatusCaptured, pay_updated_at := e_now env 0\<rparr>)
        (payment_by_id (sdb s) pid) else payment_by_id (sdb s) pid)"
    by (simp add: payment_by_id_update)
  with res show ?thesis by (simp add: total_of_def split: option.split)
qed auto

lemma RefundPayment_total:
  assumes inv: "payments_inv (sdb s)"
  shows "total_of (sdb (snd (RefundPayment env q amount s))) pid = total_of (sdb s) pid +
    (if q = pid \<and> sdb (snd (RefundPayment env q amount s)) \<noteq> sdb s then sint amount else 0)"
proof (cases "sdb (snd (RefundPayment env q amount s)) = sdb s")
  case False
  with RefundPayment_outcome [of env q amount s] obtain p pspID d' where
    lock: "lock_tx env q (sdb s) = Inr ((p, pspID), sdb s)"
    and le: "amount \<le>s pay_amount p - pay_total_refunded p"
    and wr: "refund_writes env p amount (sdb s) = Inr ((), d')"
    and res: "sdb (snd (RefundPayment env q amount s)) = d'" by force
  from lock_tx_Inr [OF lock] have p: "payment_by_id (sdb s) q = Some p" "pay_id p = q" by simp_all
  from refund_writes_db [OF wr] p have "payment_by_id d' pid =
      (if pid = q then Some (p\<lparr>pay_status := refund_status (pay_total_refunded p + amount) (pay_amount p),
          pay_total_refunded := pay_total_refunded p + amount, pay_updated_at := e_now env 0\<rparr>)
       else payment_by_id (sdb s) pid)"
    by (simp add: payment_by_id_update)
  with refund_fits [OF inv p(1) le] p False res show ?thesis by (cases "q = pid") (simp_all add: total_of_def)
qed simp

lemma refunded_by_total:
  "payments_inv (sdb s) \<Longrightarrow>
     total_of (sdb (foldl payment_api s cs)) pid = total_of (sdb s) pid + refunded_by pid s cs"
proof (induction cs arbitrary: s)
  case Nil
  then show ?case by simp
next
  case (Cons c cs)
  from payment_machine.inv_step [OF Cons.prems] have "payments_inv (sdb (payment_api s c))" .
  from Cons.IH [OF this] Cons.prems show ?case
    by (cases c) (simp_all add: CreatePayment_total CancelPayment_total CapturePayment_total RefundPayment_total)
qed

text \<open>
  C3: However the calls are ordered and whatever fails around them, the refunds carried out for a
  payment add up to its recorded refunded total, and never to more than its amount.
\<close>

theorem refunds_add_up_within_amount:
  "refunded_by pid (s\<lparr>sdb := migrated_db\<rparr>) calls =
     total_of (sdb (foldl payment_api (s\<lparr>sdb := migrated_db\<rparr>) calls)) pid
   \<and> refunded_by pid (s\<lparr>sdb := migrated_db\<rparr>) calls \<le>
     amount_of (sdb (foldl payment_api (s\<lparr>sdb := migrated_db\<rparr>) calls)) pid"
proof -
  let ?s = "s\<lparr>sdb := migrated_db\<rparr>" and ?d = "sdb (foldl payment_api (s\<lparr>sdb := migrated_db\<rparr>) calls)"
  have inv0: "payments_inv (sdb ?s)" by (simp add: payments_inv_migrated)
  then have "payments_inv ?d" by (rule payment_machine.run_keeps_inv)
  then have "total_of ?d pid \<le> amount_of ?d pid"
    by (auto simp: total_of_def amount_of_def payments_inv_def chk_refund_cap_def int64_order
        dest!: payment_by_id_SomeD split: option.split)
  moreover have "total_of (sdb ?s) pid = 0"
    by (simp add: total_of_def payment_by_id_def migrated_db_def)
  ultimately show ?thesis using refunded_by_total [OF inv0, of calls pid] by simp
qed

section \<open>What creating a payment does\<close>

definition final_status :: "err + psp_payment_response \<Rightarrow> payment_status" where
  "final_status res = (case res of Inl _ \<Rightarrow> PaymentStatusFailed | Inr _ \<Rightarrow> PaymentStatusAuthorized)"

definition provider_id :: "err + psp_payment_response \<Rightarrow> string" where
  "provider_id res = (case res of Inl _ \<Rightarrow> [] | Inr r \<Rightarrow> ps_PSPPaymentID r)"

lemma updatePaymentState_rows:
  assumes "payments_inv (sdb s)"
    and "updatePaymentState env k pid from to pspID reason trigger s = (u, s2)"
  shows "isInl u \<and> s2 = s \<or> u = Inr () \<and> world s2 = world s \<and> srouter s2 = srouter s
    \<and> (\<forall>q. payment_by_id (sdb s2) q =
          (if q = pid then map_option (with_status to pspID (e_now env k)) (payment_by_id (sdb s) q)
           else payment_by_id (sdb s) q))"
  using updatePaymentState_cases [of env k pid "from" to pspID reason trigger s]
proof (elim disjE exE conjE)
  fix d'
  assume upd: "status_update_tx env k pid from to pspID reason trigger (sdb s) = Inr ((), d')"
    and res: "updatePaymentState env k pid from to pspID reason trigger s =
        (Inr (), PublishPaymentEvent (e_now env k) pid from to trigger (s\<lparr>sdb := d'\<rparr>))"
  have "payment_by_id d' q =
      (if q = pid then map_option (with_status to pspID (e_now env k)) (payment_by_id (sdb s) q)
       else payment_by_id (sdb s) q)" for q
    by (rule status_update_row [OF assms(1) upd]) (simp add: payment_by_id_update with_status_def)
  with res assms(2) show ?thesis by auto
qed (use assms(2) in auto)

lemma final_update_rows:
  assumes "payments_inv (sdb s)" and "final_update env res s = (u, s2)"
  shows "isInl u \<and> s2 = s \<or> u = Inr () \<and> world s2 = world s \<and> srouter s2 = srouter s
    \<and> (\<forall>q. payment_by_id (sdb s2) q =
          (if q = e_uuid env 0
           then map_option (with_status (final_status res) (provider_id res) (e_now env 1)) (payment_by_id (sdb s) q)
           else payment_by_id (sdb s) q))"
  using assms(2) updatePaymentState_rows [OF assms(1)]
  unfolding final_update_def final_status_def provider_id_def by (cases res) auto

lemma create_tx_rows:
  assumes "create_tx env req psp d = Inr (u, d')"
  shows "payment_by_id d' q =
    (if q = e_uuid env 0 then Some (initial_row env req psp) else payment_by_id d q)"
proof -
  from assms have "payments d' = payments d @ [initial_row env req psp]"
    by (auto simp: create_tx_def Let_def result_simps tx_defs split: if_splits)
  moreover from create_tx_step [OF assms] have "payment_by_id d (e_uuid env 0) = None" by simp
  ultimately show ?thesis
    by (auto simp: payment_by_id_def find_append initial_row_def split: option.split)
qed

text \<open>The rows after a payment was recorded and the provider's answer was written down, or failed to be.\<close>

lemma create_then_settle:
  assumes "payments_inv (sdb s)" and "create_tx env req psp (sdb s) = Inr ((), d1)"
    and "final_update env pspRes (s\<lparr>sdb := d1, world := w, srouter := rt\<rparr>) = (u, s2)"
  obtains r where "payment_by_id (sdb s) (e_uuid env 0) = None" "world s2 = w"
    "isInl u \<and> r = initial_row env req psp
     \<or> u = Inr () \<and> r = with_status (final_status pspRes) (provider_id pspRes) (e_now env 1) (initial_row env req psp)"
    "\<And>q. payment_by_id (sdb s2) q = (if q = e_uuid env 0 then Some r else payment_by_id (sdb s) q)"
proof -
  from create_tx_step [OF assms(2)] pay_step_inv assms(1) have inv: "payments_inv d1"
    and fresh: "payment_by_id (sdb s) (e_uuid env 0) = None" by blast+
  have "isInl u \<and> s2 = s\<lparr>sdb := d1, world := w, srouter := rt\<rparr> \<or> u = Inr () \<and> world s2 = w
    \<and> (\<forall>q. payment_by_id (sdb s2) q = (if q = e_uuid env 0
        then map_option (with_status (final_status pspRes) (provider_id pspRes) (e_now env 1)) (payment_by_id d1 q)
        else payment_by_id d1 q))"
    using final_update_rows [OF _ assms(3)] inv by auto
  with fresh create_tx_rows [OF assms(2)] show thesis
    by (elim disjE) (force intro!: that)+
qed

text \<open>What a successful read after a success of the provider shows.\<close>

lemma read_back_authorized:
  assumes "GetPayment env k pid d = Inr resp" and "isInl pspRes = False"
    and "payment_by_id d pid = Some (with_status (final_status pspRes) (provider_id pspRes) now (initial_row env' req psp))"
  shows "Status (pr_Payment resp) = PaymentStatusAuthorized \<and> PSPPaymentID (pr_Payment resp) = provider_id pspRes"
  using GetPayment_row [OF assms(1)] assms(2,3)
  by (cases pspRes) (auto simp: payment_of_row_def with_status_def final_status_def provider_id_def initial_row_def
      split: if_splits)

text \<open>
  C13: Creating a payment records it before any provider is asked. Either nothing is recorded and no
  provider was called, or the payment is on record with the requested amount, the selected provider
  and the status the provider's final answer calls for: authorized with the provider's identifier,
  failed, or, if only recording the answer failed, still created. No other payment is touched, and
  a successful answer means authorized.
\<close>

theorem CreatePayment_effect:
  assumes "payments_inv (sdb s)"
  shows "case CreatePayment env req s of (res, s') \<Rightarrow>
     (isInl res \<and> sdb s' = sdb s \<and> world s' = world s)
   \<or> (\<exists>dec adp rt pspRes r.
        Route (e_now env 0) (e_order env) req (srouter s) = (Inr (dec, adp), rt)
      \<and> Do retry_DefaultConfig ''psp_create_payment'' (e_cancel env)
          (ad_CreatePayment adp (psp_request req)) (world s) = (pspRes, world s')
      \<and> payment_by_id (sdb s) (e_uuid env 0) = None
      \<and> (r = initial_row env req (rd_SelectedPSP dec) \<and> isInl res
          \<or> r = with_status (final_status pspRes) (provider_id pspRes) (e_now env 1)
                  (initial_row env req (rd_SelectedPSP dec)))
      \<and> (\<forall>q. payment_by_id (sdb s') q =
             (if q = e_uuid env 0 then Some r else payment_by_id (sdb s) q))
      \<and> (case res of
           Inl _ \<Rightarrow> True
         | Inr resp \<Rightarrow> \<not> isInl pspRes \<and> Status (pr_Payment resp) = PaymentStatusAuthorized
             \<and> PSPPaymentID (pr_Payment resp) = provider_id pspRes))"
  using CreatePayment_outcome [of env req s]
proof (elim disjE exE conjE)
  fix dec adp rt d1 pspRes w u s2
  assume route: "Route (e_now env 0) (e_order env) req (srouter s) = (Inr (dec, adp), rt)"
    and tx: "create_tx env req (rd_SelectedPSP dec) (sdb s) = Inr ((), d1)"
    and call: "Do retry_DefaultConfig ''psp_create_payment'' (e_cancel env)
          (ad_CreatePayment adp (psp_request req)) (world s) = (pspRes, w)"
    and fin: "final_update env pspRes (s\<lparr>sdb := d1, world := w,
          srouter := record_outcome env (rd_SelectedPSP dec) pspRes rt\<rparr>) = (u, s2)"
    and res: "CreatePayment env req s =
          (case u of
             Inl e \<Rightarrow> (Inl (Wrapped ''updating final state'' e), s2)
           | Inr _ \<Rightarrow> (case pspRes of
               Inl e \<Rightarrow> (Inl (Wrapped ''psp failed'' e), s2)
             | Inr _ \<Rightarrow> (GetPayment env 2 (e_uuid env 0) (sdb s2), s2)))"
  from create_then_settle [OF assms tx fin] obtain r where
    r: "payment_by_id (sdb s) (e_uuid env 0) = None" "world s2 = w"
      "isInl u \<and> r = initial_row env req (rd_SelectedPSP dec)
       \<or> u = Inr () \<and> r = with_status (final_status pspRes) (provider_id pspRes) (e_now env 1) (initial_row env req (rd_SelectedPSP dec))"
    and rows: "\<And>q. payment_by_id (sdb s2) q = (if q = e_uuid env 0 then Some r else payment_by_id (sdb s) q)" by blast
  from route call have route': "Route (e_now env 0) (e_order env) req (srouter s) = (Inr (dec, adp), rt)"
    "Do retry_DefaultConfig ''psp_create_payment'' (e_cancel env) (ad_CreatePayment adp (psp_request req)) (world s)
      = (pspRes, world s2)" using r(2) by simp_all
  have "Status (pr_Payment resp) = PaymentStatusAuthorized \<and> PSPPaymentID (pr_Payment resp) = provider_id pspRes"
    if "u = Inr ()" "pspRes = Inr x" "GetPayment env 2 (e_uuid env 0) (sdb s2) = Inr resp" for resp x
    using read_back_authorized [OF that(3), of pspRes] r(3) rows that(1,2) by auto
  with route' r(1,3) rows res show ?thesis
    by (cases u; cases pspRes) (auto split: sum.split)
qed auto

section \<open>A concrete run\<close>

definition demo_env :: "nat \<Rightarrow> env" where
  "demo_env n = quiet_env\<lparr>e_uuid := (\<lambda>k. replicate n (CHR ''a'') @ ''-'' @ replicate k (CHR ''b''))\<rparr>"

definition demo_sys :: "mock_world sys" where
  "demo_sys =
     \<lparr>sdb = migrated_db, srouter = demo_router,
      world = \<lparr>mw_floats = (\<lambda>_. 0), mw_next_float = 0, mw_uuids = (\<lambda>n. replicate n (CHR ''u'')),
               mw_next_uuid = 0\<rparr>,
      pubsub_on = True, events = []\<rparr>"

definition demo_created :: "mock_world sys" where
  "demo_created = foldl payment_api demo_sys [CallCreate (demo_env 0) (demo_request\<lparr>rq_Amount := 10\<rparr>)]"

definition demo_calls :: "payment_call list" where
  "demo_calls = [CallCapture (demo_env 1) ''-'', CallRefund (demo_env 2) ''-'' 4,
     CallRefund (demo_env 3) ''-'' 7, CallRefund (demo_env 4) ''-'' 6]"

definition demo_refunded :: "mock_world sys" where
  "demo_refunded = foldl payment_api demo_created demo_calls"

lemma demo_created_status:
  "map_option pay_status (payment_by_id (sdb demo_created) ''-'') = Some PaymentStatusAuthorized"
  by code_simp

lemma demo_refunded_status:
  "map_option (\<lambda>r. (pay_status r, sint (pay_total_refunded r))) (payment_by_id (sdb demo_refunded) ''-'') =
     Some (PaymentStatusRefunded, 10)"
  by code_simp

definition demo_captured :: "mock_world sys" where
  "demo_captured = payment_api demo_created (CallCapture (demo_env 1) ''-'')"

lemma demo_refund_answers: "isInl (fst (RefundPayment (demo_env 2) ''-'' 4 demo_captured)) = False"
  by code_simp

lemma demo_create_answers:
  "isInl (fst (CreatePayment (demo_env 0) (demo_request\<lparr>rq_Amount := 10\<rparr>) demo_sys)) = False"
  by code_simp

lemma demo_inv: "payments_inv (sdb demo_sys)" "payments_inv (sdb demo_created)"
  "payments_inv (sdb demo_captured)" "payments_inv (sdb demo_refunded)"
proof -
  show sys: "payments_inv (sdb demo_sys)" by (simp add: demo_sys_def payments_inv_migrated)
  then show created: "payments_inv (sdb demo_created)"
    unfolding demo_created_def by (rule payment_machine.run_keeps_inv)
  then show "payments_inv (sdb demo_refunded)"
    unfolding demo_refunded_def by (rule payment_machine.run_keeps_inv)
  from created show "payments_inv (sdb demo_captured)"
    unfolding demo_captured_def by (rule payment_machine.inv_step)
qed

lemma terminal_payment_frozen_witness:
  "\<exists>r. payment_by_id (sdb demo_refunded) ''-'' = Some r \<and> pay_status r = PaymentStatusRefunded
     \<and> payment_by_id (sdb (foldl payment_api demo_refunded
          [CallRefund (demo_env 5) ''-'' 1, CallCapture (demo_env 6) ''-'', CallCancel (demo_env 7) ''-''])) ''-'' = Some r"
proof -
  from demo_refunded_status obtain r where r: "payment_by_id (sdb demo_refunded) ''-'' = Some r"
    "pay_status r = PaymentStatusRefunded" by auto
  then have "IsTerminal (pay_status r)" by simp
  from terminal_payment_frozen [OF demo_inv(4) r(1) this] r show ?thesis by blast
qed

lemma RefundPayment_effect_witness:
  "\<exists>p p'. payment_by_id (sdb demo_captured) ''-'' = Some p
     \<and> payment_by_id (sdb (snd (RefundPayment (demo_env 2) ''-'' 4 demo_captured))) ''-'' = Some p'
     \<and> sint (pay_total_refunded p') = sint (pay_total_refunded p) + 4"
proof -
  obtain res s' where run: "RefundPayment (demo_env 2) ''-'' 4 demo_captured = (res, s')"
    by (metis prod.collapse)
  with demo_refund_answers have "\<not> isInl res" by simp
  with RefundPayment_effect [OF demo_inv(3), where env = "demo_env 2" and pid = "''-''" and amount = 4]
  show ?thesis unfolding run by auto
qed

lemma forbidden_calls_change_nothing_witness:
  "snd (CapturePayment (demo_env 5) ''-'' demo_refunded) = demo_refunded
   \<and> snd (RefundPayment (demo_env 5) ''-'' 1 demo_refunded) = demo_refunded"
proof -
  from demo_refunded_status obtain r where r: "payment_by_id (sdb demo_refunded) ''-'' = Some r"
    "pay_status r = PaymentStatusRefunded" by auto
  from forbidden_calls_change_nothing [OF r(1), of "demo_env 5" 1] r(2) show ?thesis by simp
qed

lemma CreatePayment_effect_witness:
  "\<exists>r. payment_by_id (sdb (snd (CreatePayment (demo_env 0) (demo_request\<lparr>rq_Amount := 10\<rparr>) demo_sys))) ''-'' = Some r
     \<and> pay_status r = PaymentStatusAuthorized"
proof -
  obtain res s' where run: "CreatePayment (demo_env 0) (demo_request\<lparr>rq_Amount := 10\<rparr>) demo_sys = (res, s')"
    by (metis prod.collapse)
  with demo_create_answers obtain resp where "res = Inr resp" by (cases res) auto
  moreover have "e_uuid (demo_env 0) 0 = ''-''" by (simp add: demo_env_def)
  ultimately show ?thesis
    using CreatePayment_effect [OF demo_inv(1), where env = "demo_env 0"
        and req = "demo_request\<lparr>rq_Amount := 10\<rparr>"] run
    by (auto simp: with_status_def final_status_def not_isInl)
qed

end
