(* ===== verification/Ledger.thy ===== *)
theory Ledger
  imports Database
begin

text \<open>
  The double-entry ledger, \<^verbatim>\<open>internal/service/ledger.go\<close>. Amounts and balances are \<^verbatim>\<open>int64\<close>,
  and sums wrap as they do in Go. The invariant says that every account's balance is the fold
  of its entries, that each entry carries the balance it left behind, that the entries of every
  transaction balance, and that debit-normal and credit-normal balances agree (the trial
  balance). The contract of "posting one entry" is an interface, because the webhook service
  has its own copy of that code.
\<close>

section \<open>Posting a transaction\<close>

fun debit_normal :: "account_type \<Rightarrow> bool" where
  "debit_normal AccountTypeAsset = True"
| "debit_normal AccountTypeExpense = True"
| "debit_normal AccountTypeLiability = False"
| "debit_normal AccountTypeRevenue = False"

definition new_balance :: "account_type \<Rightarrow> int64 \<Rightarrow> int64 \<Rightarrow> int64 \<Rightarrow> int64" where
  "new_balance accType currentBalance debit credit =
     (if debit_normal accType then currentBalance + (debit - credit)
      else currentBalance + (credit - debit))"

fun validate_entries :: "entry_line list \<Rightarrow> int64 \<Rightarrow> int64 \<Rightarrow> err + int64 \<times> int64" where
  "validate_entries [] totalDebit totalCredit = Inr (totalDebit, totalCredit)"
| "validate_entries (e # es) totalDebit totalCredit =
     (if el_Debit e <s 0 \<or> el_Credit e <s 0
      then Inl (Errorf ''negative entry amounts are not allowed'')
      else if 0 <s el_Debit e \<and> 0 <s el_Credit e
      then Inl (Errorf ''an entry cannot have both debit and credit'')
      else validate_entries es (totalDebit + el_Debit e) (totalCredit + el_Credit e))"

definition lock_error :: "string \<Rightarrow> err \<Rightarrow> err" where
  "lock_error code e =
     (if e = ErrNoRows then WrappedWith ErrAccountNotFound code
      else Wrapped (''locking account '' @ code) e)"

definition lock_account :: "(site \<Rightarrow> err option) \<Rightarrow> nat \<Rightarrow> string \<Rightarrow> ledger_account tx" where
  "lock_account flt i code d = mapErr (lock_error code) (at_site flt (LockAccount i) (select_account code) d)"

text \<open>The body of the loop over the entries; \<open>i\<close> is the iteration.\<close>

definition post_entry :: "env \<Rightarrow> string \<Rightarrow> nat \<times> entry_line \<Rightarrow> unit tx" where
  "post_entry env txID = (\<lambda>(i, entry).
     let flt = e_fault env 0 in
     bindT (lock_account flt i (el_AccountCode entry)) (\<lambda>acc.
     let newBalance = new_balance (la_AccountType acc) (la_CurrentBalance acc) (el_Debit entry) (el_Credit entry) in
     bindT (ctxT (''updating account balance '' @ el_AccountCode entry)
              (at_site flt (UpdateAccount i) (update_balance (la_ID acc) newBalance))) (\<lambda>_.
     ctxT (''inserting ledger entry for '' @ el_AccountCode entry)
       (at_site flt (InsertEntry i) (insert_ledger_entry
          \<lparr>le_ID = e_uuid env (i + 1), le_TransactionID = txID, le_AccountID = la_ID acc,
           le_Debit = el_Debit entry, le_Credit = el_Credit entry, le_RunningBalance = newBalance,
           le_Description = el_Description entry, le_ReferenceID = el_ReferenceID entry,
           le_CreatedAt = e_now env 0\<rparr>)))))"

fun forT :: "('p \<Rightarrow> unit tx) \<Rightarrow> 'p list \<Rightarrow> unit tx" where
  "forT f [] = returnT ()"
| "forT f (p # ps) = bindT (f p) (\<lambda>_. forT f ps)"

definition PostLedgerTransaction ::
  "env \<Rightarrow> post_transaction_request \<Rightarrow> db \<Rightarrow> (err + unit) \<times> db" where
  "PostLedgerTransaction env req d =
     (let flt = e_fault env 0; txID = e_uuid env 0 in
      if length (pt_Entries req) < 2
      then (Inl (Errorf ''ledger transaction requires at least 2 entries for double-entry bookkeeping''), d)
      else case validate_entries (pt_Entries req) 0 0 of
        Inl e \<Rightarrow> (Inl e, d)
      | Inr (totalDebit, totalCredit) \<Rightarrow>
          if totalDebit \<noteq> totalCredit then (Inl (UnbalancedEntries totalDebit totalCredit), d)
          else run_tx
            (bindT (ctxT ''beginning db transaction'' (callT flt Begin)) (\<lambda>_.
             bindT (ctxT ''inserting ledger transaction'' (at_site flt InsertLedgerTx (insert_ledger_tx
               \<lparr>lt_ID = txID,
                lt_PaymentID = (if pt_PaymentID req \<noteq> [] then Some (pt_PaymentID req) else None),
                lt_TransactionType = pt_TransactionType req, lt_Status = TxStatusPosted,
                lt_CreatedAt = e_now env 0, lt_PostedAt = Some (e_now env 0)\<rparr>))) (\<lambda>_.
             bindT (forT (post_entry env txID) (enumerate 0 (pt_Entries req))) (\<lambda>_.
             ctxT ''committing ledger transaction'' (callT flt Commit))))) d)"

section \<open>Reading the ledger\<close>

definition GetAccountBalance :: "env \<Rightarrow> string \<Rightarrow> db \<Rightarrow> err + balance_response" where
  "GetAccountBalance env code d =
     (case at_site (e_fault env 0) SelectAccount (select_account code) d of
        Inl e \<Rightarrow> Inl (if e = ErrNoRows then WrappedWith ErrAccountNotFound code
                    else Wrapped ''querying account balance'' e)
      | Inr (a, _) \<Rightarrow>
          Inr \<lparr>br_AccountCode = la_AccountCode a, br_AccountName = la_AccountName a,
               br_AccountType = la_AccountType a, br_CurrentBalance = la_CurrentBalance a,
               br_Currency = la_Currency a\<rparr>)"

record ledger_entry_row =
  lr_ID :: string
  lr_TransactionID :: string
  lr_AccountCode :: string
  lr_AccountName :: string
  lr_Debit :: int64
  lr_Credit :: int64
  lr_RunningBalance :: int64
  lr_Description :: "string option"
  lr_TxType :: string
  lr_CreatedAt :: time

definition joined_entries :: "db \<Rightarrow> ledger_entry_row list" where
  "joined_entries d =
     concat (map (\<lambda>e.
       concat (map (\<lambda>a.
         map (\<lambda>t. \<lparr>lr_ID = le_ID e, lr_TransactionID = le_TransactionID e,
                   lr_AccountCode = la_AccountCode a, lr_AccountName = la_AccountName a,
                   lr_Debit = le_Debit e, lr_Credit = le_Credit e,
                   lr_RunningBalance = le_RunningBalance e, lr_Description = Some (le_Description e),
                   lr_TxType = lt_TransactionType t, lr_CreatedAt = le_CreatedAt e\<rparr>)
           (filter (\<lambda>t. lt_ID t = le_TransactionID e) (ledger_transactions d)))
         (filter (\<lambda>a. la_ID a = le_AccountID e) (ledger_accounts d))))
       (ledger_entries d))"

text \<open>Rows with the same creation time stay in insertion order; SQL leaves that open.\<close>

definition GetRecentEntries :: "env \<Rightarrow> int \<Rightarrow> int \<Rightarrow> db \<Rightarrow> err + ledger_entry_row list" where
  "GetRecentEntries env limit offset d =
     (case e_fault env 0 SelectEntries of
        Some e \<Rightarrow> Inl (Wrapped ''querying ledger entries'' e)
      | None \<Rightarrow>
          if limit < 0 \<or> offset < 0
          then Inl (Wrapped ''querying ledger entries'' (ExternalErr ''LIMIT and OFFSET must not be negative''))
          else case e_fault env 0 ScanEntries of
            Some e \<Rightarrow> Inl (Wrapped ''iterating ledger entries'' e)
          | None \<Rightarrow> Inr (take (nat limit) (drop (nat offset)
                      (sort_key (\<lambda>r. - lr_CreatedAt r) (joined_entries d)))))"

section \<open>The books\<close>

definition entries_of :: "db \<Rightarrow> string \<Rightarrow> ledger_entry list" where
  "entries_of d aid = filter (\<lambda>e. le_AccountID e = aid) (ledger_entries d)"

definition entries_in :: "db \<Rightarrow> string \<Rightarrow> ledger_entry list" where
  "entries_in d tid = filter (\<lambda>e. le_TransactionID e = tid) (ledger_entries d)"

text \<open>Following the running balances of an account from a starting balance.\<close>

fun running :: "account_type \<Rightarrow> int64 \<Rightarrow> ledger_entry list \<Rightarrow> int64 option" where
  "running ty b [] = Some b"
| "running ty b (e # es) =
     (if le_RunningBalance e = new_balance ty b (le_Debit e) (le_Credit e)
      then running ty (le_RunningBalance e) es else None)"

definition books_inv :: "db \<Rightarrow> bool" where
  "books_inv d \<longleftrightarrow>
     distinct (map la_ID (ledger_accounts d)) \<and> distinct (map la_AccountCode (ledger_accounts d))
   \<and> (\<forall>e \<in> set (ledger_entries d). le_AccountID e \<in> la_ID ` set (ledger_accounts d)
        \<and> le_TransactionID e \<in> lt_ID ` set (ledger_transactions d) \<and> chk_debit_credit e)
   \<and> (\<forall>a \<in> set (ledger_accounts d).
        running (la_AccountType a) 0 (entries_of d (la_ID a)) = Some (la_CurrentBalance a))"

definition trial :: "ledger_account list \<Rightarrow> int64" where
  "trial as = sum_list (map (\<lambda>a. if debit_normal (la_AccountType a)
                               then la_CurrentBalance a else - la_CurrentBalance a) as)"

definition tx_balanced :: "db \<Rightarrow> string \<Rightarrow> bool" where
  "tx_balanced d tid \<longleftrightarrow>
     sum_list (map le_Debit (entries_in d tid)) = sum_list (map le_Credit (entries_in d tid))"

definition ledger_inv :: "db \<Rightarrow> bool" where
  "ledger_inv d \<longleftrightarrow> books_inv d \<and> trial (ledger_accounts d) = 0
     \<and> distinct (map lt_ID (ledger_transactions d))
     \<and> (\<forall>t \<in> set (ledger_transactions d). tx_balanced d (lt_ID t))"

lemma ledger_inv_migrated: "ledger_inv migrated_db"
  by (simp add: ledger_inv_def books_inv_def migrated_db_def seed_accounts_def seed_account_def
      entries_of_def trial_def)

lemma ledger_inv_cong:
  assumes "ledger_accounts d' = ledger_accounts d" and "ledger_entries d' = ledger_entries d"
    and "ledger_transactions d' = ledger_transactions d"
  shows "ledger_inv d' = ledger_inv d"
  using assms
  by (simp add: ledger_inv_def books_inv_def tx_balanced_def entries_of_def entries_in_def)

lemma running_append:
  "running ty b (es @ es') = Option.bind (running ty b es) (\<lambda>b'. running ty b' es')"
  by (induction es arbitrary: b) auto

section \<open>One posted entry\<close>

text \<open>
  \<open>books_step tid debit credit d d'\<close>: one entry of transaction \<open>tid\<close> was posted to some
  account, with the account's balance moved to the entry's running balance, and nothing else
  changed.
\<close>

definition books_step :: "string \<Rightarrow> int64 \<Rightarrow> int64 \<Rightarrow> db \<Rightarrow> db \<Rightarrow> bool" where
  "books_step tid debit credit d d' \<longleftrightarrow>
     (\<exists>a e. a \<in> set (ledger_accounts d) \<and> chk_debit_credit e
        \<and> le_TransactionID e = tid \<and> le_AccountID e = la_ID a
        \<and> le_Debit e = debit \<and> le_Credit e = credit
        \<and> le_RunningBalance e = new_balance (la_AccountType a) (la_CurrentBalance a) debit credit
        \<and> list_ex (\<lambda>t. lt_ID t = tid) (ledger_transactions d)
        \<and> d' = d\<lparr>ledger_accounts :=
                  update_where (\<lambda>x. la_ID x = la_ID a)
                    (\<lambda>x. x\<lparr>la_CurrentBalance := le_RunningBalance e\<rparr>) (ledger_accounts d),
                ledger_entries := ledger_entries d @ [e]\<rparr>)"

lemma trial_update:
  assumes "distinct (map la_ID as)" and "a \<in> set as"
  shows "trial (update_where (\<lambda>x. la_ID x = la_ID a)
           (\<lambda>x. x\<lparr>la_CurrentBalance := new_balance (la_AccountType a) (la_CurrentBalance a) debit credit\<rparr>) as)
         = trial as + debit - credit"
  using assms
proof (induction as)
  case Nil
  then show ?case by simp
next
  case (Cons x xs)
  show ?case
  proof (cases "x = a")
    case True
    with Cons.prems(1) have "update_where (\<lambda>x. la_ID x = la_ID a) f xs = xs" for f
      by (intro update_where_none) (metis distinct.simps(2) image_eqI list.simps(9) set_map)
    with True show ?thesis by (simp add: trial_def new_balance_def)
  next
    case False
    with Cons have "la_ID x \<noteq> la_ID a" by (auto simp: image_iff)
    with False Cons show ?thesis by (simp add: trial_def)
  qed
qed

lemma books_step_trial:
  assumes "books_inv d" and "books_step tid debit credit d d'"
  shows "trial (ledger_accounts d') = trial (ledger_accounts d) + debit - credit"
  using assms by (auto simp: books_step_def books_inv_def trial_update)

lemma books_step_frame:
  assumes "books_step tid debit credit d d'"
  shows "payments d' = payments d \<and> payment_state_transitions d' = payment_state_transitions d
    \<and> ledger_transactions d' = ledger_transactions d \<and> webhook_events d' = webhook_events d
    \<and> reconciliation_records d' = reconciliation_records d
    \<and> reconciliation_discrepancies d' = reconciliation_discrepancies d"
  using assms by (auto simp: books_step_def)

lemma books_step_entry:
  assumes "books_step tid debit credit d d'"
  shows "\<exists>e. ledger_entries d' = ledger_entries d @ [e] \<and> le_TransactionID e = tid
    \<and> le_Debit e = debit \<and> le_Credit e = credit"
  using assms by (auto simp: books_step_def)

lemma books_step_inv:
  assumes inv: "books_inv d" and st: "books_step tid debit credit d d'"
  shows "books_inv d'"
proof -
  from st obtain a e where a: "a \<in> set (ledger_accounts d)" and chk: "chk_debit_credit e"
    and e: "le_TransactionID e = tid" "le_AccountID e = la_ID a"
      "le_RunningBalance e =
         new_balance (la_AccountType a) (la_CurrentBalance a) (le_Debit e) (le_Credit e)"
    and tid: "list_ex (\<lambda>t. lt_ID t = tid) (ledger_transactions d)"
    and d': "d' = d\<lparr>ledger_accounts :=
                  update_where (\<lambda>x. la_ID x = la_ID a)
                    (\<lambda>x. x\<lparr>la_CurrentBalance := le_RunningBalance e\<rparr>) (ledger_accounts d),
                ledger_entries := ledger_entries d @ [e]\<rparr>"
    by (auto simp: books_step_def)
  have ids: "map la_ID (ledger_accounts d') = map la_ID (ledger_accounts d)"
    and codes: "map la_AccountCode (ledger_accounts d') = map la_AccountCode (ledger_accounts d)"
    by (simp_all add: d' map_update_where_same)
  have idset: "la_ID ` set (ledger_accounts d') = la_ID ` set (ledger_accounts d)"
    using ids by (metis set_map)
  have only: "x = a" if "x \<in> set (ledger_accounts d)" "la_ID x = la_ID a" for x
    using that a inv unfolding books_inv_def by (metis distinct_key_find option.inject)
  have run_a: "running (la_AccountType a) 0 (entries_of d (la_ID a)) = Some (la_CurrentBalance a)"
    using inv a by (simp add: books_inv_def)
  show ?thesis
    unfolding books_inv_def
  proof (intro conjI ballI)
    show "distinct (map la_ID (ledger_accounts d'))" and
      "distinct (map la_AccountCode (ledger_accounts d'))"
      using inv by (simp_all only: ids codes books_inv_def)
  next
    fix x
    assume "x \<in> set (ledger_entries d')"
    then consider "x \<in> set (ledger_entries d)" | "x = e" by (auto simp: d')
    then show "le_AccountID x \<in> la_ID ` set (ledger_accounts d')"
      and "le_TransactionID x \<in> lt_ID ` set (ledger_transactions d')" and "chk_debit_credit x"
      using inv a e(1,2) chk tid unfolding idset
      by (cases; force simp: books_inv_def d' list_ex_iff)+
  next
    fix x
    assume "x \<in> set (ledger_accounts d')"
    then consider
        "x = a\<lparr>la_CurrentBalance := le_RunningBalance e\<rparr>"
      | "x \<in> set (ledger_accounts d)" "la_ID x \<noteq> la_ID a"
      using only by (auto simp: d' in_set_update_where)
    then show "running (la_AccountType x) 0 (entries_of d' (la_ID x)) = Some (la_CurrentBalance x)"
    proof cases
      case 1
      then show ?thesis using run_a e by (simp add: d' entries_of_def running_append)
    next
      case 2
      then show ?thesis using inv e(2) by (simp add: d' entries_of_def books_inv_def)
    qed
  qed
qed

section \<open>A sequence of posted entries\<close>

fun books_steps :: "string \<Rightarrow> (int64 \<times> int64) list \<Rightarrow> db \<Rightarrow> db \<Rightarrow> bool" where
  "books_steps tid [] d d' = (d' = d)"
| "books_steps tid (p # ps) d d' =
     (\<exists>d1. books_step tid (fst p) (snd p) d d1 \<and> books_steps tid ps d1 d')"

lemma books_steps_keep:
  assumes "books_steps tid ps d d'" and "books_inv d"
  shows "books_inv d'
    \<and> trial (ledger_accounts d') =
        trial (ledger_accounts d) + sum_list (map fst ps) - sum_list (map snd ps)
    \<and> (\<exists>es. ledger_entries d' = ledger_entries d @ es \<and> (\<forall>e \<in> set es. le_TransactionID e = tid)
         \<and> map le_Debit es = map fst ps \<and> map le_Credit es = map snd ps)"
  using assms
proof (induction ps arbitrary: d)
  case Nil
  then show ?case by simp
next
  case (Cons p ps)
  from Cons.prems(1) obtain d1 where s1: "books_step tid (fst p) (snd p) d d1"
    and s2: "books_steps tid ps d1 d'" by auto
  from books_step_inv [OF Cons.prems(2) s1] have inv1: "books_inv d1" .
  from books_step_entry [OF s1] obtain e where e: "ledger_entries d1 = ledger_entries d @ [e]"
    "le_TransactionID e = tid" "le_Debit e = fst p" "le_Credit e = snd p" by blast
  from Cons.IH [OF s2 inv1] obtain es where IH: "books_inv d'"
      "trial (ledger_accounts d') =
        trial (ledger_accounts d1) + sum_list (map fst ps) - sum_list (map snd ps)"
      "ledger_entries d' = ledger_entries d1 @ es" "\<forall>e \<in> set es. le_TransactionID e = tid"
      "map le_Debit es = map fst ps" "map le_Credit es = map snd ps" by blast
  with e books_step_trial [OF Cons.prems(2) s1] show ?case
    by (intro conjI exI [of _ "e # es"]) auto
qed

lemma books_steps_frame:
  assumes "books_steps tid ps d d'"
  shows "payments d' = payments d \<and> payment_state_transitions d' = payment_state_transitions d
    \<and> ledger_transactions d' = ledger_transactions d \<and> webhook_events d' = webhook_events d
    \<and> reconciliation_records d' = reconciliation_records d
    \<and> reconciliation_discrepancies d' = reconciliation_discrepancies d"
  using assms by (induction ps arbitrary: d) (auto dest!: books_step_frame)

text \<open>
  A new transaction with balanced entries keeps the whole ledger in order: the entries before it
  belong to older transactions.
\<close>

lemma ledger_inv_balanced_tx:
  assumes inv: "ledger_inv d" and ins: "insert_ledger_tx t d = Inr (u, d1)"
    and steps: "books_steps (lt_ID t) ps d1 d2"
    and bal: "sum_list (map fst ps) = sum_list (map snd ps)"
  shows "ledger_inv d2 \<and> map le_Debit (entries_in d2 (lt_ID t)) = map fst ps
    \<and> map le_Credit (entries_in d2 (lt_ID t)) = map snd ps"
proof -
  from ins have d1: "d1 = d\<lparr>ledger_transactions := ledger_transactions d @ [t]\<rparr>"
    and fresh: "lt_ID t \<notin> lt_ID ` set (ledger_transactions d)"
    by (auto simp: tx_defs list_ex_iff split: if_splits)
  from inv have b: "books_inv d" and tr: "trial (ledger_accounts d) = 0"
    by (auto simp: ledger_inv_def)
  from b have b1: "books_inv d1"
    by (auto simp: books_inv_def d1 entries_of_def)
  from books_steps_keep [OF steps b1] obtain es where keep: "books_inv d2"
      "trial (ledger_accounts d2) =
        trial (ledger_accounts d1) + sum_list (map fst ps) - sum_list (map snd ps)"
      "ledger_entries d2 = ledger_entries d1 @ es" "\<forall>e \<in> set es. le_TransactionID e = lt_ID t"
      "map le_Debit es = map fst ps" "map le_Credit es = map snd ps" by blast
  from books_steps_frame [OF steps] have txs: "ledger_transactions d2 = ledger_transactions d @ [t]"
    by (simp add: d1)
  from b fresh have none: "\<forall>e \<in> set (ledger_entries d). le_TransactionID e \<noteq> lt_ID t"
    unfolding books_inv_def by metis
  have mine: "entries_in d2 (lt_ID t) = es"
    using keep(3,4) none by (simp add: entries_in_def d1 filter_empty_conv)
  have others: "entries_in d2 x = entries_in d x" if "x \<noteq> lt_ID t" for x
    using keep(3,4) that by (auto simp: entries_in_def d1 filter_empty_conv)
  have "tx_balanced d2 (lt_ID t)" by (simp add: tx_balanced_def mine keep bal)
  moreover have "tx_balanced d2 (lt_ID x)" if "x \<in> set (ledger_transactions d)" for x
    using that inv fresh others [of "lt_ID x"]
    by (auto simp: tx_balanced_def ledger_inv_def image_iff)
  ultimately show ?thesis
    using keep(1,2) keep(5,6) mine tr bal fresh inv by (simp add: ledger_inv_def txs d1)
qed

text \<open>The atomic step of the ledger tables: one transaction with balanced entries.\<close>

inductive ledger_step :: "db \<Rightarrow> db \<Rightarrow> bool" where
  ledger_posted:
    "\<lbrakk>insert_ledger_tx t d = Inr (u, d1); books_steps (lt_ID t) ps d1 d2;
      sum_list (map fst ps) = sum_list (map snd ps)\<rbrakk> \<Longrightarrow> ledger_step d d2"

lemma ledger_step_inv: "ledger_step d d' \<Longrightarrow> ledger_inv d \<Longrightarrow> ledger_inv d'"
  by (induction rule: ledger_step.induct) (blast dest: ledger_inv_balanced_tx)

lemma ledger_step_frame:
  "ledger_step d d' \<Longrightarrow> payments d' = payments d
    \<and> payment_state_transitions d' = payment_state_transitions d \<and> webhook_events d' = webhook_events d
    \<and> reconciliation_records d' = reconciliation_records d
    \<and> reconciliation_discrepancies d' = reconciliation_discrepancies d"
  by (induction rule: ledger_step.induct) (auto dest!: books_steps_frame simp: insert_ledger_tx_def split: if_splits)

section \<open>The posting interface\<close>

text \<open>
  Code that posts one entry per call: what a successful call does to the books. Its client runs
  a sequence of calls.
\<close>

locale entry_poster =
  fixes post :: "'p \<Rightarrow> unit tx"
    and tid :: string
    and amounts :: "'p \<Rightarrow> int64 \<times> int64"
  assumes post_books: "post p d = Inr (u, d') \<Longrightarrow> books_step tid (fst (amounts p)) (snd (amounts p)) d d'"
begin

lemma post_all_books: "forT post ps d = Inr (u, d') \<Longrightarrow> books_steps tid (map amounts ps) d d'"
  by (induction ps arbitrary: d) (auto simp: result_simps dest: post_books)

lemma posted_tx_keeps_ledger:
  assumes "ledger_inv d" and "insert_ledger_tx t d = Inr (v, d1)" and "lt_ID t = tid"
    and "forT post ps d1 = Inr (u, d2)"
    and "sum_list (map (fst \<circ> amounts) ps) = sum_list (map (snd \<circ> amounts) ps)"
  shows "ledger_inv d2 \<and> map le_Debit (entries_in d2 tid) = map (fst \<circ> amounts) ps
    \<and> map le_Credit (entries_in d2 tid) = map (snd \<circ> amounts) ps"
  using assms ledger_inv_balanced_tx [OF assms(1,2)] post_all_books [OF assms(4)] by simp

lemma posted_tx_step:
  assumes "insert_ledger_tx t d = Inr (v, d1)" and "lt_ID t = tid" and "forT post ps d1 = Inr (u, d2)"
    and "sum_list (map (fst \<circ> amounts) ps) = sum_list (map (snd \<circ> amounts) ps)"
  shows "ledger_step d d2"
  using ledger_posted [OF assms(1), of "map amounts ps" d2] post_all_books [OF assms(3)] assms(2,4) by simp

lemma post_all_frame:
  "forT post ps d = Inr (u, d') \<Longrightarrow> payments d' = payments d
     \<and> payment_state_transitions d' = payment_state_transitions d
     \<and> ledger_transactions d' = ledger_transactions d \<and> webhook_events d' = webhook_events d
     \<and> reconciliation_records d' = reconciliation_records d
     \<and> reconciliation_discrepancies d' = reconciliation_discrepancies d"
  by (rule books_steps_frame [OF post_all_books])

end

lemma post_entry_step:
  assumes "post_entry env txID (i, entry) d = Inr (u, d')"
  shows "books_step txID (el_Debit entry) (el_Credit entry) d d'"
proof -
  from assms obtain a where "account_by_code d (el_AccountCode entry) = Some a"
    and d': "d' = d\<lparr>ledger_accounts :=
        update_where (\<lambda>x. la_ID x = la_ID a)
          (\<lambda>x. x\<lparr>la_CurrentBalance :=
            new_balance (la_AccountType a) (la_CurrentBalance a) (el_Debit entry) (el_Credit entry)\<rparr>)
          (ledger_accounts d),
        ledger_entries := ledger_entries d @
          [\<lparr>le_ID = e_uuid env (i + 1), le_TransactionID = txID, le_AccountID = la_ID a,
            le_Debit = el_Debit entry, le_Credit = el_Credit entry,
            le_RunningBalance = new_balance (la_AccountType a) (la_CurrentBalance a) (el_Debit entry) (el_Credit entry),
            le_Description = el_Description entry, le_ReferenceID = el_ReferenceID entry,
            le_CreatedAt = e_now env 0\<rparr>]\<rparr>"
    and "list_ex (\<lambda>t. lt_ID t = txID) (ledger_transactions d)"
    and chk: "chk_debit_credit \<lparr>le_ID = e_uuid env (i + 1), le_TransactionID = txID, le_AccountID = la_ID a,
            le_Debit = el_Debit entry, le_Credit = el_Credit entry,
            le_RunningBalance = new_balance (la_AccountType a) (la_CurrentBalance a) (el_Debit entry) (el_Credit entry),
            le_Description = el_Description entry, le_ReferenceID = el_ReferenceID entry,
            le_CreatedAt = e_now env 0\<rparr>"
    by (auto simp: post_entry_def lock_account_def Let_def result_simps mapErr_Inr_iff tx_defs
        split: if_splits option.splits)
  moreover from this have "a \<in> set (ledger_accounts d)"
    by (auto simp: account_by_code_def dest: find_SomeD)
  ultimately show ?thesis
    unfolding books_step_def by (intro exI conjI) (assumption | simp | rule refl)+
qed

definition entry_amounts :: "nat \<times> entry_line \<Rightarrow> int64 \<times> int64" where
  "entry_amounts p = (el_Debit (snd p), el_Credit (snd p))"

interpretation ledger_post: entry_poster "post_entry env txID" txID entry_amounts for env txID
  by unfold_locales (auto simp: entry_amounts_def dest!: post_entry_step)

section \<open>What posting a transaction does\<close>

lemma validate_entries_Inr:
  "validate_entries es td tc = Inr (td', tc') \<Longrightarrow>
     td' = td + sum_list (map el_Debit es) \<and> tc' = tc + sum_list (map el_Credit es)
   \<and> (\<forall>e \<in> set es. 0 \<le> sint (el_Debit e) \<and> 0 \<le> sint (el_Credit e)
        \<and> (el_Debit e = 0 \<or> el_Credit e = 0))"
proof (induction es arbitrary: td tc)
  case Nil
  then show ?case by simp
next
  case (Cons e es)
  then show ?case
    by (auto simp: int64_order sint64_inject [symmetric] algebra_simps split: if_splits)
qed

lemma PostLedgerTransaction_Inr:
  assumes "PostLedgerTransaction env req d = (Inr u, d')"
  shows "2 \<le> length (pt_Entries req)
    \<and> validate_entries (pt_Entries req) 0 0 =
        Inr (sum_list (map el_Debit (pt_Entries req)), sum_list (map el_Credit (pt_Entries req)))
    \<and> sum_list (map el_Debit (pt_Entries req)) = sum_list (map el_Credit (pt_Entries req))
    \<and> (\<exists>t d1. lt_ID t = e_uuid env 0 \<and> insert_ledger_tx t d = Inr ((), d1)
        \<and> forT (post_entry env (e_uuid env 0)) (enumerate 0 (pt_Entries req)) d1 = Inr ((), d'))"
proof -
  from assms obtain td tc where len: "2 \<le> length (pt_Entries req)"
    and val: "validate_entries (pt_Entries req) 0 0 = Inr (td, tc)" and eq: "td = tc"
    by (auto simp: PostLedgerTransaction_def Let_def split: if_splits sum.splits)
  from validate_entries_Inr [OF val] have "td = sum_list (map el_Debit (pt_Entries req))"
    and "tc = sum_list (map el_Credit (pt_Entries req))" by simp_all
  moreover from assms len val eq
  have "\<exists>t d1. lt_ID t = e_uuid env 0 \<and> insert_ledger_tx t d = Inr ((), d1)
        \<and> forT (post_entry env (e_uuid env 0)) (enumerate 0 (pt_Entries req)) d1 = Inr ((), d')"
    by (force simp: PostLedgerTransaction_def Let_def run_tx_cases result_simps)
  ultimately show ?thesis using len val eq by simp
qed

lemma sums_of_enumerate:
  "map (fst \<circ> entry_amounts) (enumerate n es) = map el_Debit es"
  "map (snd \<circ> entry_amounts) (enumerate n es) = map el_Credit es"
  by (induction es arbitrary: n) (auto simp: entry_amounts_def)

lemma PostLedgerTransaction_Inl_same:
  "PostLedgerTransaction env req d = (Inl e, d') \<Longrightarrow> d' = d"
  by (auto simp: PostLedgerTransaction_def Let_def run_tx_cases split: if_splits sum.splits)

text \<open>
  C4: Posting a transaction is all or nothing and keeps the books. If it reports an error the
  tables are untouched; if it reports success every account balance is still the fold of its
  entries, every transaction still balances, the debit-normal and credit-normal balances
  still agree, and the entries of the new transaction are the requested ones.
\<close>

theorem PostLedgerTransaction_keeps_books:
  assumes "ledger_inv d"
  shows "case PostLedgerTransaction env req d of
      (Inl e, d') \<Rightarrow> d' = d
    | (Inr u, d') \<Rightarrow> ledger_inv d' \<and> payments d' = payments d
        \<and> map le_Debit (entries_in d' (e_uuid env 0)) = map el_Debit (pt_Entries req)
        \<and> map le_Credit (entries_in d' (e_uuid env 0)) = map el_Credit (pt_Entries req)"
proof (cases "PostLedgerTransaction env req d")
  case (Pair r d')
  show ?thesis
  proof (cases r)
    case (Inl e)
    with Pair show ?thesis by (simp add: PostLedgerTransaction_Inl_same)
  next
    case (Inr u)
    with Pair obtain t d1 where bal:
        "sum_list (map el_Debit (pt_Entries req)) = sum_list (map el_Credit (pt_Entries req))"
      and t: "lt_ID t = e_uuid env 0" and ins: "insert_ledger_tx t d = Inr ((), d1)"
      and posts: "forT (post_entry env (e_uuid env 0)) (enumerate 0 (pt_Entries req)) d1 = Inr ((), d')"
      by (auto dest!: PostLedgerTransaction_Inr)
    from ins have "payments d1 = payments d" by (auto simp: tx_defs split: if_splits)
    moreover from ledger_post.post_all_frame [OF posts] have "payments d' = payments d1" by simp
    ultimately show ?thesis
      using ledger_post.posted_tx_keeps_ledger [OF assms ins t posts] bal
      by (simp add: Pair Inr sums_of_enumerate)
  qed
qed

section \<open>When a transaction is accepted\<close>

definition postable :: "db \<Rightarrow> entry_line \<Rightarrow> bool" where
  "postable d e \<longleftrightarrow> account_by_code d (el_AccountCode e) \<noteq> None
     \<and> (0 <s el_Debit e \<and> el_Credit e = 0 \<or> 0 <s el_Credit e \<and> el_Debit e = 0)"

lemma account_by_code_balance:
  "account_by_code (d\<lparr>ledger_accounts :=
     update_where P (\<lambda>a. a\<lparr>la_CurrentBalance := b\<rparr>) (ledger_accounts d), ledger_entries := es\<rparr>) c = None
   \<longleftrightarrow> account_by_code d c = None"
  by (simp add: account_by_code_def find_update_where)

lemma post_entry_quiet:
  assumes q: "quiet env" and tx: "tid \<in> lt_ID ` set (ledger_transactions d)"
    and fresh: "e_uuid env (Suc i) \<notin> le_ID ` set (ledger_entries d)"
  shows "if postable d entry
    then \<exists>d'. post_entry env tid (i, entry) d = Inr ((), d')
      \<and> ledger_transactions d' = ledger_transactions d
      \<and> map le_ID (ledger_entries d') = map le_ID (ledger_entries d) @ [e_uuid env (Suc i)]
      \<and> (\<forall>c. account_by_code d' c = None \<longleftrightarrow> account_by_code d c = None)
    else isInl (post_entry env tid (i, entry) d)"
proof (cases "account_by_code d (el_AccountCode entry)")
  case None
  then show ?thesis
    using q by (simp add: postable_def post_entry_def lock_account_def bindT_def at_site_def quiet_def
        select_account_def Let_def)
next
  case (Some a)
  then have "a \<in> set (ledger_accounts d)" by (auto simp: account_by_code_def dest: find_SomeD)
  then have own: "list_ex (\<lambda>x. la_ID x = la_ID a)
      (update_where (\<lambda>x. la_ID x = la_ID a) (\<lambda>x. x\<lparr>la_CurrentBalance := b\<rparr>) (ledger_accounts d))" for b
    unfolding list_ex_iff
    by (intro bexI [of _ "a\<lparr>la_CurrentBalance := b\<rparr>"]) (auto simp: in_set_update_where)
  have "list_ex (\<lambda>t. lt_ID t = tid) (ledger_transactions d)"
    using tx by (auto simp: list_ex_iff)
  moreover have "\<not> list_ex (\<lambda>x. le_ID x = e_uuid env (Suc i)) (ledger_entries d)"
    using fresh unfolding list_ex_iff by (metis image_eqI)
  ultimately show ?thesis
    using Some q own
    by (auto simp: postable_def post_entry_def lock_account_def bindT_def at_site_def quiet_def
        select_account_def update_balance_def insert_ledger_entry_def ctxT_def Let_def
        chk_debit_credit_def account_by_code_balance)
qed

lemma post_entries_quiet:
  assumes q: "quiet env" and tx: "tid \<in> lt_ID ` set (ledger_transactions d)"
    and fresh: "\<forall>i \<ge> n. e_uuid env (Suc i) \<notin> le_ID ` set (ledger_entries d)"
  shows "(\<exists>d'. forT (post_entry env tid) (enumerate n es) d = Inr ((), d'))
    \<longleftrightarrow> (\<forall>e \<in> set es. postable d e)"
  using tx fresh
proof (induction es arbitrary: n d)
  case Nil
  then show ?case by (simp add: returnT_def)
next
  case (Cons e es)
  from Cons.prems have here: "e_uuid env (Suc n) \<notin> le_ID ` set (ledger_entries d)" by blast
  note one = post_entry_quiet [OF q Cons.prems(1) here, of e]
  show ?case
  proof (cases "postable d e")
    case False
    with one show ?thesis by (cases "post_entry env tid (n, e) d") (auto simp: bindT_def)
  next
    case True
    with one obtain d1 where d1: "post_entry env tid (n, e) d = Inr ((), d1)"
        "ledger_transactions d1 = ledger_transactions d"
        "map le_ID (ledger_entries d1) = map le_ID (ledger_entries d) @ [e_uuid env (Suc n)]"
        "\<forall>c. account_by_code d1 c = None \<longleftrightarrow> account_by_code d c = None" by auto
    from d1(3) have ids: "le_ID ` set (ledger_entries d1) =
        insert (e_uuid env (Suc n)) (le_ID ` set (ledger_entries d))"
      by (metis Un_insert_right list.set(1) list.simps(15) set_append set_map sup_bot.right_neutral)
    have "e_uuid env (Suc i) \<notin> le_ID ` set (ledger_entries d1)" if "Suc n \<le> i" for i
      using that Cons.prems(2) q by (auto simp: ids quiet_def inj_eq)
    with Cons.IH [of d1 "Suc n"] Cons.prems(1) d1(2)
    have "(\<exists>d'. forT (post_entry env tid) (enumerate (Suc n) es) d1 = Inr ((), d'))
      \<longleftrightarrow> (\<forall>e \<in> set es. postable d1 e)" by simp
    with d1(1,4) True show ?thesis by (simp add: bindT_def postable_def)
  qed
qed

lemma postable_validates:
  assumes "\<forall>e \<in> set es. postable d e"
  shows "validate_entries es td tc =
    Inr (td + sum_list (map el_Debit es), tc + sum_list (map el_Credit es))"
  using assms by (induction es arbitrary: td tc)
    (auto simp: postable_def int64_order algebra_simps)

text \<open>
  When nothing outside fails and the generated identifiers are new, a request is posted
  exactly when it has at least two entries, names an existing payment or none, every entry names
  an existing account and has exactly one positive side, and the debits equal the credits (as
  \<^verbatim>\<open>int64\<close> sums). Everything else is rejected, an entry of zero on both sides included.
\<close>

theorem PostLedgerTransaction_accepts_iff:
  assumes "quiet env" and "\<forall>i. e_uuid env i \<notin> lt_ID ` set (ledger_transactions d)"
    and "\<forall>i. e_uuid env i \<notin> le_ID ` set (ledger_entries d)"
  shows "fst (PostLedgerTransaction env req d) = Inr () \<longleftrightarrow>
      2 \<le> length (pt_Entries req)
    \<and> (pt_PaymentID req = [] \<or> payment_by_id d (pt_PaymentID req) \<noteq> None)
    \<and> (\<forall>e \<in> set (pt_Entries req). postable d e)
    \<and> sum_list (map el_Debit (pt_Entries req)) = sum_list (map el_Credit (pt_Entries req))"
proof -
  define t where "t = \<lparr>lt_ID = e_uuid env 0,
      lt_PaymentID = (if pt_PaymentID req \<noteq> [] then Some (pt_PaymentID req) else None),
      lt_TransactionType = pt_TransactionType req, lt_Status = TxStatusPosted,
      lt_CreatedAt = e_now env 0, lt_PostedAt = Some (e_now env 0)\<rparr>"
  define d1 where "d1 = d\<lparr>ledger_transactions := ledger_transactions d @ [t]\<rparr>"
  have "e_uuid env 0 \<noteq> lt_ID x" if "x \<in> set (ledger_transactions d)" for x
    using assms(2) that by auto
  then have "\<not> list_ex (\<lambda>x. lt_ID x = lt_ID t) (ledger_transactions d)"
    unfolding list_ex_iff t_def by simp metis
  then have ins: "insert_ledger_tx t d = Inr ((), d1)
      \<longleftrightarrow> pt_PaymentID req = [] \<or> payment_by_id d (pt_PaymentID req) \<noteq> None"
    and ins_d1: "insert_ledger_tx t d = Inr (u, x) \<Longrightarrow> x = d1" for u x
    by (auto simp: insert_ledger_tx_def t_def d1_def split: if_splits)
  have posts: "(\<exists>d'. forT (post_entry env (e_uuid env 0)) (enumerate 0 (pt_Entries req)) d1 = Inr ((), d'))
      \<longleftrightarrow> (\<forall>e \<in> set (pt_Entries req). postable d e)"
    using post_entries_quiet [OF assms(1), of "e_uuid env 0" d1 0 "pt_Entries req"] assms(3)
    by (simp add: d1_def t_def postable_def account_by_code_def)
  show ?thesis
  proof (intro iffI)
    assume "fst (PostLedgerTransaction env req d) = Inr ()"
    then obtain d' where run: "PostLedgerTransaction env req d = (Inr (), d')"
      by (metis prod.collapse)
    then have "\<exists>u. insert_ledger_tx t d = Inr (u, d1)
        \<and> forT (post_entry env (e_uuid env 0)) (enumerate 0 (pt_Entries req)) d1 = Inr ((), d')"
      using ins_d1
      by (auto simp: PostLedgerTransaction_def Let_def run_tx_cases result_simps t_def
          split: if_splits sum.splits)
    with PostLedgerTransaction_Inr [OF run] ins posts
    show "2 \<le> length (pt_Entries req)
    \<and> (pt_PaymentID req = [] \<or> payment_by_id d (pt_PaymentID req) \<noteq> None)
    \<and> (\<forall>e \<in> set (pt_Entries req). postable d e)
    \<and> sum_list (map el_Debit (pt_Entries req)) = sum_list (map el_Credit (pt_Entries req))"
      by auto
  next
    assume ok: "2 \<le> length (pt_Entries req)
    \<and> (pt_PaymentID req = [] \<or> payment_by_id d (pt_PaymentID req) \<noteq> None)
    \<and> (\<forall>e \<in> set (pt_Entries req). postable d e)
    \<and> sum_list (map el_Debit (pt_Entries req)) = sum_list (map el_Credit (pt_Entries req))"
    with posts obtain d' where
      "forT (post_entry env (e_uuid env 0)) (enumerate 0 (pt_Entries req)) d1 = Inr ((), d')" by blast
    then have body: "forT (post_entry env (e_uuid env 0)) (enumerate 0 (pt_Entries req)) d1 = Inr ((), d')" .
    from ok ins have first: "insert_ledger_tx t d = Inr ((), d1)" by blast
    have "\<not> length (pt_Entries req) < 2"
      and "validate_entries (pt_Entries req) 0 0 = Inr (sum_list (map el_Debit (pt_Entries req)),
            sum_list (map el_Credit (pt_Entries req)))"
      using ok postable_validates [of "pt_Entries req" d 0 0] by auto
    with ok body first assms(1) show "fst (PostLedgerTransaction env req d) = Inr ()"
      by (simp add: PostLedgerTransaction_def Let_def t_def [symmetric] run_tx_def bindT_def ctxT_def
          callT_def at_site_def returnT_def quiet_def)
  qed
qed

text \<open>
  While the total of a request stays within an \<^verbatim>\<open>int64\<close>, an accepted transaction balances as
  numbers and not only modulo 2^64: the sum of the debited amounts is the sum of the credited
  amounts, and every amount is non-negative.
\<close>

theorem accepted_amounts_balance_exactly:
  assumes "PostLedgerTransaction env req d = (Inr u, d')"
    and "sum_list (map (sint \<circ> el_Debit) (pt_Entries req)) \<le> 9223372036854775807"
    and "sum_list (map (sint \<circ> el_Credit) (pt_Entries req)) \<le> 9223372036854775807"
  shows "sum_list (map (sint \<circ> el_Debit) (pt_Entries req)) =
         sum_list (map (sint \<circ> el_Credit) (pt_Entries req))
    \<and> (\<forall>e \<in> set (pt_Entries req). 0 \<le> sint (el_Debit e) \<and> 0 \<le> sint (el_Credit e))"
proof -
  from PostLedgerTransaction_Inr [OF assms(1)]
  have val: "validate_entries (pt_Entries req) 0 0 =
        Inr (sum_list (map el_Debit (pt_Entries req)), sum_list (map el_Credit (pt_Entries req)))"
    and eq: "sum_list (map el_Debit (pt_Entries req)) = sum_list (map el_Credit (pt_Entries req))"
    by simp_all
  from validate_entries_Inr [OF val]
  have nn: "\<forall>e \<in> set (pt_Entries req). 0 \<le> sint (el_Debit e) \<and> 0 \<le> sint (el_Credit e)" by simp
  have "sint (sum_list (map el_Debit (pt_Entries req))) = sum_list (map (sint \<circ> el_Debit) (pt_Entries req))"
    using sint64_sum_list_nonneg [of "map el_Debit (pt_Entries req)"] nn assms(2) by simp
  moreover have "sint (sum_list (map el_Credit (pt_Entries req))) =
      sum_list (map (sint \<circ> el_Credit) (pt_Entries req))"
    using sint64_sum_list_nonneg [of "map el_Credit (pt_Entries req)"] nn assms(3) by simp
  ultimately show ?thesis using eq nn by simp
qed

section \<open>Concrete transactions\<close>

definition demo_line :: "string \<Rightarrow> int64 \<Rightarrow> int64 \<Rightarrow> entry_line" where
  "demo_line code debit credit =
     \<lparr>el_AccountCode = code, el_Debit = debit, el_Credit = credit, el_Description = [], el_ReferenceID = []\<rparr>"

definition demo_capture :: post_transaction_request where
  "demo_capture =
     \<lparr>pt_PaymentID = [], pt_TransactionType = ''capture'',
      pt_Entries = [demo_line AccPSPSettlement 500 0, demo_line AccMerchantPayable 0 500]\<rparr>"

text \<open>Four debits of 2^62 add up to 0 in an \<^verbatim>\<open>int64\<close>, so they need no credit.\<close>

definition wrapping_request :: post_transaction_request where
  "wrapping_request =
     \<lparr>pt_PaymentID = [], pt_TransactionType = ''capture'',
      pt_Entries = replicate 4 (demo_line AccPSPSettlement 4611686018427387904 0)\<rparr>"

lemma demo_lines_postable:
  "postable migrated_db (demo_line AccPSPSettlement 500 0)"
  "postable migrated_db (demo_line AccMerchantPayable 0 500)"
  "postable migrated_db (demo_line AccPSPSettlement 4611686018427387904 0)"
  by (simp_all add: postable_def demo_line_def account_by_code_def migrated_db_def seed_accounts_def
      seed_account_def AccPSPSettlement_def AccMerchantPayable_def int64_order)

lemma PostLedgerTransaction_keeps_books_witness:
  "case PostLedgerTransaction quiet_env demo_capture migrated_db of
      (Inl e, d') \<Rightarrow> d' = migrated_db
    | (Inr u, d') \<Rightarrow> ledger_inv d' \<and> payments d' = payments migrated_db
        \<and> map le_Debit (entries_in d' (e_uuid quiet_env 0)) = map el_Debit (pt_Entries demo_capture)
        \<and> map le_Credit (entries_in d' (e_uuid quiet_env 0)) = map el_Credit (pt_Entries demo_capture)"
  by (rule PostLedgerTransaction_keeps_books [OF ledger_inv_migrated])

lemma PostLedgerTransaction_accepts_iff_witness:
  "fst (PostLedgerTransaction quiet_env demo_capture migrated_db) = Inr ()"
  using PostLedgerTransaction_accepts_iff [OF quiet_quiet_env, of migrated_db demo_capture] demo_lines_postable
  by (simp add: demo_capture_def demo_line_def migrated_db_def)

lemma demo_capture_posts:
  "\<exists>d'. PostLedgerTransaction quiet_env demo_capture migrated_db = (Inr (), d')"
proof -
  have "isInl (fst (PostLedgerTransaction quiet_env demo_capture migrated_db)) = False"
    by code_simp
  then show ?thesis by (cases "PostLedgerTransaction quiet_env demo_capture migrated_db") (auto simp: not_isInl)
qed

lemma accepted_amounts_balance_exactly_witness:
  "sum_list (map (sint \<circ> el_Debit) (pt_Entries demo_capture)) =
   sum_list (map (sint \<circ> el_Credit) (pt_Entries demo_capture))"
proof -
  from demo_capture_posts obtain d' where
    "PostLedgerTransaction quiet_env demo_capture migrated_db = (Inr (), d')" by blast
  from accepted_amounts_balance_exactly [OF this] show ?thesis
    by (simp add: demo_capture_def demo_line_def)
qed

text \<open>
  The bound is needed: the check compares sums that have wrapped. A request with four debits
  of 2^62 and no credit at all is accepted, although its debits add up to 2^64.
\<close>

theorem wrapped_sums_are_accepted:
  "fst (PostLedgerTransaction quiet_env wrapping_request migrated_db) = Inr ()
   \<and> sum_list (map (sint \<circ> el_Debit) (pt_Entries wrapping_request)) = 18446744073709551616
   \<and> sum_list (map (sint \<circ> el_Credit) (pt_Entries wrapping_request)) = 0"
  by (intro conjI; code_simp)

end
