(* ===== verification/Webhook_Service.thy ===== *)
theory Webhook_Service
  imports Ledger Adapters
begin

text \<open>
  Webhook ingestion, \<^verbatim>\<open>internal/service/webhook.go\<close>: signature and freshness checks, the
  idempotency record, and the handlers of capture, failure and refund events, which change the
  payment and post to the ledger in one transaction. The JSON decoder, the RFC 3339 parser and the
  name-based UUID of a payload are library functions and come as a record.
\<close>

section \<open>Library functions\<close>

record web_lib =
  wl_decode :: "string \<Rightarrow> json option"
  wl_rfc3339 :: "string \<Rightarrow> time option"
  wl_sha1_uuid :: "string \<Rightarrow> string"

text \<open>\<^verbatim>\<open>json.Unmarshal\<close> into a map: only an object or \<^verbatim>\<open>null\<close> is accepted.\<close>

definition decode_map :: "web_lib \<Rightarrow> string \<Rightarrow> json_obj option" where
  "decode_map lib payload =
     (case wl_decode lib payload of
        Some (JObj kvs) \<Rightarrow> Some kvs
      | Some JNull \<Rightarrow> Some []
      | _ \<Rightarrow> None)"

section \<open>Reading a payload\<close>

fun lookup_object :: "json_obj \<Rightarrow> string list \<Rightarrow> json_obj option" where
  "lookup_object obj [] = Some obj"
| "lookup_object obj (k # ks) =
     (case as_object (json_get obj k) of None \<Rightarrow> None | Some inner \<Rightarrow> lookup_object inner ks)"

definition lookup_string :: "json_obj \<Rightarrow> string list \<Rightarrow> string \<Rightarrow> string option" where
  "lookup_string obj path key =
     (case lookup_object obj path of None \<Rightarrow> None | Some inner \<Rightarrow> as_string (json_get inner key))"

definition lookup_float :: "json_obj \<Rightarrow> string list \<Rightarrow> string \<Rightarrow> rat option" where
  "lookup_float obj path key =
     (case lookup_object obj path of None \<Rightarrow> None | Some inner \<Rightarrow> as_float (json_get inner key))"

definition extractPSPPaymentID :: "web_lib \<Rightarrow> string \<Rightarrow> string \<Rightarrow> string" where
  "extractPSPPaymentID lib psp payload =
     (case decode_map lib payload of
        None \<Rightarrow> []
      | Some data \<Rightarrow>
          let found =
            (if psp = ''stripe'' then lookup_string data [''data'', ''object''] ''id''
             else if psp = ''razorpay'' then lookup_string data [''payload'', ''payment'', ''entity''] ''id''
             else if psp = ''mock'' then lookup_string data [] ''payment_id''
             else None)
          in case found of Some i \<Rightarrow> i | None \<Rightarrow> [])"

definition extractRefundAmount :: "json_obj \<Rightarrow> int64" where
  "extractRefundAmount data =
     (case lookup_float data [''data'', ''object''] ''amount'' of
        Some amount \<Rightarrow> float_to_int64 amount
      | None \<Rightarrow>
          (case lookup_float data [''payload'', ''refund'', ''entity''] ''amount'' of
             Some amount \<Rightarrow> float_to_int64 amount
           | None \<Rightarrow>
               (case lookup_float data [] ''amount'' of
                  Some amount \<Rightarrow> float_to_int64 amount
                | None \<Rightarrow> 0)))"

definition nilIfEmpty :: "string \<Rightarrow> string option" where
  "nilIfEmpty s = (if s = [] then None else Some s)"

section \<open>Freshness\<close>

definition webhookMaxAge :: duration where "webhookMaxAge = 5 * minute"

definition epoch_field :: "json_obj \<Rightarrow> string \<Rightarrow> time option" where
  "epoch_field data key =
     (case as_float (json_get data key) of
        Some x \<Rightarrow> if 0 < x then Some (sint (float_to_int64 x) * second) else None
      | None \<Rightarrow> None)"

definition rfc3339_field :: "web_lib \<Rightarrow> json_obj \<Rightarrow> string \<Rightarrow> time option" where
  "rfc3339_field lib data key =
     (case as_string (json_get data key) of
        Some ts \<Rightarrow> if ts \<noteq> [] then wl_rfc3339 lib ts else None
      | None \<Rightarrow> None)"

text \<open>Each format is tried while the event time is still the zero time.\<close>

definition try_time :: "time \<Rightarrow> time option \<Rightarrow> time" where
  "try_time t found = (if t = zero_time then (case found of Some t' \<Rightarrow> t' | None \<Rightarrow> t) else t)"

definition event_time :: "web_lib \<Rightarrow> json_obj \<Rightarrow> time" where
  "event_time lib data =
     try_time (try_time (try_time zero_time (epoch_field data ''created''))
       (epoch_field data ''created_at'')) (rfc3339_field lib data ''timestamp'')"

definition validateWebhookFreshness :: "web_lib \<Rightarrow> time \<Rightarrow> string \<Rightarrow> err option" where
  "validateWebhookFreshness lib now payload =
     (case decode_map lib payload of
        None \<Rightarrow> None
      | Some data \<Rightarrow>
          let eventTime = event_time lib data; age = now - eventTime in
          if eventTime = zero_time then None
          else if age > webhookMaxAge then Some (StaleWebhook age)
          else if age < - minute then Some (FutureWebhook (- age))
          else None)"

section \<open>Statements on webhook events\<close>

definition webhook_by_key :: "db \<Rightarrow> string \<Rightarrow> webhook_event option" where
  "webhook_by_key d key = find (\<lambda>w. we_IdempotencyKey w = key) (webhook_events d)"

definition payment_by_psp :: "db \<Rightarrow> string \<Rightarrow> string \<Rightarrow> payment_row option" where
  "payment_by_psp d psp pspID =
     find (\<lambda>r. pay_psp r = psp \<and> pay_psp_payment_id r = Some pspID) (payments d)"

text \<open>The payload column is \<^verbatim>\<open>JSONB\<close>: a payload that is not JSON is rejected.\<close>

definition insert_webhook :: "web_lib \<Rightarrow> webhook_event \<Rightarrow> unit tx" where
  "insert_webhook lib w d =
     (if wl_decode lib (we_RawPayload w) = None then Inl (ExternalErr ''invalid input syntax for type json'')
      else if list_ex (\<lambda>x. we_ID x = we_ID w) (webhook_events d)
      then Inl (constraint_error ''webhook_events_pkey'')
      else if webhook_by_key d (we_IdempotencyKey w) \<noteq> None
      then Inl (constraint_error ''webhook_events_idempotency_key_key'')
      else Inr ((), d\<lparr>webhook_events := webhook_events d @ [w]\<rparr>))"

definition update_webhook :: "string \<Rightarrow> (webhook_event \<Rightarrow> webhook_event) \<Rightarrow> unit tx" where
  "update_webhook wid f d =
     Inr ((), d\<lparr>webhook_events := update_where (\<lambda>w. we_ID w = wid) f (webhook_events d)\<rparr>)"

section \<open>Posting an entry inside the transaction\<close>

text \<open>The call's position in the handler numbers its statements.\<close>

definition postEntryInTx ::
  "(site \<Rightarrow> err option) \<Rightarrow> nat \<Rightarrow> string \<Rightarrow> string \<Rightarrow> string \<Rightarrow> int64 \<Rightarrow> int64 \<Rightarrow> string \<Rightarrow> string \<Rightarrow>
   time \<Rightarrow> unit tx" where
  "postEntryInTx flt i entryID txID accountCode debit credit refID desc now =
     bindT (ctxT (''locking account '' @ accountCode) (at_site flt (LockAccount i) (select_account accountCode))) (\<lambda>acc.
     let newBalance = new_balance (la_AccountType acc) (la_CurrentBalance acc) debit credit in
     bindT (at_site flt (UpdateAccount i) (update_balance (la_ID acc) newBalance)) (\<lambda>_.
     at_site flt (InsertEntry i) (insert_ledger_entry
       \<lparr>le_ID = entryID, le_TransactionID = txID, le_AccountID = la_ID acc, le_Debit = debit,
        le_Credit = credit, le_RunningBalance = newBalance, le_Description = desc,
        le_ReferenceID = refID, le_CreatedAt = now\<rparr>)))"

section \<open>The handlers\<close>

text \<open>
  Each handler is one transaction; it uses the environment's row 1, the identifiers from 1 on and
  the clock reading 1. Returning early rolls the transaction back, which changes nothing because
  nothing was written.
\<close>

definition webhook_transition :: "env \<Rightarrow> payment_row \<Rightarrow> payment_status \<Rightarrow> string \<Rightarrow> state_transition" where
  "webhook_transition env p to reason =
     \<lparr>tr_ID = e_uuid env 1, tr_PaymentID = pay_id p, tr_FromStatus = Some (pay_status p),
      tr_ToStatus = to, tr_Reason = reason, tr_TriggeredBy = ''webhook'', tr_CreatedAt = e_now env 1\<rparr>"

definition webhook_status_row :: "env \<Rightarrow> payment_status \<Rightarrow> payment_row \<Rightarrow> payment_row" where
  "webhook_status_row env to r = r\<lparr>pay_status := to, pay_updated_at := e_now env 1\<rparr>"

definition webhook_ledger_tx :: "env \<Rightarrow> string \<Rightarrow> string \<Rightarrow> ledger_transaction" where
  "webhook_ledger_tx env pid ty =
     \<lparr>lt_ID = e_uuid env 2, lt_PaymentID = Some pid, lt_TransactionType = ty,
      lt_Status = TxStatusPosted, lt_CreatedAt = e_now env 1, lt_PostedAt = Some (e_now env 1)\<rparr>"

definition capture_webhook_tx :: "env \<Rightarrow> string \<Rightarrow> unit tx" where
  "capture_webhook_tx env paymentID =
     (let flt = e_fault env 1; now = e_now env 1; txID = e_uuid env 2 in
      bindT (ctxT ''begin tx'' (callT flt Begin)) (\<lambda>_.
      bindT (ctxT ''locking payment'' (at_site flt LockPayment (select_payment paymentID))) (\<lambda>p.
      if pay_status p = PaymentStatusCaptured then returnT ()
      else case ValidateTransition (pay_status p) PaymentStatusCaptured of
        Some e \<Rightarrow> failT (Wrapped ''invalid state for capture'' e)
      | None \<Rightarrow>
          bindT (change_status flt (Wrapped ''updating payment status'') (Wrapped ''recording transition'')
                   paymentID (webhook_status_row env PaymentStatusCaptured)
                   (webhook_transition env p PaymentStatusCaptured ''Capture confirmed by PSP webhook'')) (\<lambda>_.
          bindT (ctxT ''inserting ledger tx'' (at_site flt InsertLedgerTx
                   (insert_ledger_tx (webhook_ledger_tx env paymentID ''payment_capture'')))) (\<lambda>_.
          bindT (ctxT ''debit entry'' (postEntryInTx flt 0 (e_uuid env 3) txID AccPSPSettlement
                   (pay_amount p) 0 paymentID ''Payment captured'' now)) (\<lambda>_.
          bindT (ctxT ''credit entry'' (postEntryInTx flt 1 (e_uuid env 4) txID AccMerchantPayable
                   0 (pay_amount p) paymentID ''Payment captured'' now)) (\<lambda>_.
          ctxT ''commit capture tx'' (callT flt Commit)))))))) "

definition processCaptureWebhook :: "env \<Rightarrow> string \<Rightarrow> db \<Rightarrow> (err + unit) \<times> db" where
  "processCaptureWebhook env paymentID d =
     (if paymentID = [] then (Inl (Errorf ''cannot process capture: no internal payment ID''), d)
      else run_tx (capture_webhook_tx env paymentID) d)"

definition failure_webhook_tx :: "env \<Rightarrow> string \<Rightarrow> unit tx" where
  "failure_webhook_tx env paymentID =
     (let flt = e_fault env 1 in
      bindT (callT flt Begin) (\<lambda>_.
      bindT (at_site flt LockPayment (select_payment paymentID)) (\<lambda>p.
      if IsTerminal (pay_status p) then returnT ()
      else case ValidateTransition (pay_status p) PaymentStatusFailed of
        Some e \<Rightarrow> failT e
      | None \<Rightarrow>
          bindT (change_status flt id id paymentID (webhook_status_row env PaymentStatusFailed)
                   (webhook_transition env p PaymentStatusFailed ''Payment failed per PSP webhook'')) (\<lambda>_.
          callT flt Commit))))"

definition processFailureWebhook :: "env \<Rightarrow> string \<Rightarrow> db \<Rightarrow> (err + unit) \<times> db" where
  "processFailureWebhook env paymentID d =
     (if paymentID = [] then (Inr (), d) else run_tx (failure_webhook_tx env paymentID) d)"

definition webhook_refund_status :: "int64 \<Rightarrow> int64 \<Rightarrow> payment_status" where
  "webhook_refund_status refundAmount totalAmount =
     (if refundAmount <s totalAmount then PaymentStatusPartiallyRefunded else PaymentStatusRefunded)"

definition refund_webhook_tx :: "env \<Rightarrow> string \<Rightarrow> int64 \<Rightarrow> unit tx" where
  "refund_webhook_tx env paymentID refundAmount =
     (let flt = e_fault env 1; now = e_now env 1; txID = e_uuid env 2 in
      bindT (callT flt Begin) (\<lambda>_.
      bindT (at_site flt LockPayment (select_payment paymentID)) (\<lambda>p.
      let newStatus = webhook_refund_status refundAmount (pay_amount p) in
      case ValidateTransition (pay_status p) newStatus of
        Some e \<Rightarrow> failT e
      | None \<Rightarrow>
          bindT (change_status flt id id paymentID (webhook_status_row env newStatus)
                   (webhook_transition env p newStatus ''Refund confirmed by PSP webhook'')) (\<lambda>_.
          bindT (at_site flt InsertLedgerTx (insert_ledger_tx (webhook_ledger_tx env paymentID ''refund''))) (\<lambda>_.
          bindT (postEntryInTx flt 0 (e_uuid env 3) txID AccMerchantPayable
                   refundAmount 0 paymentID ''Refund processed'' now) (\<lambda>_.
          bindT (postEntryInTx flt 1 (e_uuid env 4) txID AccRefundExpense
                   0 refundAmount paymentID ''Refund processed'' now) (\<lambda>_.
          callT flt Commit)))))))"

definition processRefundWebhook :: "web_lib \<Rightarrow> env \<Rightarrow> string \<Rightarrow> string \<Rightarrow> db \<Rightarrow> (err + unit) \<times> db" where
  "processRefundWebhook lib env paymentID payload d =
     (if paymentID = [] then (Inr (), d)
      else case decode_map lib payload of
        None \<Rightarrow> (Inl (Wrapped ''parsing refund webhook payload'' (ExternalErr ''json'')), d)
      | Some parsed \<Rightarrow>
          let refundAmount = extractRefundAmount parsed in
          if refundAmount \<le>s 0 then (Inl (Errorf ''invalid refund amount in webhook payload''), d)
          else run_tx (refund_webhook_tx env paymentID refundAmount) d)"

definition process_event ::
  "web_lib \<Rightarrow> env \<Rightarrow> string \<Rightarrow> string \<Rightarrow> string \<Rightarrow> db \<Rightarrow> (err + unit) \<times> db" where
  "process_event lib env eventType paymentID payload d =
     (if eventType = ''payment.captured'' \<or> eventType = ''payment_intent.succeeded''
      then processCaptureWebhook env paymentID d
      else if eventType = ''payment.failed'' \<or> eventType = ''payment_intent.payment_failed''
      then processFailureWebhook env paymentID d
      else if eventType = ''refund.created'' \<or> eventType = ''refund.processed''
      then processRefundWebhook lib env paymentID payload d
      else (Inr (), d))"

section \<open>Ingestion\<close>

definition idempotency_key :: "web_lib \<Rightarrow> string \<Rightarrow> string \<Rightarrow> string \<Rightarrow> string" where
  "idempotency_key lib psp eventType payload =
     psp @ '':'' @ eventType @ '':'' @ wl_sha1_uuid lib payload"

text \<open>A failed lookup of the payment is treated like no match.\<close>

definition find_internal_payment :: "env \<Rightarrow> string \<Rightarrow> string \<Rightarrow> db \<Rightarrow> string" where
  "find_internal_payment env psp pspPaymentID d =
     (if e_fault env 0 FindPaymentByPSP \<noteq> None then []
      else case payment_by_psp d psp pspPaymentID of None \<Rightarrow> [] | Some r \<Rightarrow> pay_id r)"

definition new_webhook ::
  "web_lib \<Rightarrow> env \<Rightarrow> string \<Rightarrow> string \<Rightarrow> string \<Rightarrow> string \<Rightarrow> string \<Rightarrow> webhook_event" where
  "new_webhook lib env psp eventType payload pspPaymentID internalPaymentID =
     \<lparr>we_ID = e_uuid env 0, we_PSP = psp, we_EventType = eventType, we_RawPayload = payload,
      we_Signature = ''verified'', we_PSPPaymentID = pspPaymentID,
      we_InternalPaymentID = nilIfEmpty internalPaymentID, we_Status = WebhookStatusProcessing,
      we_IdempotencyKey = idempotency_key lib psp eventType payload, we_ProcessedAt = None,
      we_ErrorMessage = None, we_CreatedAt = e_now env 0\<rparr>"

definition finish_webhook :: "env \<Rightarrow> err + unit \<Rightarrow> db \<Rightarrow> db" where
  "finish_webhook env processErr d =
     (case at_site (e_fault env 0) UpdateWebhook (update_webhook (e_uuid env 0) (\<lambda>w.
          w\<lparr>we_Status := (case processErr of Inl _ \<Rightarrow> WebhookStatusFailed | Inr _ \<Rightarrow> WebhookStatusProcessed),
            we_ErrorMessage := nilIfEmpty (case processErr of Inl e \<Rightarrow> Error e | Inr _ \<Rightarrow> []),
            we_ProcessedAt := Some (e_now env 0)\<rparr>)) d of
        Inl _ \<Rightarrow> d
      | Inr (_, d') \<Rightarrow> d')"

definition ingestWebhookInternal ::
  "web_lib \<Rightarrow> (string \<rightharpoonup> 'w psp_adapter) \<Rightarrow> env \<Rightarrow> string \<Rightarrow> string \<Rightarrow> string \<Rightarrow> string \<Rightarrow> bool \<Rightarrow>
   db \<Rightarrow> (err + unit) \<times> db" where
  "ingestWebhookInternal lib adps env psp eventType payload signature skipSigVerify d =
     (case adps psp of
        None \<Rightarrow> (Inl (UnknownPSP psp), d)
      | Some pspAdapter \<Rightarrow>
          (case (if skipSigVerify then Inr ()
                 else andThen (mapErr (Wrapped ''signature verification failed'')
                                 (guardE (ad_VerifyWebhookSignature pspAdapter payload signature))) (\<lambda>_.
                      mapErr (Wrapped ''webhook replay rejected'')
                        (guardE (validateWebhookFreshness lib (e_now env 0) payload)))) of
             Inl e \<Rightarrow> (Inl e, d)
           | Inr _ \<Rightarrow>
               (case e_fault env 0 FindWebhook of
                  Some e \<Rightarrow> (Inl (Wrapped ''checking duplicate webhook'' e), d)
                | None \<Rightarrow>
                    if webhook_by_key d (idempotency_key lib psp eventType payload) \<noteq> None
                    then (Inr (), d)
                    else
                      let pspPaymentID = extractPSPPaymentID lib psp payload;
                          internalPaymentID = find_internal_payment env psp pspPaymentID d
                      in case at_site (e_fault env 0) InsertWebhook (insert_webhook lib
                                (new_webhook lib env psp eventType payload pspPaymentID internalPaymentID)) d of
                           Inl e \<Rightarrow> (Inl (Wrapped ''inserting webhook event'' e), d)
                         | Inr (_, d1) \<Rightarrow>
                             (case process_event lib env eventType internalPaymentID payload d1 of
                                (processErr, d2) \<Rightarrow> (processErr, finish_webhook env processErr d2)))))"

definition IngestWebhook ::
  "web_lib \<Rightarrow> (string \<rightharpoonup> 'w psp_adapter) \<Rightarrow> env \<Rightarrow> string \<Rightarrow> string \<Rightarrow> string \<Rightarrow> string \<Rightarrow> db \<Rightarrow> (err + unit) \<times> db" where
  "IngestWebhook lib adps env psp eventType payload signature d =
     ingestWebhookInternal lib adps env psp eventType payload signature False d"

definition IngestWebhookRetry ::
  "web_lib \<Rightarrow> (string \<rightharpoonup> 'w psp_adapter) \<Rightarrow> env \<Rightarrow> string \<Rightarrow> string \<Rightarrow> string \<Rightarrow> db \<Rightarrow> (err + unit) \<times> db" where
  "IngestWebhookRetry lib adps env psp eventType payload d =
     (case adps psp of
        None \<Rightarrow> (Inl (UnknownPSP psp), d)
      | Some _ \<Rightarrow> ingestWebhookInternal lib adps env psp eventType payload [] True d)"

section \<open>The handler posts like the ledger service\<close>

definition line_of :: "string \<times> int64 \<times> int64 \<Rightarrow> string \<Rightarrow> string \<Rightarrow> entry_line" where
  "line_of p refID desc =
     \<lparr>el_AccountCode = fst p, el_Debit = fst (snd p), el_Credit = snd (snd p), el_Description = desc,
      el_ReferenceID = refID\<rparr>"

lemma postEntryInTx_iff:
  "postEntryInTx (e_fault env 0) i (e_uuid env (i + 1)) tid code debit credit refID desc (e_now env 0) d = Inr ((), d')
   \<longleftrightarrow> post_entry env tid (i, line_of (code, debit, credit) refID desc) d = Inr ((), d')"
  by (simp add: postEntryInTx_def post_entry_def lock_account_def line_of_def Let_def result_simps mapErr_Inr_iff)

text \<open>The environment a handler gives to the ledger: its clock, its faults, its identifiers.\<close>

definition ledger_env :: "env \<Rightarrow> env" where
  "ledger_env env =
     env\<lparr>e_now := (\<lambda>_. e_now env 1), e_uuid := (\<lambda>n. e_uuid env (n + 2)), e_fault := (\<lambda>_. e_fault env 1)\<rparr>"

definition webhook_post :: "env \<Rightarrow> string \<Rightarrow> string \<Rightarrow> nat \<times> string \<times> int64 \<times> int64 \<Rightarrow> unit tx" where
  "webhook_post env refID desc = (\<lambda>(i, code, debit, credit).
     postEntryInTx (e_fault env 1) i (e_uuid env (i + 3)) (e_uuid env 2) code debit credit refID desc (e_now env 1))"

lemma webhook_post_iff:
  "webhook_post env refID desc (i, l) d = Inr ((), d') \<longleftrightarrow>
     post_entry (ledger_env env) (e_uuid env 2) (i, line_of l refID desc) d = Inr ((), d')"
  using postEntryInTx_iff [of "ledger_env env" i "e_uuid env 2" "fst l" "fst (snd l)" "snd (snd l)" refID desc d d']
  by (simp add: webhook_post_def ledger_env_def case_prod_beta numeral_3_eq_3)

interpretation webhook_post: entry_poster "webhook_post env refID desc" "e_uuid env 2" "\<lambda>(i, code, a). a"
  for env refID desc
proof unfold_locales
  fix p :: "nat \<times> string \<times> int64 \<times> int64" and d d' u
  assume post: "webhook_post env refID desc p d = Inr (u, d')"
  obtain i code a b where p: "p = (i, code, a, b)" by (metis surj_pair)
  from post show "books_step (e_uuid env 2) (fst (case p of (i, code, a) \<Rightarrow> a)) (snd (case p of (i, code, a) \<Rightarrow> a)) d d'"
    by (auto simp: p webhook_post_iff line_of_def dest!: post_entry_step)
qed

lemma forT_map:
  assumes "\<And>p d d'. f p d = Inr ((), d') \<longleftrightarrow> g (h p) d = Inr ((), d')"
  shows "forT f ps d = Inr ((), d') \<longleftrightarrow> forT g (map h ps) d = Inr ((), d')"
  by (induction ps arbitrary: d) (auto simp: result_simps assms)

section \<open>What the handlers do\<close>

lemma forT_two: "forT f [p, q] d = Inr ((), d') \<longleftrightarrow> (\<exists>d1. f p d = Inr ((), d1) \<and> f q d1 = Inr ((), d'))"
  by (simp add: result_simps)

lemma select_payment_Inr [result_simps]:
  "select_payment pid d = Inr x \<longleftrightarrow> payment_by_id d pid = Some (fst x) \<and> snd x = d"
  by (cases x) (auto simp: select_payment_def split: option.split)

text \<open>The part the capture and refund handlers share: a status change and two balanced entries.\<close>

definition moved_and_posted ::
  "env \<Rightarrow> payment_row \<Rightarrow> payment_status \<Rightarrow> string \<Rightarrow> string \<Rightarrow> string \<Rightarrow> string \<Rightarrow> string \<Rightarrow> int64 \<Rightarrow> db \<Rightarrow> db \<Rightarrow> bool" where
  "moved_and_posted env p to reason ty debited credited desc amount d d' \<longleftrightarrow>
     CanTransition (pay_status p) to \<and>
     (\<exists>w1 w2 d1 d2. change_status (e_fault env 1) w1 w2 (pay_id p) (webhook_status_row env to)
          (webhook_transition env p to reason) d = Inr ((), d1)
      \<and> insert_ledger_tx (webhook_ledger_tx env (pay_id p) ty) d1 = Inr ((), d2)
      \<and> forT (webhook_post env (pay_id p) desc) [(0, debited, amount, 0), (1, credited, 0, amount)] d2 = Inr ((), d')
      \<and> e_fault env 1 Begin = None \<and> e_fault env 1 InsertLedgerTx = None \<and> e_fault env 1 Commit = None)"

lemma capture_webhook_outcome:
  assumes "capture_webhook_tx env pid d = Inr (u, d')"
  shows "\<exists>p. payment_by_id d pid = Some p \<and> pay_id p = pid \<and>
    (pay_status p = PaymentStatusCaptured \<and> d' = d \<or>
     moved_and_posted env p PaymentStatusCaptured ''Capture confirmed by PSP webhook'' ''payment_capture''
       AccPSPSettlement AccMerchantPayable ''Payment captured'' (pay_amount p) d d')"
proof -
  from assms obtain p where p: "payment_by_id d pid = Some p" and pid: "pay_id p = pid"
    and rest: "pay_status p = PaymentStatusCaptured \<and> d' = d \<or>
      pay_status p \<noteq> PaymentStatusCaptured \<and> capture_webhook_tx env pid d = Inr ((), d')"
    by (auto simp: capture_webhook_tx_def Let_def result_simps dest: payment_by_id_SomeD split: if_splits)
  show ?thesis
  proof (cases "pay_status p = PaymentStatusCaptured")
    case True
    with p pid rest show ?thesis by blast
  next
    case False
    with rest have run: "capture_webhook_tx env pid d = Inr ((), d')" by simp
    have "ValidateTransition (pay_status p) PaymentStatusCaptured = None"
      by (cases "ValidateTransition (pay_status p) PaymentStatusCaptured")
        (use run p False in \<open>auto simp: capture_webhook_tx_def Let_def result_simps\<close>)
    then have legal: "CanTransition (pay_status p) PaymentStatusCaptured"
      and legal': "ValidateTransition (pay_status p) PaymentStatusCaptured = None" by simp_all
    from legal' run p pid False legal have "moved_and_posted env p PaymentStatusCaptured
       ''Capture confirmed by PSP webhook'' ''payment_capture''
       AccPSPSettlement AccMerchantPayable ''Payment captured'' (pay_amount p) d d'"
      unfolding moved_and_posted_def forT_two webhook_post_def
      by (auto simp: capture_webhook_tx_def Let_def result_simps simp del: ValidateTransition_None) blast
    with p pid show ?thesis by blast
  qed
qed

lemma refund_webhook_outcome:
  assumes "refund_webhook_tx env pid amount d = Inr (u, d')"
  shows "\<exists>p. payment_by_id d pid = Some p \<and> pay_id p = pid \<and>
     moved_and_posted env p (webhook_refund_status amount (pay_amount p)) ''Refund confirmed by PSP webhook''
       ''refund'' AccMerchantPayable AccRefundExpense ''Refund processed'' amount d d'"
proof -
  from assms obtain p where p: "payment_by_id d pid = Some p" and pid: "pay_id p = pid"
    by (auto simp: refund_webhook_tx_def Let_def result_simps dest: payment_by_id_SomeD)
  have "ValidateTransition (pay_status p) (webhook_refund_status amount (pay_amount p)) = None"
    by (cases "ValidateTransition (pay_status p) (webhook_refund_status amount (pay_amount p))")
      (use assms p in \<open>auto simp: refund_webhook_tx_def Let_def result_simps\<close>)
  then have legal: "CanTransition (pay_status p) (webhook_refund_status amount (pay_amount p))"
    and legal': "ValidateTransition (pay_status p) (webhook_refund_status amount (pay_amount p)) = None"
    by simp_all
  from legal' assms p pid legal show ?thesis
    unfolding moved_and_posted_def forT_two webhook_post_def
    by (auto simp: refund_webhook_tx_def Let_def result_simps simp del: ValidateTransition_None) blast
qed

lemma moved_and_posted_steps:
  assumes "moved_and_posted env p to reason ty debited credited desc amount d d'"
    and p: "payment_by_id d (pay_id p) = Some p"
  obtains d1 where "pay_step d d1" "ledger_step d1 d'"
    "d1 = d\<lparr>payments := update_where (\<lambda>x. pay_id x = pay_id p) (webhook_status_row env to) (payments d),
            payment_state_transitions := payment_state_transitions d @ [webhook_transition env p to reason]\<rparr>"
proof -
  from assms(1) obtain w1 w2 d1 d2 where legal: "CanTransition (pay_status p) to"
    and ch: "change_status (e_fault env 1) w1 w2 (pay_id p) (webhook_status_row env to)
          (webhook_transition env p to reason) d = Inr ((), d1)"
    and ins: "insert_ledger_tx (webhook_ledger_tx env (pay_id p) ty) d1 = Inr ((), d2)"
    and posts: "forT (webhook_post env (pay_id p) desc) [(0, debited, amount, 0), (1, credited, 0, amount)] d2 = Inr ((), d')"
    unfolding moved_and_posted_def by blast
  have "pay_step d d1"
    by (rule change_status_step [OF ch p])
      (use legal in \<open>simp_all add: webhook_status_row_def webhook_transition_def legal_change_def\<close>)
  moreover have "ledger_step d1 d'"
    by (rule webhook_post.posted_tx_step [OF ins _ posts]) (simp_all add: webhook_ledger_tx_def)
  moreover note change_status_Inr [OF ch]
  ultimately show thesis using that by blast
qed

lemma failure_webhook_outcome:
  assumes "failure_webhook_tx env pid d = Inr (u, d')"
  shows "d' = d \<or> pay_step d d'"
proof -
  from assms obtain p where p: "payment_by_id d pid = Some p" and pid: "pay_id p = pid"
    by (auto simp: failure_webhook_tx_def Let_def result_simps dest: payment_by_id_SomeD)
  show ?thesis
  proof (cases "IsTerminal (pay_status p)")
    case True
    with assms p show ?thesis by (auto simp: failure_webhook_tx_def Let_def result_simps)
  next
    case False
    have ok: "ValidateTransition (pay_status p) PaymentStatusFailed = None"
      by (cases "ValidateTransition (pay_status p) PaymentStatusFailed")
        (use assms p False in \<open>auto simp: failure_webhook_tx_def Let_def result_simps\<close>)
    with assms p False have ch: "change_status (e_fault env 1) id id pid
        (webhook_status_row env PaymentStatusFailed)
        (webhook_transition env p PaymentStatusFailed ''Payment failed per PSP webhook'') d = Inr ((), d')"
      by (auto simp: failure_webhook_tx_def Let_def result_simps simp del: ValidateTransition_None)
    from ok have legal: "CanTransition (pay_status p) PaymentStatusFailed" by simp
    have "pay_step d d'"
      by (rule change_status_step [OF ch p])
        (use legal pid in \<open>simp_all add: webhook_status_row_def webhook_transition_def legal_change_def\<close>)
    then show ?thesis ..
  qed
qed

text \<open>
  One step of the books as a whole: a payment step or a ledger step. Everything the handlers do is
  a sequence of them.
\<close>

inductive core_step :: "db \<Rightarrow> db \<Rightarrow> bool" where
  core_pay: "pay_step d d' \<Longrightarrow> core_step d d'"
| core_ledger: "ledger_step d d' \<Longrightarrow> core_step d d'"

definition core_inv :: "db \<Rightarrow> bool" where
  "core_inv d \<longleftrightarrow> payments_inv d \<and> ledger_inv d"

lemma core_step_inv: "core_step d d' \<Longrightarrow> core_inv d \<Longrightarrow> core_inv d'"
proof (induction rule: core_step.induct)
  case (core_pay d d')
  from pay_step_frame [OF core_pay(1)] have "ledger_inv d' = ledger_inv d" by (intro ledger_inv_cong) auto
  with core_pay pay_step_inv show ?case by (auto simp: core_inv_def)
next
  case (core_ledger d d')
  from ledger_step_frame [OF core_ledger(1)] have "payments_inv d' = payments_inv d"
    by (intro payments_inv_cong) auto
  with core_ledger ledger_step_inv show ?case by (auto simp: core_inv_def)
qed

lemma core_step_webhooks: "core_step d d' \<Longrightarrow> webhook_events d' = webhook_events d"
  by (induction rule: core_step.induct) (auto dest!: pay_step_frame ledger_step_frame)

lemma core_steps_inv: "core_step\<^sup>*\<^sup>* d d' \<Longrightarrow> core_inv d \<Longrightarrow> core_inv d' \<and> webhook_events d' = webhook_events d"
  by (induction rule: rtranclp_induct) (auto dest: core_step_inv core_step_webhooks)

lemma process_event_steps:
  assumes "process_event lib env eventType pid payload d = (res, d')"
  shows "core_step\<^sup>*\<^sup>* d d' \<and> (isInl res \<longrightarrow> d' = d)"
proof -
  have two: "core_step\<^sup>*\<^sup>* d d'"
    if "moved_and_posted env p to reason ty debited credited desc amount d d'"
      and "payment_by_id d pid = Some p" "pay_id p = pid"
    for p to reason ty debited credited desc amount d'
  proof -
    from that have "payment_by_id d (pay_id p) = Some p" by simp
    from moved_and_posted_steps [OF that(1) this] obtain d1 where "pay_step d d1" "ledger_step d1 d'" .
    then show ?thesis by (meson core_pay core_ledger converse_rtranclp_into_rtranclp rtranclp.rtrancl_refl)
  qed
  have cap: "core_step\<^sup>*\<^sup>* d d'" if "capture_webhook_tx env pid d = Inr (u, d')" for u d'
    using capture_webhook_outcome [OF that] two by auto
  have ref: "core_step\<^sup>*\<^sup>* d d'" if "refund_webhook_tx env pid a d = Inr (u, d')" for u d' a
    using refund_webhook_outcome [OF that] two by auto
  have fai: "core_step\<^sup>*\<^sup>* d d'" if "failure_webhook_tx env pid d = Inr (u, d')" for u d'
    using failure_webhook_outcome [OF that] by (auto intro: r_into_rtranclp [of core_step, OF core_pay])
  have run: "core_step\<^sup>*\<^sup>* d d' \<and> (isInl res \<longrightarrow> d' = d)"
    if "run_tx m d = (res, d')" and "\<And>u d'. m d = Inr (u, d') \<Longrightarrow> core_step\<^sup>*\<^sup>* d d'"
    for m :: "unit tx" and res d'
    using that by (cases "m d") (auto simp: run_tx_def)
  have refund: "core_step\<^sup>*\<^sup>* d d' \<and> (isInl res \<longrightarrow> d' = d)"
    if "processRefundWebhook lib env pid payload d = (res, d')" for res d'
  proof (cases "decode_map lib payload")
    case (Some parsed)
    with that run ref show ?thesis
      by (auto simp: processRefundWebhook_def Let_def split: if_splits)
  qed (use that in \<open>auto simp: processRefundWebhook_def split: if_splits\<close>)
  have capture: "core_step\<^sup>*\<^sup>* d d' \<and> (isInl res \<longrightarrow> d' = d)"
    if "processCaptureWebhook env pid d = (res, d')" for res d'
    using that run cap by (auto simp: processCaptureWebhook_def split: if_splits)
  have failure: "core_step\<^sup>*\<^sup>* d d' \<and> (isInl res \<longrightarrow> d' = d)"
    if "processFailureWebhook env pid d = (res, d')" for res d'
    using that run fai by (auto simp: processFailureWebhook_def split: if_splits)
  from assms capture failure refund show ?thesis
    by (auto simp: process_event_def split: if_splits)
qed

section \<open>Ingestion as a whole\<close>

lemma core_inv_cong:
  assumes "payments d' = payments d" "payment_state_transitions d' = payment_state_transitions d"
    "ledger_accounts d' = ledger_accounts d" "ledger_entries d' = ledger_entries d"
    "ledger_transactions d' = ledger_transactions d"
  shows "core_inv d' = core_inv d"
  using assms payments_inv_cong [of d' d] ledger_inv_cong [of d' d] by (simp add: core_inv_def)

lemma finish_webhook_frame [simp]:
  "payments (finish_webhook env r d) = payments d"
  "payment_state_transitions (finish_webhook env r d) = payment_state_transitions d"
  "ledger_accounts (finish_webhook env r d) = ledger_accounts d"
  "ledger_entries (finish_webhook env r d) = ledger_entries d"
  "ledger_transactions (finish_webhook env r d) = ledger_transactions d"
  by (simp_all add: finish_webhook_def at_site_def update_webhook_def split: option.split)

lemma finish_webhook_keys:
  "map we_IdempotencyKey (webhook_events (finish_webhook env r d)) = map we_IdempotencyKey (webhook_events d)"
  by (simp add: finish_webhook_def at_site_def update_webhook_def map_update_where_same split: option.split)

lemma webhook_by_key_None:
  "webhook_by_key d key = None \<longleftrightarrow> key \<notin> set (map we_IdempotencyKey (webhook_events d))"
  by (auto simp: webhook_by_key_def find_None_iff)

lemma insert_webhook_Inr:
  assumes "insert_webhook lib w d = Inr (u, d')"
  shows "d' = d\<lparr>webhook_events := webhook_events d @ [w]\<rparr>"
  using assms by (auto simp: insert_webhook_def split: if_splits)

text \<open>An ingestion is rejected, or a duplicate, or it records the event and processes it once.\<close>

lemma ingest_outcome:
  assumes "ingestWebhookInternal lib adps env psp ty payload sig skip d = (res, d')"
  shows "d' = d \<and> (isInl res \<or> webhook_by_key d (idempotency_key lib psp ty payload) \<noteq> None)
    \<or> webhook_by_key d (idempotency_key lib psp ty payload) = None \<and>
      (\<exists>w pid d2. we_IdempotencyKey w = idempotency_key lib psp ty payload
        \<and> pid = find_internal_payment env psp (extractPSPPaymentID lib psp payload) d
        \<and> process_event lib env ty pid payload (d\<lparr>webhook_events := webhook_events d @ [w]\<rparr>) = (res, d2)
        \<and> d' = finish_webhook env res d2)"
proof (cases "adps psp")
  case None
  with assms show ?thesis by (auto simp: ingestWebhookInternal_def)
next
  case (Some adp)
  define chk where "chk = (if skip then Inr ()
                 else andThen (mapErr (Wrapped ''signature verification failed'')
                                 (guardE (ad_VerifyWebhookSignature adp payload sig))) (\<lambda>_.
                      mapErr (Wrapped ''webhook replay rejected'')
                        (guardE (validateWebhookFreshness lib (e_now env 0) payload))))"
  let ?key = "idempotency_key lib psp ty payload"
  define pspID where "pspID = extractPSPPaymentID lib psp payload"
  define pid where "pid = find_internal_payment env psp pspID d"
  define w where "w = new_webhook lib env psp ty payload pspID pid"
  have key: "we_IdempotencyKey w = ?key" by (simp add: w_def new_webhook_def)
  note unfolded = assms [unfolded ingestWebhookInternal_def Some option.case Let_def,
      folded chk_def pspID_def, folded pid_def, folded w_def]
  show ?thesis
  proof (cases "isInl chk \<or> e_fault env 0 FindWebhook \<noteq> None \<or> webhook_by_key d ?key \<noteq> None")
    case True
    with unfolded show ?thesis by (auto split: sum.splits option.splits if_splits)
  next
    case False
    show ?thesis
    proof (cases "at_site (e_fault env 0) InsertWebhook (insert_webhook lib w) d")
      case (Inl e)
      with False unfolded show ?thesis by (auto simp: not_isInl)
    next
      case (Inr ud)
      then have "insert_webhook lib w d = Inr ud" by (simp add: result_simps)
      then have "snd ud = d\<lparr>webhook_events := webhook_events d @ [w]\<rparr>"
        by (cases ud) (auto dest: insert_webhook_Inr)
      with False Inr unfolded key show ?thesis
        by (cases ud) (auto simp: not_isInl pid_def pspID_def split: prod.splits)
    qed
  qed
qed

lemma ingest_keeps_inv:
  assumes inv: "core_inv d" and run: "ingestWebhookInternal lib adps env psp ty payload sig skip d = (res, d')"
  shows "core_inv d'"
  using ingest_outcome [OF run]
proof (elim disjE exE conjE)
  fix w pid d2
  assume pe: "process_event lib env ty pid payload (d\<lparr>webhook_events := webhook_events d @ [w]\<rparr>) = (res, d2)"
    and d': "d' = finish_webhook env res d2"
  have "core_inv (d\<lparr>webhook_events := webhook_events d @ [w]\<rparr>)"
    using inv core_inv_cong [of "d\<lparr>webhook_events := webhook_events d @ [w]\<rparr>" d] by simp
  with process_event_steps [OF pe] core_steps_inv have "core_inv d2" by blast
  then show ?thesis using core_inv_cong [of d' d2] by (simp add: d')
qed (use inv in auto)

lemma ingest_records_key:
  assumes run: "ingestWebhookInternal lib adps env psp ty payload sig skip d = (res, d')"
    and "\<not> isInl res \<or> d' \<noteq> d"
  shows "webhook_by_key d' (idempotency_key lib psp ty payload) \<noteq> None"
  using ingest_outcome [OF run]
proof (elim disjE conjE exE)
  fix w pid d2
  assume key: "we_IdempotencyKey w = idempotency_key lib psp ty payload"
    and pe: "process_event lib env ty pid payload (d\<lparr>webhook_events := webhook_events d @ [w]\<rparr>) = (res, d2)"
    and d': "d' = finish_webhook env res d2"
  from process_event_steps [OF pe] have "core_step\<^sup>*\<^sup>* (d\<lparr>webhook_events := webhook_events d @ [w]\<rparr>) d2" by simp
  then have "webhook_events d2 = webhook_events d @ [w]"
    by (induction rule: rtranclp_induct) (auto dest: core_step_webhooks)
  with key show ?thesis
    unfolding webhook_by_key_None d' finish_webhook_keys by simp
qed (use assms(2) in auto)

lemma ingest_known_key:
  assumes "webhook_by_key d (idempotency_key lib psp ty payload) \<noteq> None"
  shows "snd (ingestWebhookInternal lib adps env psp ty payload sig skip d) = d"
  using assms ingest_outcome [of lib adps env psp ty payload sig skip d]
  by (metis surjective_pairing)

lemma retry_known_key:
  assumes "webhook_by_key d (idempotency_key lib psp ty payload) \<noteq> None"
    and "adps psp \<noteq> None" and "e_fault env 0 FindWebhook = None"
  shows "IngestWebhookRetry lib adps env psp ty payload d = (Inr (), d)"
  using assms by (auto simp: IngestWebhookRetry_def ingestWebhookInternal_def)

section \<open>Properties of webhooks\<close>

text \<open>
  Whatever arrives at the webhook endpoint (any provider, event type, payload, signature, clock,
  database failure), payments and ledger stay in order: audit trails replay, refunded totals are
  bounded, every account balance is the fold of its entries and every ledger transaction balances.
\<close>

theorem webhook_keeps_books:
  assumes "payments_inv d" and "ledger_inv d"
  shows "payments_inv (snd (ingestWebhookInternal lib adps env psp eventType payload signature skip d))
    \<and> ledger_inv (snd (ingestWebhookInternal lib adps env psp eventType payload signature skip d))"
  using assms ingest_keeps_inv [of d, OF _ prod.collapse [symmetric]] by (simp add: core_inv_def)

text \<open>
  C6: Ingestion is idempotent: once a delivery was acknowledged, delivering the same event again, any
  number of times and under any signatures, clocks and failures, changes no table.
\<close>

theorem acknowledged_webhook_is_idempotent:
  assumes "fst (IngestWebhook lib adps env psp eventType payload signature d) = Inr ()"
  shows "foldl (\<lambda>d (env, signature, skip).
      snd (ingestWebhookInternal lib adps env psp eventType payload signature skip d))
    (snd (IngestWebhook lib adps env psp eventType payload signature d)) deliveries
   = snd (IngestWebhook lib adps env psp eventType payload signature d)"
proof -
  define d1 where "d1 = snd (IngestWebhook lib adps env psp eventType payload signature d)"
  from assms have "webhook_by_key d1 (idempotency_key lib psp eventType payload) \<noteq> None"
    unfolding d1_def IngestWebhook_def
    by (intro ingest_records_key [OF prod.collapse [symmetric]]) simp
  then have "foldl (\<lambda>d (env, signature, skip).
      snd (ingestWebhookInternal lib adps env psp eventType payload signature skip d)) d1 deliveries = d1"
    by (induction deliveries) (auto simp: ingest_known_key)
  then show ?thesis by (simp add: d1_def)
qed

text \<open>
  C26: A delivery whose signature does not verify, or whose timestamp is more than five minutes old or
  more than one minute in the future, is rejected before anything is read or written.
\<close>

theorem forged_or_stale_webhook_rejected:
  assumes "adps psp = Some adp"
    and "ad_VerifyWebhookSignature adp payload signature \<noteq> None
       \<or> (\<exists>data. decode_map lib payload = Some data \<and> event_time lib data \<noteq> zero_time
            \<and> (e_now env 0 - event_time lib data > 5 * minute
               \<or> event_time lib data - e_now env 0 > minute))"
  shows "isInl (fst (IngestWebhook lib adps env psp eventType payload signature d))
    \<and> snd (IngestWebhook lib adps env psp eventType payload signature d) = d"
proof (cases "ad_VerifyWebhookSignature adp payload signature")
  case None
  with assms(2) have "validateWebhookFreshness lib (e_now env 0) payload \<noteq> None"
    by (auto simp: validateWebhookFreshness_def webhookMaxAge_def Let_def)
  then obtain e where "validateWebhookFreshness lib (e_now env 0) payload = Some e" by auto
  with None assms(1) show ?thesis by (simp add: IngestWebhook_def ingestWebhookInternal_def)
next
  case (Some e)
  with assms(1) show ?thesis by (simp add: IngestWebhook_def ingestWebhookInternal_def)
qed

text \<open>
  A webhook whose processing failed leaves its event row and nothing else.
\<close>

lemma failed_ingest:
  assumes "IngestWebhook lib adps env psp ty payload sig d = (Inl e, d')" and "d' \<noteq> d"
  shows "webhook_by_key d' (idempotency_key lib psp ty payload) \<noteq> None"
    and "payments d' = payments d \<and> payment_state_transitions d' = payment_state_transitions d
      \<and> ledger_accounts d' = ledger_accounts d \<and> ledger_entries d' = ledger_entries d
      \<and> ledger_transactions d' = ledger_transactions d"
proof -
  note run = assms(1) [unfolded IngestWebhook_def]
  from ingest_records_key [OF run] assms(2) show "webhook_by_key d' (idempotency_key lib psp ty payload) \<noteq> None" by simp
  from ingest_outcome [OF run] assms(2) obtain w pid d2
    where "process_event lib env ty pid payload (d\<lparr>webhook_events := webhook_events d @ [w]\<rparr>) = (Inl e, d2)"
      and d': "d' = finish_webhook env (Inl e) d2" by blast
  with process_event_steps have "d2 = d\<lparr>webhook_events := webhook_events d @ [w]\<rparr>" by fastforce
  with d' show "payments d' = payments d \<and> payment_state_transitions d' = payment_state_transitions d
      \<and> ledger_accounts d' = ledger_accounts d \<and> ledger_entries d' = ledger_entries d
      \<and> ledger_transactions d' = ledger_transactions d" by simp
qed

text \<open>An event on record is acknowledged and skipped wherever it comes from.\<close>

lemma delivery_known_key:
  assumes "webhook_by_key d (idempotency_key lib psp ty payload) \<noteq> None"
  shows "snd (IngestWebhook lib adps env psp ty payload sig d) = d"
    and "snd (IngestWebhookRetry lib adps env psp ty payload d) = d"
    and "\<lbrakk>adps psp = Some adp; ad_VerifyWebhookSignature adp payload sig = None;
      validateWebhookFreshness lib (e_now env 0) payload = None; e_fault env 0 FindWebhook = None\<rbrakk>
      \<Longrightarrow> IngestWebhook lib adps env psp ty payload sig d = (Inr (), d)"
proof -
  note known = ingest_known_key [OF assms]
  show "snd (IngestWebhook lib adps env psp ty payload sig d) = d"
    unfolding IngestWebhook_def by (rule known)
  show "snd (IngestWebhookRetry lib adps env psp ty payload d) = d"
    by (simp add: IngestWebhookRetry_def known split: option.split)
  show "IngestWebhook lib adps env psp ty payload sig d = (Inr (), d)"
    if "adps psp = Some adp" "ad_VerifyWebhookSignature adp payload sig = None"
      "validateWebhookFreshness lib (e_now env 0) payload = None" "e_fault env 0 FindWebhook = None"
    using assms that by (simp add: IngestWebhook_def ingestWebhookInternal_def)
qed

section \<open>What reaches the ledger\<close>

text \<open>The balance an entry leaves on the account it names; other accounts keep theirs.\<close>

definition after_entry :: "string \<Rightarrow> int64 \<Rightarrow> int64 \<Rightarrow> ledger_account \<Rightarrow> ledger_account" where
  "after_entry code debit credit a =
     (if la_AccountCode a = code
      then a\<lparr>la_CurrentBalance := new_balance (la_AccountType a) (la_CurrentBalance a) debit credit\<rparr>
      else a)"

lemma map_if_same: "(\<And>x. x \<in> set xs \<Longrightarrow> f x = g x) \<Longrightarrow> map f xs = map g xs"
  by simp

lemma postEntryInTx_accounts:
  assumes post: "postEntryInTx flt i eid tid code debit credit refID desc now d = Inr (u, d')"
    and ids: "distinct (map la_ID (ledger_accounts d))"
    and codes: "distinct (map la_AccountCode (ledger_accounts d))"
  shows "ledger_accounts d' = map (after_entry code debit credit) (ledger_accounts d)
    \<and> chk_debit_credit \<lparr>le_ID = eid, le_TransactionID = tid, le_AccountID = [], le_Debit = debit,
        le_Credit = credit, le_RunningBalance = 0, le_Description = [], le_ReferenceID = [], le_CreatedAt = 0\<rparr>"
proof -
  from post obtain a where find: "account_by_code d code = Some a"
    and d': "ledger_accounts d' = update_where (\<lambda>x. la_ID x = la_ID a)
      (\<lambda>x. x\<lparr>la_CurrentBalance := new_balance (la_AccountType a) (la_CurrentBalance a) debit credit\<rparr>)
      (ledger_accounts d)"
    and chk: "0 <s debit \<and> credit = 0 \<or> 0 <s credit \<and> debit = 0"
    by (auto simp: postEntryInTx_def Let_def result_simps tx_defs chk_debit_credit_def
        split: option.splits if_splits)
  from find have a: "a \<in> set (ledger_accounts d)" "la_AccountCode a = code"
    by (auto simp: account_by_code_def dest: find_SomeD)
  have same: "la_ID x = la_ID a \<longleftrightarrow> x = a" "la_AccountCode x = code \<longleftrightarrow> x = a"
    if "x \<in> set (ledger_accounts d)" for x
    using that a ids codes by (auto simp: distinct_map dest: inj_onD)
  have "ledger_accounts d' = map (after_entry code debit credit) (ledger_accounts d)"
    unfolding d' update_where_def by (rule map_if_same) (use a same in \<open>auto simp: after_entry_def\<close>)
  with chk show ?thesis by (simp add: chk_debit_credit_def)
qed

lemma after_entry_keys: "la_ID (after_entry code x y a) = la_ID a" "la_AccountCode (after_entry code x y a) = la_AccountCode a"
  by (simp_all add: after_entry_def)

lemma moved_and_posted_effect:
  assumes mp: "moved_and_posted env p to reason ty debited credited desc amount d d'"
    and p: "payment_by_id d (pay_id p) = Some p" and inv: "ledger_inv d"
  shows "0 <s amount
    \<and> (\<forall>q. payment_by_id d' q =
          (if q = pay_id p then Some (webhook_status_row env to p) else payment_by_id d q))
    \<and> ledger_accounts d' =
        map (after_entry credited 0 amount \<circ> after_entry debited amount 0) (ledger_accounts d)
    \<and> map le_Debit (entries_in d' (e_uuid env 2)) = [amount, 0]
    \<and> map le_Credit (entries_in d' (e_uuid env 2)) = [0, amount]
    \<and> ledger_transactions d' = ledger_transactions d @ [webhook_ledger_tx env (pay_id p) ty]"
proof -
  from mp obtain w1 w2 d1 d2 d3 where
    ch: "change_status (e_fault env 1) w1 w2 (pay_id p) (webhook_status_row env to)
          (webhook_transition env p to reason) d = Inr ((), d1)"
    and ins: "insert_ledger_tx (webhook_ledger_tx env (pay_id p) ty) d1 = Inr ((), d2)"
    and posts: "forT (webhook_post env (pay_id p) desc) [(0, debited, amount, 0), (1, credited, 0, amount)] d2 = Inr ((), d')"
    and e1: "webhook_post env (pay_id p) desc (0, debited, amount, 0) d2 = Inr ((), d3)"
    and e2: "webhook_post env (pay_id p) desc (1, credited, 0, amount) d3 = Inr ((), d')"
    unfolding moved_and_posted_def forT_two by blast
  from change_status_Inr [OF ch] have d1: "d1 = d\<lparr>payments := update_where (\<lambda>x. pay_id x = pay_id p)
      (webhook_status_row env to) (payments d), payment_state_transitions :=
      payment_state_transitions d @ [webhook_transition env p to reason]\<rparr>" by simp
  from ins have d2: "d2 = d1\<lparr>ledger_transactions := ledger_transactions d1 @ [webhook_ledger_tx env (pay_id p) ty]\<rparr>"
    by (auto simp: insert_ledger_tx_def split: if_splits)
  have inv1: "ledger_inv d1" using inv ledger_inv_cong [of d1 d] by (simp add: d1)
  from webhook_post.posted_tx_keeps_ledger [OF inv1 ins _ posts]
  have es: "map le_Debit (entries_in d' (e_uuid env 2)) = [amount, 0]"
    "map le_Credit (entries_in d' (e_uuid env 2)) = [0, amount]"
    by (simp_all add: webhook_ledger_tx_def)
  from webhook_post.post_all_frame [OF posts] have frame: "payments d' = payments d1"
    "ledger_transactions d' = ledger_transactions d @ [webhook_ledger_tx env (pay_id p) ty]"
    by (simp_all add: d2 d1)
  have dist: "distinct (map la_ID (ledger_accounts d2))" "distinct (map la_AccountCode (ledger_accounts d2))"
    using inv by (simp_all add: d2 d1 ledger_inv_def books_inv_def)
  note p1 = postEntryInTx_accounts [OF e1 [unfolded webhook_post_def prod.case] dist]
  then have acc3: "ledger_accounts d3 = map (after_entry debited amount 0) (ledger_accounts d2)" by simp
  have dist3: "distinct (map la_ID (ledger_accounts d3))" "distinct (map la_AccountCode (ledger_accounts d3))"
    using dist by (simp_all add: acc3 comp_def after_entry_keys)
  note p2 = postEntryInTx_accounts [OF e2 [unfolded webhook_post_def prod.case] dist3]
  have "payment_by_id d' q = payment_by_id d1 q" for q by (simp add: payment_by_id_def frame)
  moreover have "payment_by_id d1 q =
      (if q = pay_id p then Some (webhook_status_row env to p) else payment_by_id d q)" for q
    using p by (simp add: d1 payment_by_id_update webhook_status_row_def)
  ultimately have rows: "payment_by_id d' q =
      (if q = pay_id p then Some (webhook_status_row env to p) else payment_by_id d q)" for q by simp
  have "ledger_accounts d' = map (after_entry credited 0 amount \<circ> after_entry debited amount 0) (ledger_accounts d)"
    using p2 acc3 by (simp add: d2 d1)
  moreover have "0 <s amount" using p1 by (auto simp: chk_debit_credit_def)
  ultimately show ?thesis using rows es frame(2) by blast
qed

text \<open>
  C5: A capture webhook for a payment that is not yet captured, once it succeeds, settles it: the
  payment becomes captured, one ledger transaction is posted that debits the settlement account and
  credits the merchant payable account by exactly the payment's amount, both balances move by it,
  and no other payment or balance changes.
\<close>

theorem capture_webhook_settles:
  assumes "ledger_inv d" and "payment_by_id d pid = Some p" and "pay_status p \<noteq> PaymentStatusCaptured"
    and "processCaptureWebhook env pid d = (Inr (), d')"
  shows "CanTransition (pay_status p) PaymentStatusCaptured \<and> 0 <s pay_amount p
    \<and> (\<forall>q. payment_by_id d' q =
          (if q = pid then Some (webhook_status_row env PaymentStatusCaptured p) else payment_by_id d q))
    \<and> ledger_accounts d' =
        map (after_entry AccMerchantPayable 0 (pay_amount p) \<circ> after_entry AccPSPSettlement (pay_amount p) 0)
          (ledger_accounts d)
    \<and> map le_Debit (entries_in d' (e_uuid env 2)) = [pay_amount p, 0]
    \<and> map le_Credit (entries_in d' (e_uuid env 2)) = [0, pay_amount p]"
proof -
  from assms(4) have "capture_webhook_tx env pid d = Inr ((), d')"
    by (auto simp: processCaptureWebhook_def run_tx_cases split: if_splits)
  from capture_webhook_outcome [OF this] assms(2,3) have pid: "pay_id p = pid"
    and mp: "moved_and_posted env p PaymentStatusCaptured ''Capture confirmed by PSP webhook''
      ''payment_capture'' AccPSPSettlement AccMerchantPayable ''Payment captured'' (pay_amount p) d d'"
    by auto
  from moved_and_posted_effect [OF mp _ assms(1)] assms(2) pid mp show ?thesis
    by (simp add: moved_and_posted_def)
qed

text \<open>
  C29: the exact effect of a successful refund webhook: the payment, which was captured or partially refunded,
  becomes partially refunded when this one refund is below its amount and refunded otherwise, whatever
  was refunded before, since its refunded total is neither read nor changed; the liability to the merchant
  goes down by the refund, the settlement account stays as it was, and the refund expense account, being
  credited, goes down too, where an expense should go up.
\<close>

theorem refund_webhook_effect:
  assumes "ledger_inv d" and "payment_by_id d pid = Some p" and "decode_map lib payload = Some parsed"
    and "processRefundWebhook lib env pid payload d = (Inr (), d')" and "pid \<noteq> []"
    and "account_by_code d AccRefundExpense = Some expense" and "la_AccountType expense = AccountTypeExpense"
    and "account_by_code d AccMerchantPayable = Some payable" and "la_AccountType payable = AccountTypeLiability"
  shows "pay_status p \<in> {PaymentStatusCaptured, PaymentStatusPartiallyRefunded} \<and> 0 <s extractRefundAmount parsed
    \<and> map_option pay_status (payment_by_id d' pid) = Some (if extractRefundAmount parsed <s pay_amount p
        then PaymentStatusPartiallyRefunded else PaymentStatusRefunded)
    \<and> map_option la_CurrentBalance (account_by_code d' AccRefundExpense) =
        Some (la_CurrentBalance expense - extractRefundAmount parsed)
    \<and> map_option la_CurrentBalance (account_by_code d' AccMerchantPayable) =
        Some (la_CurrentBalance payable - extractRefundAmount parsed)
    \<and> map_option la_CurrentBalance (account_by_code d' AccPSPSettlement) =
        map_option la_CurrentBalance (account_by_code d AccPSPSettlement)
    \<and> map_option pay_total_refunded (payment_by_id d' pid) = Some (pay_total_refunded p)"
proof -
  let ?amount = "extractRefundAmount parsed"
  from assms(3-5) have tx: "refund_webhook_tx env pid ?amount d = Inr ((), d')" and positive: "0 <s ?amount"
    by (auto simp: processRefundWebhook_def Let_def run_tx_cases int64_order split: if_splits)
  from refund_webhook_outcome [OF tx] assms(2) have pid: "pay_id p = pid"
    and mp: "moved_and_posted env p (webhook_refund_status ?amount (pay_amount p))
      ''Refund confirmed by PSP webhook'' ''refund'' AccMerchantPayable AccRefundExpense
      ''Refund processed'' ?amount d d'"
    by auto
  have status: "pay_status p \<in> {PaymentStatusCaptured, PaymentStatusPartiallyRefunded}"
    using mp by (cases "pay_status p") (auto simp: moved_and_posted_def webhook_refund_status_def split: if_splits)
  from moved_and_posted_effect [OF mp _ assms(1)] assms(2) pid
  have acc: "ledger_accounts d' = map (after_entry AccRefundExpense 0 ?amount \<circ>
      after_entry AccMerchantPayable ?amount 0) (ledger_accounts d)"
    and row: "payment_by_id d' pid = Some (webhook_status_row env (webhook_refund_status ?amount (pay_amount p)) p)"
    by simp_all
  have look: "account_by_code d' c = map_option (after_entry AccRefundExpense 0 ?amount \<circ>
      after_entry AccMerchantPayable ?amount 0) (account_by_code d c)" for c
    unfolding account_by_code_def acc by (rule find_map_key) (simp add: after_entry_keys)
  from assms(6) have "la_AccountCode expense = AccRefundExpense"
    by (auto simp: account_by_code_def dest: find_SomeD)
  moreover have "la_AccountCode a = AccPSPSettlement" if "account_by_code d AccPSPSettlement = Some a" for a
    using that by (auto simp: account_by_code_def dest: find_SomeD)
  moreover from assms(8) have "la_AccountCode payable = AccMerchantPayable"
    by (auto simp: account_by_code_def dest: find_SomeD)
  ultimately show ?thesis
    unfolding look using assms(6-9) row status positive
    by (cases "account_by_code d AccPSPSettlement")
      (auto simp: after_entry_def AccRefundExpense_def AccMerchantPayable_def AccPSPSettlement_def
        new_balance_def webhook_status_row_def webhook_refund_status_def)
qed

text \<open>
  C28: The webhook service's own posting code does what the ledger service does: the database a
  successful capture handler leaves is the one \<^verbatim>\<open>PostLedgerTransaction\<close> leaves when it is given
  the capture's two entries, after the status change.
\<close>

theorem capture_webhook_posts_like_ledger_service:
  assumes "payment_by_id d pid = Some p" and "pay_status p \<noteq> PaymentStatusCaptured" and "pid \<noteq> []"
    and "0 <s pay_amount p" and "processCaptureWebhook env pid d = (Inr (), d')"
  shows "PostLedgerTransaction (ledger_env env)
      \<lparr>pt_PaymentID = pid, pt_TransactionType = ''payment_capture'',
       pt_Entries = [line_of (AccPSPSettlement, pay_amount p, 0) pid ''Payment captured'',
                     line_of (AccMerchantPayable, 0, pay_amount p) pid ''Payment captured'']\<rparr>
      (d\<lparr>payments := update_where (\<lambda>x. pay_id x = pid) (webhook_status_row env PaymentStatusCaptured) (payments d),
         payment_state_transitions := payment_state_transitions d @
           [webhook_transition env p PaymentStatusCaptured ''Capture confirmed by PSP webhook'']\<rparr>)
    = (Inr (), d')"
proof -
  from assms(5) have "capture_webhook_tx env pid d = Inr ((), d')"
    by (auto simp: processCaptureWebhook_def run_tx_cases split: if_splits)
  from capture_webhook_outcome [OF this] assms(1,2) have pid: "pay_id p = pid"
    and "moved_and_posted env p PaymentStatusCaptured ''Capture confirmed by PSP webhook''
      ''payment_capture'' AccPSPSettlement AccMerchantPayable ''Payment captured'' (pay_amount p) d d'"
    by auto
  then obtain w1 w2 d1 d2 where
    ch: "change_status (e_fault env 1) w1 w2 pid (webhook_status_row env PaymentStatusCaptured)
          (webhook_transition env p PaymentStatusCaptured ''Capture confirmed by PSP webhook'') d = Inr ((), d1)"
    and ins: "insert_ledger_tx (webhook_ledger_tx env pid ''payment_capture'') d1 = Inr ((), d2)"
    and posts: "forT (webhook_post env pid ''Payment captured'')
        [(0, AccPSPSettlement, pay_amount p, 0), (1, AccMerchantPayable, 0, pay_amount p)] d2 = Inr ((), d')"
    and ok: "e_fault env 1 Begin = None" "e_fault env 1 InsertLedgerTx = None" "e_fault env 1 Commit = None"
    unfolding moved_and_posted_def pid by blast
  let ?lines = "[line_of (AccPSPSettlement, pay_amount p, 0) pid ''Payment captured'',
      line_of (AccMerchantPayable, 0, pay_amount p) pid ''Payment captured'']"
  have env: "e_fault (ledger_env env) 0 = e_fault env 1" "e_uuid (ledger_env env) 0 = e_uuid env 2"
    "e_now (ledger_env env) 0 = e_now env 1"
    by (simp_all add: ledger_env_def numeral_2_eq_2)
  from posts have body: "forT (post_entry (ledger_env env) (e_uuid env 2)) (enumerate 0 ?lines) d2 = Inr ((), d')"
    by (auto simp: result_simps webhook_post_iff)
  from assms(4) have "validate_entries ?lines 0 0 = Inr (pay_amount p, pay_amount p)"
    by (simp add: line_of_def int64_order)
  moreover note change_status_Inr [OF ch]
  ultimately show ?thesis
    using ins body ok assms(3)
    by (simp add: PostLedgerTransaction_def env Let_def run_tx_def bindT_def ctxT_def callT_def at_site_def
        returnT_def webhook_ledger_tx_def)
qed

section \<open>Concrete deliveries\<close>

definition demo_row :: "payment_status \<Rightarrow> payment_row" where
  "demo_row st =
     \<lparr>pay_id = ''p1'', pay_merchant_id = ''m'', pay_order_id = ''o'', pay_amount = 500, pay_currency = ''INR'',
      pay_status = st, pay_psp = PSPMock, pay_psp_payment_id = Some ''mock_1'', pay_customer_email = [],
      pay_customer_name = [], pay_customer_phone = [], pay_metadata = None, pay_total_refunded = 0,
      pay_created_at = 0, pay_updated_at = 0\<rparr>"

definition demo_trail :: "payment_status list \<Rightarrow> state_transition list" where
  "demo_trail sts = map (\<lambda>i. \<lparr>tr_ID = replicate i (CHR ''t''), tr_PaymentID = ''p1'',
      tr_FromStatus = (if i = 0 then None else Some (sts ! (i - 1))), tr_ToStatus = sts ! i,
      tr_Reason = [], tr_TriggeredBy = ''system'', tr_CreatedAt = 0\<rparr>) [0..<length sts]"

definition demo_db :: "payment_status list \<Rightarrow> db" where
  "demo_db sts = migrated_db\<lparr>payments := [demo_row (last sts)], payment_state_transitions := demo_trail sts\<rparr>"

abbreviation authorized_db :: db where
  "authorized_db \<equiv> demo_db [PaymentStatusCreated, PaymentStatusAuthorized]"

abbreviation captured_db :: db where
  "captured_db \<equiv> demo_db [PaymentStatusCreated, PaymentStatusAuthorized, PaymentStatusCaptured]"

definition demo_lib :: web_lib where
  "demo_lib =
     \<lparr>wl_decode = (\<lambda>payload. Some (JObj [(''payment_id'', JStr payload), (''amount'', JNum 200), (''created'', JNum 100)])),
      wl_rfc3339 = (\<lambda>_. None), wl_sha1_uuid = (\<lambda>payload. payload)\<rparr>"

definition demo_adapters :: "string \<rightharpoonup> mock_world psp_adapter" where
  "demo_adapters = [PSPMock \<mapsto> NewMockPSP (\<lambda>secret payload. secret @ payload) DefaultMockConfig]"

definition web_env :: env where
  "web_env = quiet_env\<lparr>e_now := (\<lambda>_. 200 * second)\<rparr>"

definition demo_sig :: "string \<Rightarrow> string" where
  "demo_sig payload = mc_WebhookSecret DefaultMockConfig @ payload"

lemma demo_dbs: "payments_inv authorized_db" "ledger_inv authorized_db" "ledger_inv captured_db"
proof -
  have frame: "ledger_inv (demo_db sts)" for sts
    using ledger_inv_migrated ledger_inv_cong [of "demo_db sts" migrated_db] by (simp add: demo_db_def)
  show "ledger_inv authorized_db" "ledger_inv captured_db" by (rule frame)+
  show "payments_inv authorized_db"
    by (simp add: payments_inv_def demo_db_def demo_row_def demo_trail_def chk_refund_cap_def int64_order trail_def
        upt_rec)
qed

lemma demo_capture_answers:
  "isInl (fst (IngestWebhook demo_lib demo_adapters web_env PSPMock ''payment.captured'' ''mock_1''
     (demo_sig ''mock_1'') authorized_db)) = False"
  "isInl (fst (processCaptureWebhook web_env ''p1'' authorized_db)) = False"
  "isInl (fst (processRefundWebhook demo_lib web_env ''p1'' ''mock_1'' captured_db)) = False"
  by code_simp+

lemma webhook_keeps_books_witness:
  "payments_inv (snd (ingestWebhookInternal demo_lib demo_adapters web_env PSPMock ''payment.captured'' ''mock_1''
     (demo_sig ''mock_1'') False authorized_db))"
  using webhook_keeps_books [OF demo_dbs(1,2)] by blast

lemma acknowledged_webhook_is_idempotent_witness:
  "snd (IngestWebhook demo_lib demo_adapters web_env PSPMock ''payment.captured'' ''mock_1'' (demo_sig ''mock_1'')
      (snd (IngestWebhook demo_lib demo_adapters web_env PSPMock ''payment.captured'' ''mock_1''
        (demo_sig ''mock_1'') authorized_db)))
   = snd (IngestWebhook demo_lib demo_adapters web_env PSPMock ''payment.captured'' ''mock_1''
        (demo_sig ''mock_1'') authorized_db)"
proof -
  from demo_capture_answers(1) have "fst (IngestWebhook demo_lib demo_adapters web_env PSPMock ''payment.captured''
      ''mock_1'' (demo_sig ''mock_1'') authorized_db) = Inr ()"
    by (cases "fst (IngestWebhook demo_lib demo_adapters web_env PSPMock ''payment.captured''
      ''mock_1'' (demo_sig ''mock_1'') authorized_db)") auto
  from acknowledged_webhook_is_idempotent [OF this, of "[(web_env, demo_sig ''mock_1'', False)]"]
  show ?thesis by (simp add: IngestWebhook_def)
qed

lemma forged_or_stale_webhook_rejected_witness:
  "snd (IngestWebhook demo_lib demo_adapters web_env PSPMock ''payment.captured'' ''mock_1'' ''forged'' authorized_db)
     = authorized_db"
proof -
  have adp: "demo_adapters PSPMock = Some (NewMockPSP (\<lambda>secret payload. secret @ payload) DefaultMockConfig)"
    by (simp add: demo_adapters_def)
  have "ad_VerifyWebhookSignature (NewMockPSP (\<lambda>secret payload. secret @ payload) DefaultMockConfig)
      ''mock_1'' ''forged'' \<noteq> None"
    by (simp add: NewMockPSP_def mock_VerifyWebhookSignature_def DefaultMockConfig_def)
  with forged_or_stale_webhook_rejected [of demo_adapters PSPMock, OF adp] show ?thesis by blast
qed

lemma demo_failed_ingest:
  "\<exists>e d'. IngestWebhook demo_lib demo_adapters web_env PSPMock ''payment.captured'' ''unknown'' (demo_sig ''unknown'') authorized_db
      = (Inl e, d') \<and> d' \<noteq> authorized_db"
proof -
  let ?run = "IngestWebhook demo_lib demo_adapters web_env PSPMock ''payment.captured'' ''unknown'' (demo_sig ''unknown'') authorized_db"
  have "isInl (fst ?run) \<and> length (webhook_events (snd ?run)) = 1" by code_simp
  moreover have "webhook_events authorized_db = []" by (simp add: demo_db_def migrated_db_def)
  ultimately show ?thesis
    by (cases ?run; cases "fst ?run") auto
qed

lemma capture_webhook_settles_witness:
  "\<exists>d'. processCaptureWebhook web_env ''p1'' authorized_db = (Inr (), d')
     \<and> map le_Debit (entries_in d' (e_uuid web_env 2)) = [500, 0]"
proof -
  obtain r d' where run: "processCaptureWebhook web_env ''p1'' authorized_db = (r, d')" by (metis prod.collapse)
  with demo_capture_answers(2) have "r = Inr ()" by (cases r) auto
  with run have ok: "processCaptureWebhook web_env ''p1'' authorized_db = (Inr (), d')" by simp
  have p: "payment_by_id authorized_db ''p1'' = Some (demo_row PaymentStatusAuthorized)"
    by (simp add: payment_by_id_def demo_db_def demo_row_def)
  have "pay_status (demo_row PaymentStatusAuthorized) \<noteq> PaymentStatusCaptured"
    "pay_amount (demo_row PaymentStatusAuthorized) = 500" by (simp_all add: demo_row_def)
  with capture_webhook_settles [OF demo_dbs(2) p _ ok] ok show ?thesis by simp
qed

lemma refund_webhook_effect_witness:
  "\<exists>d'. processRefundWebhook demo_lib web_env ''p1'' ''mock_1'' captured_db = (Inr (), d')
     \<and> map_option pay_status (payment_by_id d' ''p1'') = Some PaymentStatusPartiallyRefunded
     \<and> map_option la_CurrentBalance (account_by_code d' AccMerchantPayable) = Some (- 200)
     \<and> map_option la_CurrentBalance (account_by_code d' AccRefundExpense) = Some (- 200)"
proof -
  obtain r d' where run: "processRefundWebhook demo_lib web_env ''p1'' ''mock_1'' captured_db = (r, d')"
    by (metis prod.collapse)
  with demo_capture_answers(3) have "r = Inr ()" by (cases r) auto
  with run have ok: "processRefundWebhook demo_lib web_env ''p1'' ''mock_1'' captured_db = (Inr (), d')" by simp
  have p: "payment_by_id captured_db ''p1'' = Some (demo_row PaymentStatusCaptured)"
    by (simp add: payment_by_id_def demo_db_def demo_row_def)
  have dec: "decode_map demo_lib ''mock_1'' =
      Some [(''payment_id'', JStr ''mock_1''), (''amount'', JNum 200), (''created'', JNum 100)]"
    by (simp add: decode_map_def demo_lib_def)
  have amount: "extractRefundAmount
      [(''payment_id'', JStr ''mock_1''), (''amount'', JNum 200), (''created'', JNum 100)] = 200"
    by code_simp
  have acc: "account_by_code captured_db AccRefundExpense =
      Some (seed_account ''9'' ''REFUND_EXP'' ''Refund Expense'' AccountTypeExpense)"
    by (simp add: account_by_code_def demo_db_def migrated_db_def seed_accounts_def seed_account_def
        AccRefundExpense_def)
  have pay: "account_by_code captured_db AccMerchantPayable =
      Some (seed_account ''4'' ''MERCHANT_PAY'' ''Merchant Payable'' AccountTypeLiability)"
    by (simp add: account_by_code_def demo_db_def migrated_db_def seed_accounts_def seed_account_def
        AccMerchantPayable_def)
  have below: "(200 :: int64) <s pay_amount (demo_row PaymentStatusCaptured)" by (simp add: demo_row_def int64_order)
  from refund_webhook_effect [OF demo_dbs(3) p dec ok _ acc _ pay] ok amount below show ?thesis
    by (simp add: seed_account_def)
qed

lemma capture_webhook_posts_like_ledger_service_witness:
  "\<exists>req d1 d'. PostLedgerTransaction (ledger_env web_env) req d1 = (Inr (), d')
     \<and> processCaptureWebhook web_env ''p1'' authorized_db = (Inr (), d')"
proof -
  obtain r d' where run: "processCaptureWebhook web_env ''p1'' authorized_db = (r, d')" by (metis prod.collapse)
  with demo_capture_answers(2) have "r = Inr ()" by (cases r) auto
  with run have ok: "processCaptureWebhook web_env ''p1'' authorized_db = (Inr (), d')" by simp
  have p: "payment_by_id authorized_db ''p1'' = Some (demo_row PaymentStatusAuthorized)"
    by (simp add: payment_by_id_def demo_db_def demo_row_def)
  have "pay_status (demo_row PaymentStatusAuthorized) \<noteq> PaymentStatusCaptured"
    "0 <s pay_amount (demo_row PaymentStatusAuthorized)" by (simp_all add: demo_row_def int64_order)
  with capture_webhook_posts_like_ledger_service [OF p _ _ _ ok] ok show ?thesis by blast
qed

end
