(* ===== verification/Text.thy ===== *)
theory Text
  imports Prelude
begin

text \<open>
  The functions of Go's \<^verbatim>\<open>strings\<close> and \<^verbatim>\<open>strconv\<close> that the repository uses, on strings as lists
  of bytes: searching and splitting at a byte, trimming, joining, case folding of ASCII letters,
  and decimal integers with Go's behaviour on malformed and out-of-range input.
\<close>

section \<open>Splitting and joining\<close>

text \<open>The parts around the first occurrence of a byte: \<^verbatim>\<open>strings.Index\<close> and \<^verbatim>\<open>SplitN(s, c, 2)\<close>.\<close>

fun split_once :: "char \<Rightarrow> string \<Rightarrow> (string \<times> string) option" where
  "split_once c [] = None"
| "split_once c (x # xs) =
     (if x = c then Some ([], xs) else map_option (\<lambda>(a, b). (x # a, b)) (split_once c xs))"

lemma split_once_Some: "split_once c s = Some (a, b) \<Longrightarrow> s = a @ c # b \<and> c \<notin> set a"
  by (induction s arbitrary: a) (auto split: if_splits)

lemma split_once_None: "split_once c s = None \<longleftrightarrow> c \<notin> set s"
  by (induction s) auto

lemma split_once_append: "c \<notin> set a \<Longrightarrow> split_once c (a @ c # b) = Some (a, b)"
  by (induction a) auto

text \<open>\<^verbatim>\<open>strings.Split\<close> at one byte.\<close>

fun split_all :: "char \<Rightarrow> string \<Rightarrow> string list" where
  "split_all c [] = [[]]"
| "split_all c (x # xs) =
     (if x = c then [] # split_all c xs
      else case split_all c xs of [] \<Rightarrow> [[x]] | p # ps \<Rightarrow> (x # p) # ps)"

fun join :: "string \<Rightarrow> string list \<Rightarrow> string" where
  "join sep [] = []"
| "join sep [s] = s"
| "join sep (s # t # ss) = s @ sep @ join sep (t # ss)"

lemma split_all_neq: "split_all c s \<noteq> []"
  by (induction s) (auto split: list.split)

lemma split_all_no: "c \<notin> set s \<Longrightarrow> split_all c s = [s]"
  by (induction s) auto

lemma split_all_append: "c \<notin> set a \<Longrightarrow> split_all c (a @ c # b) = a # split_all c b"
  by (induction a) auto

lemma split_join:
  assumes "ss \<noteq> []" and "\<forall>s \<in> set ss. c \<notin> set s"
  shows "split_all c (join [c] ss) = ss"
  using assms by (induction "[c]" ss rule: join.induct) (auto simp: split_all_no split_all_append)

section \<open>Trimming\<close>

text \<open>White space as \<^verbatim>\<open>unicode.IsSpace\<close> has it, in UTF-8.\<close>

definition white_space :: "string list" where
  "white_space =
    [[CHR 0x09], [CHR 0x0A], [CHR 0x0B], [CHR 0x0C], [CHR 0x0D], [CHR 0x20],
     [CHR 0xC2, CHR 0x85], [CHR 0xC2, CHR 0xA0], [CHR 0xE1, CHR 0x9A, CHR 0x80],
     [CHR 0xE2, CHR 0x80, CHR 0x80], [CHR 0xE2, CHR 0x80, CHR 0x81],
     [CHR 0xE2, CHR 0x80, CHR 0x82], [CHR 0xE2, CHR 0x80, CHR 0x83],
     [CHR 0xE2, CHR 0x80, CHR 0x84], [CHR 0xE2, CHR 0x80, CHR 0x85],
     [CHR 0xE2, CHR 0x80, CHR 0x86], [CHR 0xE2, CHR 0x80, CHR 0x87],
     [CHR 0xE2, CHR 0x80, CHR 0x88], [CHR 0xE2, CHR 0x80, CHR 0x89],
     [CHR 0xE2, CHR 0x80, CHR 0x8A], [CHR 0xE2, CHR 0x80, CHR 0xA8],
     [CHR 0xE2, CHR 0x80, CHR 0xA9], [CHR 0xE2, CHR 0x80, CHR 0xAF],
     [CHR 0xE2, CHR 0x81, CHR 0x9F], [CHR 0xE3, CHR 0x80, CHR 0x80]]"

definition strip_one :: "string list \<Rightarrow> string \<Rightarrow> string option" where
  "strip_one ws s = map_option (\<lambda>w. drop (length w) s) (find (\<lambda>w. w \<noteq> [] \<and> take (length w) s = w) ws)"

lemma strip_one_shorter: "strip_one ws s = Some t \<Longrightarrow> length t < length s"
  by (cases s) (auto simp: strip_one_def dest!: find_SomeD)

function trim_left :: "string list \<Rightarrow> string \<Rightarrow> string" where
  "trim_left ws s = (case strip_one ws s of None \<Rightarrow> s | Some t \<Rightarrow> trim_left ws t)"
  by pat_completeness auto

termination
  by (relation "measure (\<lambda>(ws, s). length s)") (auto dest: strip_one_shorter)

declare trim_left.simps [simp del]

definition TrimSpace :: "string \<Rightarrow> string" where
  "TrimSpace s = rev (trim_left (map rev white_space) (rev (trim_left white_space s)))"

text \<open>A trimmed string starts with no white space.\<close>

lemma trim_left_stops: "strip_one ws (trim_left ws s) = None"
  by (induction ws s rule: trim_left.induct) (subst trim_left.simps, auto split: option.split)

lemma trim_left_id: "strip_one ws s = None \<Longrightarrow> trim_left ws s = s"
  by (subst trim_left.simps) simp

section \<open>Case folding of ASCII letters\<close>

definition lower :: "char \<Rightarrow> char" where
  "lower c =
     (case map_of (zip ''ABCDEFGHIJKLMNOPQRSTUVWXYZ'' ''abcdefghijklmnopqrstuvwxyz'') c of
        Some d \<Rightarrow> d
      | None \<Rightarrow> c)"

text \<open>\<^verbatim>\<open>strings.EqualFold\<close> against a word of letters that fold only within ASCII.\<close>

definition EqualFold :: "string \<Rightarrow> string \<Rightarrow> bool" where
  "EqualFold s t \<longleftrightarrow> map lower s = map lower t"

section \<open>Decimal integers\<close>

definition digit :: "char \<Rightarrow> nat option" where
  "digit c = (let n = of_char c :: nat in if 48 \<le> n \<and> n \<le> 57 then Some (n - 48) else None)"

fun digits_from :: "int \<Rightarrow> string \<Rightarrow> int option" where
  "digits_from acc [] = Some acc"
| "digits_from acc (c # cs) =
     (case digit c of None \<Rightarrow> None | Some d \<Rightarrow> digits_from (10 * acc + int d) cs)"

definition unsigned_of :: "string \<Rightarrow> int option" where
  "unsigned_of s = (if s = [] then None else digits_from 0 s)"

definition signed_of :: "string \<Rightarrow> int option" where
  "signed_of s =
     (case s of
        [] \<Rightarrow> None
      | c # cs \<Rightarrow>
          if c = CHR ''-'' then map_option uminus (unsigned_of cs)
          else if c = CHR ''+'' then unsigned_of cs
          else unsigned_of s)"

text \<open>
  \<^verbatim>\<open>strconv.Atoi\<close> and \<^verbatim>\<open>ParseInt(s, 10, 64)\<close>: the value and whether it was accepted. Malformed
  text gives 0, a number out of range the nearest bound; both come with an error.
\<close>

definition Atoi :: "string \<Rightarrow> int \<times> bool" where
  "Atoi s =
     (case signed_of s of
        None \<Rightarrow> (0, False)
      | Some n \<Rightarrow>
          if n > 9223372036854775807 then (9223372036854775807, False)
          else if n < - 9223372036854775808 then (- 9223372036854775808, False)
          else (n, True))"

lemma Atoi_range: "- 9223372036854775808 \<le> fst (Atoi s) \<and> fst (Atoi s) \<le> 9223372036854775807"
  by (auto simp: Atoi_def split: option.split)

lemma digit_char_of: "d < 10 \<Longrightarrow> digit (char_of (48 + d)) = Some d"
  by (simp add: digit_def)

lemma digits_from_append:
  "digits_from acc (s @ [c]) =
     (case digits_from acc s of None \<Rightarrow> None
      | Some n \<Rightarrow> (case digit c of None \<Rightarrow> None | Some d \<Rightarrow> Some (10 * n + int d)))"
  by (induction s arbitrary: acc) (auto split: option.split)

lemma digits_from_show_nat: "digits_from 0 (show_nat n) = Some (int n)"
proof (induction n rule: show_nat.induct)
  case (1 n)
  show ?case
  proof (cases "n < 10")
    case True
    then show ?thesis by (subst show_nat.simps) (simp add: digit_char_of)
  next
    case False
    with 1 have IH: "digits_from 0 (show_nat (n div 10)) = Some (int (n div 10))" by simp
    have "10 * int (n div 10) + int (n mod 10) = int n" by (metis mult_div_mod_eq of_nat_add of_nat_mult of_nat_numeral)
    with False IH show ?thesis
      by (subst show_nat.simps) (simp add: digits_from_append digit_char_of)
  qed
qed

lemma show_nat_neq: "show_nat n \<noteq> []"
  by (subst show_nat.simps) simp

lemma show_nat_digits: "c \<in> set (show_nat n) \<Longrightarrow> \<exists>d < 10. c = char_of (48 + d :: nat)"
proof (induction n rule: show_nat.induct)
  case (1 n)
  show ?case
  proof (cases "n < 10")
    case True
    with 1(2) show ?thesis by (subst (asm) show_nat.simps) auto
  next
    case False
    with 1(2) have "c \<in> set (show_nat (n div 10)) \<or> c = char_of (48 + n mod 10)"
      by (subst (asm) show_nat.simps) auto
    then show ?thesis
    proof
      assume "c \<in> set (show_nat (n div 10))"
      with 1(1) False show ?thesis by blast
    next
      assume "c = char_of (48 + n mod 10)"
      then show ?thesis by (intro exI [of _ "n mod 10"]) simp
    qed
  qed
qed

lemma show_nat_not: "c \<in> set (show_nat n) \<Longrightarrow> 48 \<le> (of_char c :: nat) \<and> (of_char c :: nat) < 58"
  by (auto dest!: show_nat_digits)

lemma Atoi_show_int:
  assumes "- 9223372036854775808 \<le> n" and "n \<le> 9223372036854775807"
  shows "Atoi (show_int n) = (n, True)"
proof -
  have "signed_of (show_int n) = Some n"
  proof (cases "n < 0")
    case True
    then show ?thesis
      by (simp add: show_int_def signed_of_def unsigned_of_def show_nat_neq digits_from_show_nat)
  next
    case False
    obtain c cs where c: "show_nat (nat n) = c # cs" by (metis neq_Nil_conv show_nat_neq)
    then have "48 \<le> (of_char c :: nat)" using show_nat_not [of c "nat n"] by simp
    then have "c \<noteq> CHR ''-''" and "c \<noteq> CHR ''+''" by auto
    with False c digits_from_show_nat [of "nat n"] show ?thesis
      by (simp add: show_int_def signed_of_def unsigned_of_def)
  qed
  with assms show ?thesis by (simp add: Atoi_def)
qed

lemma show_int_bytes: "c \<in> set (show_int n) \<Longrightarrow> c = CHR ''-'' \<or> 48 \<le> (of_char c :: nat) \<and> (of_char c :: nat) < 58"
  by (auto simp: show_int_def split: if_splits dest: show_nat_not)

lemma show_int_neq: "show_int n \<noteq> []"
  by (simp add: show_int_def show_nat_neq)

section \<open>A concrete codec\<close>

text \<open>
  Texts with their length in front, one after another: an encoding that can be read back, for the
  concrete instances of codecs.
\<close>

definition pack :: "string \<Rightarrow> string" where
  "pack s = replicate (length s) (CHR ''x'') @ CHR '','' # s"

fun unpacks :: "nat \<Rightarrow> string \<Rightarrow> string list option" where
  "unpacks 0 t = (if t = [] then Some [] else None)"
| "unpacks (Suc n) t =
     (case split_once (CHR '','') t of
        None \<Rightarrow> None
      | Some (a, rest) \<Rightarrow> map_option ((#) (take (length a) rest)) (unpacks n (drop (length a) rest)))"

lemma unpacks_pack: "unpacks (length ss) (concat (map pack ss)) = Some ss"
proof (induction ss)
  case (Cons s ss)
  have eq: "concat (map pack (s # ss)) = replicate (length s) (CHR ''x'') @ CHR '','' # s @ concat (map pack ss)"
    by (simp add: pack_def)
  have split: "split_once (CHR '','') (concat (map pack (s # ss))) =
      Some (replicate (length s) (CHR ''x''), s @ concat (map pack ss))"
    unfolding eq by (rule split_once_append) simp
  have "unpacks (Suc (length ss)) (concat (map pack (s # ss))) = Some (s # ss)"
    unfolding unpacks.simps split using Cons by simp
  then show ?case by (simp del: unpacks.simps)
qed simp

end
