(* ===== verification/Dates.thy ===== *)
theory Dates
  imports Text
begin

text \<open>
  Calendar dates in UTC: the layout \<^verbatim>\<open>2006-01-02\<close> of \<^verbatim>\<open>time.Parse\<close> and \<^verbatim>\<open>Format\<close> and the start of a day.
  Days are counted from 1970-01-01; the conversions count in years that begin in March, so that the
  leap day is the last one.
\<close>

definition day :: duration where "day = 24 * 60 * minute"

definition start_of_day :: "time \<Rightarrow> time" where "start_of_day t = t - t mod day"

lemma start_of_day_bounds: "start_of_day t \<le> t" "t < start_of_day t + day"
  by (simp_all add: start_of_day_def day_def minute_def second_def minus_mod_eq_mult_div algebra_simps)

lemma start_of_day_mod [simp]: "start_of_day t mod day = 0"
  by (simp add: start_of_day_def)

definition leap_year :: "int \<Rightarrow> bool" where
  "leap_year y \<longleftrightarrow> y mod 4 = 0 \<and> (y mod 100 \<noteq> 0 \<or> y mod 400 = 0)"

definition days_in_month :: "int \<Rightarrow> int \<Rightarrow> int" where
  "days_in_month y m =
     (if m = 2 then (if leap_year y then 29 else 28)
      else if m \<in> {4, 6, 9, 11} then 30 else 31)"

definition days_from_civil :: "int \<Rightarrow> int \<Rightarrow> int \<Rightarrow> int" where
  "days_from_civil y m d =
     (let y' = (if m \<le> 2 then y - 1 else y); m' = (if m > 2 then m - 3 else m + 9) in
      365 * y' + y' div 4 - y' div 100 + y' div 400 + (153 * m' + 2) div 5 + d - 1 - 719468)"

definition civil_from_days :: "int \<Rightarrow> int \<times> int \<times> int" where
  "civil_from_days n =
     (let z = n + 719468; era = z div 146097; doe = z mod 146097;
          yoe = (doe - doe div 1460 + doe div 36524 - doe div 146096) div 365;
          doy = doe - (365 * yoe + yoe div 4 - yoe div 100);
          mp = (5 * doy + 2) div 153;
          d = doy - (153 * mp + 2) div 5 + 1;
          m = (if mp < 10 then mp + 3 else mp - 9);
          y = yoe + era * 400 + (if m \<le> 2 then 1 else 0)
      in (y, m, d))"

fun zero_pad :: "nat \<Rightarrow> string \<Rightarrow> string" where
  "zero_pad n s = replicate (n - length s) (CHR ''0'') @ s"

definition format_date :: "time \<Rightarrow> string" where
  "format_date t =
     (case civil_from_days (t div day) of (y, m, d) \<Rightarrow>
        zero_pad 4 (show_int y) @ ''-'' @ zero_pad 2 (show_int m) @ ''-'' @ zero_pad 2 (show_int d))"

text \<open>Exactly four, two and two digits; the month and the day must exist.\<close>

definition parse_date :: "string \<Rightarrow> time option" where
  "parse_date s =
     (case split_all (CHR ''-'') s of
        [ys, ms, ds] \<Rightarrow>
          if length ys = 4 \<and> length ms = 2 \<and> length ds = 2
          then (case (unsigned_of ys, unsigned_of ms, unsigned_of ds) of
                  (Some y, Some m, Some d) \<Rightarrow>
                    if 1 \<le> m \<and> m \<le> 12 \<and> 1 \<le> d \<and> d \<le> days_in_month y m
                    then Some (days_from_civil y m d * day) else None
                | _ \<Rightarrow> None)
          else None
      | _ \<Rightarrow> None)"

lemma parse_date_midnight: "parse_date s = Some t \<Longrightarrow> t mod day = 0"
  by (auto simp: parse_date_def split: list.splits option.splits if_splits)

end
