(* ===== verification/Reconciliation.thy ===== *)
theory Reconciliation
  imports Webhook_Service Dates
begin

text \<open>
  Reconciliation, \<^verbatim>\<open>internal/service/reconciliation.go\<close>: the batch that compares the payments of a day
  with what the provider reports, the check of one payment, and the reading of the results. An
  operation uses the environment's row 0; the identifier 0 is the record's, the \<open>i\<close>-th payment of a
  batch may use identifier and clock reading \<open>i + 1\<close>. Dates are UTC.
\<close>

section \<open>Statements\<close>

definition recon_by_id :: "db \<Rightarrow> string \<Rightarrow> reconciliation_record option" where
  "recon_by_id d i = find (\<lambda>r. rr_ID r = i) (reconciliation_records d)"

definition insert_recon :: "reconciliation_record \<Rightarrow> unit tx" where
  "insert_recon r d =
     (if recon_by_id d (rr_ID r) \<noteq> None then Inl (constraint_error ''reconciliation_records_pkey'')
      else Inr ((), d\<lparr>reconciliation_records := reconciliation_records d @ [r]\<rparr>))"

definition update_recon :: "string \<Rightarrow> (reconciliation_record \<Rightarrow> reconciliation_record) \<Rightarrow> unit tx" where
  "update_recon i f d =
     Inr ((), d\<lparr>reconciliation_records := update_where (\<lambda>r. rr_ID r = i) f (reconciliation_records d)\<rparr>)"

definition insert_discrepancy_row :: "discrepancy_row \<Rightarrow> unit tx" where
  "insert_discrepancy_row r d =
     (if recon_by_id d (dr_reconciliation_record_id r) = None
      then Inl (constraint_error ''reconciliation_discrepancies_reconciliation_record_id_fkey'')
      else if list_ex (\<lambda>x. dr_id x = dr_id r) (reconciliation_discrepancies d)
      then Inl (constraint_error ''reconciliation_discrepancies_pkey'')
      else Inr ((), d\<lparr>reconciliation_discrepancies := reconciliation_discrepancies d @ [r]\<rparr>))"

text \<open>The payments of a provider in a span of time that the provider knows, oldest first.\<close>

definition select_recon_payments :: "string \<Rightarrow> time \<Rightarrow> time \<Rightarrow> db \<Rightarrow> payment_row list" where
  "select_recon_payments psp lo hi d =
     sort_key pay_created_at
       (filter (\<lambda>r. pay_psp r = psp \<and> lo \<le> pay_created_at r \<and> pay_created_at r < hi
                     \<and> pay_psp_payment_id r \<noteq> None) (payments d))"

text \<open>A statement outside a transaction whose error is only logged.\<close>

definition logged :: "unit tx \<Rightarrow> db \<Rightarrow> db" where
  "logged m d = (case m d of Inl e \<Rightarrow> d | Inr (u, d') \<Rightarrow> d')"

section \<open>Comparing a payment with the provider\<close>

definition normalizePSPStatus :: "string \<Rightarrow> string \<Rightarrow> string" where
  "normalizePSPStatus psp rawStatus =
     (if psp = ''stripe'' then
        (if rawStatus = ''requires_capture'' then status_string PaymentStatusAuthorized
         else if rawStatus = ''succeeded'' then status_string PaymentStatusCaptured
         else if rawStatus = ''canceled'' then status_string PaymentStatusCancelled
         else rawStatus)
      else if psp = ''razorpay'' then
        (if rawStatus = ''authorized'' then status_string PaymentStatusAuthorized
         else if rawStatus = ''captured'' then status_string PaymentStatusCaptured
         else if rawStatus = ''refunded'' then status_string PaymentStatusRefunded
         else if rawStatus = ''failed'' then status_string PaymentStatusFailed
         else rawStatus)
      else rawStatus)"

text \<open>What is wrong: the kind of discrepancy, the provider's amount and its status.\<close>

type_synonym verdict = "(discrepancy_type \<times> int64 option \<times> string) option"

definition compare_payment :: "string \<Rightarrow> payment_row \<Rightarrow> err + psp_status_response \<Rightarrow> verdict" where
  "compare_payment psp rec pspStatus =
     (case pspStatus of
        Inl e \<Rightarrow> Some (DiscrepancyMissingInPSP, None, [])
      | Inr st \<Rightarrow>
          if 0 <s sr_Amount st \<and> sr_Amount st \<noteq> pay_amount rec
          then Some (DiscrepancyAmountMismatch, Some (sr_Amount st), sr_Status st)
          else if normalizePSPStatus psp (sr_Status st) \<noteq> status_string (pay_status rec)
          then Some (DiscrepancyStatusMismatch, Some (sr_Amount st), sr_Status st)
          else None)"

section \<open>The batch\<close>

definition discrepancy_of :: "env \<Rightarrow> nat \<Rightarrow> string \<Rightarrow> payment_row \<Rightarrow> discrepancy_type \<times> int64 option \<times> string \<Rightarrow> discrepancy_row" where
  "discrepancy_of env i recordID rec v =
     (case v of (dType, pspAmt, pspStatus) \<Rightarrow>
      \<lparr>dr_id = e_uuid env (i + 1), dr_reconciliation_record_id = recordID, dr_payment_id = nilIfEmpty (pay_id rec),
       dr_discrepancy_type = dType, dr_internal_amount = Some (pay_amount rec), dr_psp_amount = pspAmt,
       dr_internal_status = nilIfEmpty (status_string (pay_status rec)), dr_psp_status = nilIfEmpty pspStatus,
       dr_resolution_status = ResolutionOpen, dr_resolution_notes = None, dr_created_at = e_now env (i + 1),
       dr_resolved_at = None\<rparr>)"

definition insertDiscrepancy :: "env \<Rightarrow> nat \<Rightarrow> discrepancy_row \<Rightarrow> db \<Rightarrow> db" where
  "insertDiscrepancy env i row = logged (at_site (e_fault env 0) (InsertDiscrepancy i) (insert_discrepancy_row row))"

record tally =
  ta_totalAmount :: int64
  ta_matched :: int
  ta_discrepancies :: int

definition reconcile_one ::
  "env \<Rightarrow> string \<Rightarrow> 'w psp_adapter \<Rightarrow> string \<Rightarrow> nat \<times> payment_row \<Rightarrow> tally \<times> db \<times> 'w \<Rightarrow> tally \<times> db \<times> 'w" where
  "reconcile_one env psp adp recordID p s =
     (case (p, s) of ((i, rec), (t, d, w)) \<Rightarrow>
      let t = t\<lparr>ta_totalAmount := ta_totalAmount t + pay_amount rec\<rparr> in
      (case ad_GetPaymentStatus adp (the (pay_psp_payment_id rec)) w of
         (pspStatus, w') \<Rightarrow>
           (case compare_payment psp rec pspStatus of
              Some v \<Rightarrow>
                (t\<lparr>ta_discrepancies := ta_discrepancies t + 1\<rparr>,
                 insertDiscrepancy env i (discrepancy_of env i recordID rec v) d, w')
            | None \<Rightarrow> (t\<lparr>ta_matched := ta_matched t + 1\<rparr>, d, w'))))"

definition new_recon :: "env \<Rightarrow> string \<Rightarrow> time \<Rightarrow> reconciliation_record" where
  "new_recon env psp startOfDay =
     \<lparr>rr_ID = e_uuid env 0, rr_ReconciliationDate = startOfDay, rr_PSP = psp, rr_TotalPayments = 0,
      rr_TotalAmount = 0, rr_InternalRecordCount = 0, rr_PSPRecordCount = 0, rr_MatchedCount = 0,
      rr_DiscrepancyCount = 0, rr_Status = ReconStatusInProgress, rr_CreatedAt = e_now env 0, rr_CompletedAt = None\<rparr>"

definition markFailed :: "env \<Rightarrow> string \<Rightarrow> db \<Rightarrow> db" where
  "markFailed env recordID =
     logged (at_site (e_fault env 0) MarkRecon (update_recon recordID
       (\<lambda>r. r\<lparr>rr_Status := ReconStatusFailed, rr_CompletedAt := Some (e_now env 1)\<rparr>)))"

definition finalize_recon :: "env \<Rightarrow> int \<Rightarrow> tally \<Rightarrow> reconciliation_record \<Rightarrow> reconciliation_record" where
  "finalize_recon env n t r =
     r\<lparr>rr_TotalPayments := n, rr_TotalAmount := ta_totalAmount t, rr_InternalRecordCount := n,
       rr_MatchedCount := ta_matched t, rr_DiscrepancyCount := ta_discrepancies t,
       rr_Status := ReconStatusCompleted, rr_CompletedAt := Some (e_now env 0)\<rparr>"

definition GetReconciliationRecord :: "env \<Rightarrow> string \<Rightarrow> db \<Rightarrow> err + reconciliation_record" where
  "GetReconciliationRecord env i d =
     andThen (guardE (e_fault env 0 SelectRecon)) (\<lambda>_.
       case recon_by_id d i of
         None \<Rightarrow> Inl (Errorf ''reconciliation record not found'')
       | Some r \<Rightarrow> Inr r)"

definition RunBatchReconciliation ::
  "(string \<rightharpoonup> 'w psp_adapter) \<Rightarrow> env \<Rightarrow> string \<Rightarrow> time \<Rightarrow> db \<times> 'w \<Rightarrow> (err + reconciliation_record) \<times> db \<times> 'w" where
  "RunBatchReconciliation adps env psp date s =
     (case s of (d, w) \<Rightarrow>
      (case adps psp of
         None \<Rightarrow> (Inl (UnknownPSP psp), d, w)
       | Some adp \<Rightarrow>
         let recordID = e_uuid env 0; startOfDay = start_of_day date; endOfDay = startOfDay + day; flt = e_fault env 0 in
         (case at_site flt InsertRecon (insert_recon (new_recon env psp startOfDay)) d of
            Inl e \<Rightarrow> (Inl (Wrapped ''inserting recon record'' e), d, w)
          | Inr (_, d1) \<Rightarrow>
            (case flt SelectReconPayments of
               Some e \<Rightarrow> (Inl e, markFailed env recordID d1, w)
             | None \<Rightarrow>
               (case flt ScanReconPayments of
                  Some e \<Rightarrow> (Inl (Wrapped ''iterating payment records'' e), markFailed env recordID d1, w)
                | None \<Rightarrow>
                  let records = select_recon_payments psp startOfDay endOfDay d1 in
                  (case fold (reconcile_one env psp adp recordID) (enumerate 0 records)
                          (\<lparr>ta_totalAmount = 0, ta_matched = 0, ta_discrepancies = 0\<rparr>, d1, w) of
                     (t, d2, w') \<Rightarrow>
                       (case at_site flt UpdateRecon (update_recon recordID
                               (finalize_recon env (int (length records)) t)) d2 of
                          Inl e \<Rightarrow> (Inl (Wrapped ''finalizing recon record'' e), d2, w')
                        | Inr (_, d3) \<Rightarrow> (GetReconciliationRecord env recordID d3, d3, w'))))))))"

section \<open>One payment, and the results\<close>

text \<open>A mismatch is only logged, so all that is left is whether there was an error.\<close>

definition ReconcileSinglePayment ::
  "(string \<rightharpoonup> 'w psp_adapter) \<Rightarrow> env \<Rightarrow> string \<Rightarrow> db \<times> 'w \<Rightarrow> (err + unit) \<times> 'w" where
  "ReconcileSinglePayment adps env paymentID s =
     (case s of (d, w) \<Rightarrow>
      (case mapErr (Wrapped ''fetching payment'')
              (andThen (at_site (e_fault env 0) SelectPayment (select_payment paymentID) d) (\<lambda>(r, d').
                 andThen (scan_string (pay_psp_payment_id r)) (\<lambda>pspPaymentID. Inr (pay_psp r, pspPaymentID)))) of
         Inl e \<Rightarrow> (Inl e, w)
       | Inr (psp, pspPaymentID) \<Rightarrow>
           if pspPaymentID = [] then (Inr (), w)
           else case adps psp of
             None \<Rightarrow> (Inl (UnknownPSP psp), w)
           | Some adp \<Rightarrow> (Inr (), snd (ad_GetPaymentStatus adp pspPaymentID w))))"

text \<open>The nullable columns are scanned into strings.\<close>

definition discrepancy_of_row :: "discrepancy_row \<Rightarrow> err + discrepancy" where
  "discrepancy_of_row r =
     andThen (scan_string (dr_payment_id r)) (\<lambda>paymentID.
     andThen (scan_string (dr_internal_status r)) (\<lambda>internalStatus.
     andThen (scan_string (dr_psp_status r)) (\<lambda>pspStatus.
     andThen (scan_string (dr_resolution_notes r)) (\<lambda>notes.
     Inr \<lparr>di_ID = dr_id r, di_ReconciliationRecordID = dr_reconciliation_record_id r, di_PaymentID = paymentID,
          di_DiscrepancyType = dr_discrepancy_type r, di_InternalAmount = dr_internal_amount r,
          di_PSPAmount = dr_psp_amount r, di_InternalStatus = internalStatus, di_PSPStatus = pspStatus,
          di_ResolutionStatus = dr_resolution_status r, di_ResolutionNotes = notes,
          di_CreatedAt = dr_created_at r, di_ResolvedAt = dr_resolved_at r\<rparr>))))"

fun scan_all :: "('a \<Rightarrow> err + 'b) \<Rightarrow> 'a list \<Rightarrow> err + 'b list" where
  "scan_all f [] = Inr []"
| "scan_all f (x # xs) = andThen (f x) (\<lambda>y. andThen (scan_all f xs) (\<lambda>ys. Inr (y # ys)))"

definition discrepancies_of :: "db \<Rightarrow> string \<Rightarrow> discrepancy_row list" where
  "discrepancies_of d reconID = filter (\<lambda>r. dr_reconciliation_record_id r = reconID) (reconciliation_discrepancies d)"

definition GetDiscrepancies :: "env \<Rightarrow> string \<Rightarrow> db \<Rightarrow> err + discrepancy list" where
  "GetDiscrepancies env reconID d =
     andThen (guardE (e_fault env 0 SelectDiscrepancies)) (\<lambda>_.
     andThen (scan_all discrepancy_of_row (sort_key dr_created_at (discrepancies_of d reconID))) (\<lambda>ds.
     andThen (mapErr (Wrapped ''iterating discrepancies'') (guardE (e_fault env 0 ScanDiscrepancies))) (\<lambda>_. Inr ds)))"

section \<open>What a batch can change\<close>

definition recon_only :: "db \<Rightarrow> db \<Rightarrow> bool" where
  "recon_only d d' \<longleftrightarrow>
     d' = d\<lparr>reconciliation_records := reconciliation_records d', reconciliation_discrepancies := reconciliation_discrepancies d'\<rparr>"

lemma recon_only_refl: "recon_only d d"
  by (simp add: recon_only_def)

lemma recon_only_trans: "recon_only d d' \<Longrightarrow> recon_only d' d'' \<Longrightarrow> recon_only d d''"
  unfolding recon_only_def by (metis (no_types, lifting) db.select_convs db.surjective db.update_convs(7,8))

text \<open>No service writes resolution notes.\<close>

definition no_notes :: "db \<Rightarrow> bool" where
  "no_notes d \<longleftrightarrow> (\<forall>r \<in> set (reconciliation_discrepancies d). dr_resolution_notes r = None)"

definition batch_step :: "db \<Rightarrow> db \<Rightarrow> bool" where
  "batch_step d d' \<longleftrightarrow> recon_only d d' \<and> (no_notes d \<longrightarrow> no_notes d')"

lemma batch_step_refl: "batch_step d d"
  by (simp add: batch_step_def recon_only_refl)

lemma batch_step_trans: "batch_step d d' \<Longrightarrow> batch_step d' d'' \<Longrightarrow> batch_step d d''"
  by (auto simp: batch_step_def intro: recon_only_trans)

lemma insert_recon_step: "insert_recon r d = Inr (u, d') \<Longrightarrow> batch_step d d'"
  by (auto simp: insert_recon_def batch_step_def recon_only_def no_notes_def split: if_splits)

lemma update_recon_step: "update_recon i f d = Inr (u, d') \<Longrightarrow> batch_step d d'"
  by (auto simp: update_recon_def batch_step_def recon_only_def no_notes_def)

lemma insertDiscrepancy_step: "batch_step d (insertDiscrepancy env i (discrepancy_of env j recordID rec v) d)"
  by (cases v) (auto simp: insertDiscrepancy_def logged_def at_site_def insert_discrepancy_row_def discrepancy_of_def
      batch_step_def recon_only_def no_notes_def split: option.splits)

lemma markFailed_step: "batch_step d (markFailed env recordID d)"
  by (auto simp: markFailed_def logged_def result_simps intro: update_recon_step batch_step_refl split: sum.split)

lemma reconcile_one_step: "batch_step d (fst (snd (reconcile_one env psp adp recordID p (t, d, w))))"
  by (cases p) (simp add: reconcile_one_def Let_def insertDiscrepancy_step batch_step_refl split: prod.split option.split)

lemma reconcile_all_step: "batch_step d (fst (snd (fold (reconcile_one env psp adp recordID) ps (t, d, w))))"
proof (induction ps arbitrary: t d w)
  case (Cons p ps)
  obtain t' d' w' where s: "reconcile_one env psp adp recordID p (t, d, w) = (t', d', w')" by (metis surj_pair)
  with reconcile_one_step [of d env psp adp recordID p t w] Cons.IH [of d' t' w'] show ?case
    by (auto intro: batch_step_trans)
qed (simp add: batch_step_refl)

lemma RunBatch_step: "batch_step d (fst (snd (RunBatchReconciliation adps env psp date (d, w))))"
proof (cases "adps psp")
  case (Some adp)
  show ?thesis
  proof (cases "at_site (e_fault env 0) InsertRecon (insert_recon (new_recon env psp (start_of_day date))) d")
    case (Inl e)
    with Some show ?thesis by (simp add: RunBatchReconciliation_def Let_def batch_step_refl)
  next
    case (Inr ud)
    obtain u d1 where ud: "ud = (u, d1)" by (cases ud)
    with Inr have s1: "batch_step d d1" by (auto simp: result_simps dest: insert_recon_step)
    obtain t d2 w' where f: "fold (reconcile_one env psp adp (e_uuid env 0)) (enumerate 0
          (select_recon_payments psp (start_of_day date) (start_of_day date + day) d1))
        (\<lparr>ta_totalAmount = 0, ta_matched = 0, ta_discrepancies = 0\<rparr>, d1, w) = (t, d2, w')" by (metis surj_pair)
    from reconcile_all_step [of d1 env psp adp "e_uuid env 0" "enumerate 0
        (select_recon_payments psp (start_of_day date) (start_of_day date + day) d1)"
        "\<lparr>ta_totalAmount = 0, ta_matched = 0, ta_discrepancies = 0\<rparr>" w] s1 f
    have s2: "batch_step d d2" by (auto intro: batch_step_trans)
    have s3: "batch_step d d3" if "at_site (e_fault env 0) UpdateRecon (update_recon i g) d2 = Inr (v, d3)" for i g v d3
      using that s2 by (auto simp: result_simps intro: batch_step_trans update_recon_step)
    show ?thesis
      using Some Inr ud f s1 s2 s3 markFailed_step [of d1 env "e_uuid env 0"]
      by (auto simp: RunBatchReconciliation_def Let_def intro: batch_step_trans split: option.split sum.split)
  qed
qed (simp add: RunBatchReconciliation_def batch_step_refl)

text \<open>
  A batch only reads the business data: whatever the provider answers and whichever statements
  fail, payments, audit trails, ledger and webhook events are the same after it.
\<close>

theorem reconciliation_changes_no_payment:
  fixes adps :: "string \<rightharpoonup> 'w psp_adapter"
  shows "payments (fst (snd (RunBatchReconciliation adps env psp date (d, w)))) = payments d
    \<and> payment_state_transitions (fst (snd (RunBatchReconciliation adps env psp date (d, w)))) = payment_state_transitions d
    \<and> ledger_accounts (fst (snd (RunBatchReconciliation adps env psp date (d, w)))) = ledger_accounts d
    \<and> ledger_transactions (fst (snd (RunBatchReconciliation adps env psp date (d, w)))) = ledger_transactions d
    \<and> ledger_entries (fst (snd (RunBatchReconciliation adps env psp date (d, w)))) = ledger_entries d
    \<and> webhook_events (fst (snd (RunBatchReconciliation adps env psp date (d, w)))) = webhook_events d"
proof -
  from RunBatch_step [of d adps env psp date w] have "recon_only d (fst (snd (RunBatchReconciliation adps env psp date (d, w))))"
    by (simp add: batch_step_def)
  then show ?thesis unfolding recon_only_def by (metis (no_types, lifting) db.select_convs db.surjective db.update_convs(7,8))
qed

lemma scan_all_no_notes:
  assumes "\<forall>r \<in> set rs. dr_resolution_notes r = None"
  shows "scan_all discrepancy_of_row rs = Inr ds \<Longrightarrow> ds = []"
  using assms by (cases rs) (auto simp: discrepancy_of_row_def andThen_Inr_iff scan_string_def)

text \<open>
  The discrepancies of a batch cannot be read: no service ever writes resolution notes, and the
  NULL in that column cannot be scanned, so after any batch the listing of any record is empty or an
  error.
\<close>

theorem discrepancies_unreadable:
  assumes "\<forall>r \<in> set (reconciliation_discrepancies d). dr_resolution_notes r = None"
    and "RunBatchReconciliation adps env psp date (d, w) = (res, d', w')"
  shows "GetDiscrepancies env' reconID d' = Inr ds \<Longrightarrow> ds = []"
proof -
  from RunBatch_step [of d adps env psp date w] assms have "no_notes d'" by (simp add: batch_step_def no_notes_def)
  then have "\<forall>r \<in> set (sort_key dr_created_at (discrepancies_of d' reconID)). dr_resolution_notes r = None"
    by (simp add: no_notes_def discrepancies_of_def)
  from scan_all_no_notes [OF this] show "GetDiscrepancies env' reconID d' = Inr ds \<Longrightarrow> ds = []"
    by (auto simp: GetDiscrepancies_def result_iffs)
qed

section \<open>What a batch reports\<close>

text \<open>
  The specification. What a provider calls a status is a list of words; any other word stands for
  itself. A payment agrees with the provider's answer when the provider knows it, its status is the
  payment's, and its amount is the payment's or is left open, which a number that is not positive does.
\<close>

definition provider_words :: "string \<Rightarrow> (string \<times> payment_status) list" where
  "provider_words psp =
     (if psp = ''stripe''
      then [(''requires_capture'', PaymentStatusAuthorized), (''succeeded'', PaymentStatusCaptured),
            (''canceled'', PaymentStatusCancelled)]
      else if psp = ''razorpay''
      then [(''authorized'', PaymentStatusAuthorized), (''captured'', PaymentStatusCaptured),
            (''refunded'', PaymentStatusRefunded), (''failed'', PaymentStatusFailed)]
      else [])"

definition says :: "string \<Rightarrow> string \<Rightarrow> payment_status \<Rightarrow> bool" where
  "says psp word st \<longleftrightarrow>
     (case map_of (provider_words psp) word of Some st' \<Rightarrow> st' = st | None \<Rightarrow> word = status_string st)"

definition amount_differs :: "payment_row \<Rightarrow> psp_status_response \<Rightarrow> bool" where
  "amount_differs r a \<longleftrightarrow> 0 < sint (sr_Amount a) \<and> sint (sr_Amount a) \<noteq> sint (pay_amount r)"

fun agrees :: "string \<Rightarrow> payment_row \<Rightarrow> err + psp_status_response \<Rightarrow> bool" where
  "agrees psp r (Inl e) = False"
| "agrees psp r (Inr a) = (\<not> amount_differs r a \<and> says psp (sr_Status a) (pay_status r))"

text \<open>What a report on a payment says: which payment, what is wrong, and both sides.\<close>

fun finding :: "payment_row \<Rightarrow> err + psp_status_response \<Rightarrow>
    string option \<times> discrepancy_type \<times> int64 option \<times> int64 option \<times> string option \<times> string option" where
  "finding r (Inl e) =
     (nilIfEmpty (pay_id r), DiscrepancyMissingInPSP, Some (pay_amount r), None, Some (status_string (pay_status r)), None)"
| "finding r (Inr a) =
     (nilIfEmpty (pay_id r), if amount_differs r a then DiscrepancyAmountMismatch else DiscrepancyStatusMismatch,
      Some (pay_amount r), Some (sr_Amount a), Some (status_string (pay_status r)), nilIfEmpty (sr_Status a))"

definition reported :: "discrepancy_row \<Rightarrow>
    string option \<times> discrepancy_type \<times> int64 option \<times> int64 option \<times> string option \<times> string option" where
  "reported x = (dr_payment_id x, dr_discrepancy_type x, dr_internal_amount x, dr_psp_amount x,
     dr_internal_status x, dr_psp_status x)"

text \<open>The provider's answers along the batch.\<close>

fun provider_answers :: "'w psp_adapter \<Rightarrow> payment_row list \<Rightarrow> 'w \<Rightarrow> (err + psp_status_response) list \<times> 'w" where
  "provider_answers adp [] w = ([], w)"
| "provider_answers adp (r # rs) w =
     (case ad_GetPaymentStatus adp (the (pay_psp_payment_id r)) w of
        (a, w') \<Rightarrow> (case provider_answers adp rs w' of (as, w'') \<Rightarrow> (a # as, w'')))"

text \<open>The code's comparison decides by the specification.\<close>

lemma normalized_says: "normalizePSPStatus psp word = status_string st \<longleftrightarrow> says psp word st"
  by (cases st) (simp_all add: normalizePSPStatus_def says_def provider_words_def)

lemma compare_payment_spec:
  "compare_payment psp r a =
     (if agrees psp r a then None
      else Some (case a of Inl e \<Rightarrow> (DiscrepancyMissingInPSP, None, [])
        | Inr st \<Rightarrow> (if amount_differs r st then DiscrepancyAmountMismatch else DiscrepancyStatusMismatch,
            Some (sr_Amount st), sr_Status st)))"
  by (cases a) (auto simp: compare_payment_def normalized_says amount_differs_def int64_order sint64_inject)

text \<open>The rows that are written for the verdicts of a batch.\<close>

fun mismatch_rows :: "env \<Rightarrow> nat \<Rightarrow> string \<Rightarrow> payment_row list \<Rightarrow> verdict list \<Rightarrow> discrepancy_row list" where
  "mismatch_rows env i recordID (r # rs) (Some v # vs) =
     discrepancy_of env i recordID r v # mismatch_rows env (Suc i) recordID rs vs"
| "mismatch_rows env i recordID (r # rs) (None # vs) = mismatch_rows env (Suc i) recordID rs vs"
| "mismatch_rows env i recordID _ _ = []"

fun mismatched :: "verdict \<Rightarrow> bool" where
  "mismatched None = False"
| "mismatched (Some v) = True"

definition tally_of :: "tally \<Rightarrow> payment_row list \<Rightarrow> verdict list \<Rightarrow> tally" where
  "tally_of t rs vs =
     \<lparr>ta_totalAmount = ta_totalAmount t + sum_list (map pay_amount rs),
      ta_matched = ta_matched t + int (length (filter (\<lambda>v. \<not> mismatched v) vs)),
      ta_discrepancies = ta_discrepancies t + int (length (filter mismatched vs))\<rparr>"

lemma insertDiscrepancy_quiet:
  assumes "quiet env" and "recon_by_id d recordID \<noteq> None" and "e_uuid env (i + 1) \<notin> dr_id ` set (reconciliation_discrepancies d)"
  shows "insertDiscrepancy env i (discrepancy_of env i recordID rec v) d =
    d\<lparr>reconciliation_discrepancies := reconciliation_discrepancies d @ [discrepancy_of env i recordID rec v]\<rparr>"
  using assms by (cases v)
    (auto simp: insertDiscrepancy_def logged_def at_site_def quiet_def insert_discrepancy_row_def discrepancy_of_def
      list_ex_iff image_iff)

lemma reconcile_all_quiet:
  assumes "quiet env" and "recon_by_id d recordID \<noteq> None"
    and "\<forall>n > i. e_uuid env n \<notin> dr_id ` set (reconciliation_discrepancies d)"
    and "provider_answers adp rs w = (as, w')" and "vs = map2 (compare_payment psp) rs as"
  shows "fold (reconcile_one env psp adp recordID) (enumerate i rs) (t, d, w) =
    (tally_of t rs vs,
     d\<lparr>reconciliation_discrepancies := reconciliation_discrepancies d @ mismatch_rows env i recordID rs vs\<rparr>, w')"
  using assms(2-)
proof (induction rs arbitrary: i t d w as vs)
  case Nil
  then show ?case by (auto simp: tally_of_def)
next
  case (Cons r rs)
  obtain res w1 where res: "ad_GetPaymentStatus adp (the (pay_psp_payment_id r)) w = (res, w1)"
    by (cases "ad_GetPaymentStatus adp (the (pay_psp_payment_id r)) w")
  obtain bs where bs: "provider_answers adp rs w1 = (bs, w')" "as = res # bs"
    using Cons.prems(3) res by (auto split: prod.splits)
  define us where "us = map2 (compare_payment psp) rs bs"
  have vs: "vs = compare_payment psp r res # us" by (simp add: Cons.prems(4) bs(2) us_def)
  show ?case
  proof (cases "compare_payment psp r res")
    case None
    have fresh: "\<forall>n > Suc i. e_uuid env n \<notin> dr_id ` set (reconciliation_discrepancies d)" using Cons.prems(2) by simp
    from Cons.IH [OF Cons.prems(1) fresh bs(1) us_def] res None vs show ?thesis
      by (simp add: reconcile_one_def Let_def tally_of_def)
  next
    case (Some v)
    let ?row = "discrepancy_of env i recordID r v"
    let ?d = "d\<lparr>reconciliation_discrepancies := reconciliation_discrepancies d @ [?row]\<rparr>"
    have id: "dr_id ?row = e_uuid env (i + 1)" by (cases v) (simp add: discrepancy_of_def)
    have "e_uuid env n \<noteq> e_uuid env (i + 1)" if "n > Suc i" for n
      using assms(1) that by (auto simp: quiet_def dest: injD)
    then have fresh: "\<forall>n > Suc i. e_uuid env n \<notin> dr_id ` set (reconciliation_discrepancies ?d)"
      using Cons.prems(2) id by auto
    have rec: "recon_by_id ?d recordID \<noteq> None" using Cons.prems(1) by (simp add: recon_by_id_def)
    from Cons.prems(2) have "e_uuid env (i + 1) \<notin> dr_id ` set (reconciliation_discrepancies d)" by simp
    from insertDiscrepancy_quiet [OF assms(1) Cons.prems(1) this, of r v] Cons.IH [OF rec fresh bs(1) us_def] res Some vs
    show ?thesis by (simp add: reconcile_one_def Let_def tally_of_def)
  qed
qed

lemma provider_answers_length: "provider_answers adp rs w = (as, w') \<Longrightarrow> length as = length rs"
  by (induction rs arbitrary: w as) (auto split: prod.splits)

text \<open>Read through the specification: which payments are counted where, and what is reported.\<close>

abbreviation disagreeing :: "string \<Rightarrow> payment_row list \<Rightarrow> (err + psp_status_response) list \<Rightarrow> (payment_row \<times> (err + psp_status_response)) list" where
  "disagreeing psp rs as \<equiv> filter (\<lambda>(r, a). \<not> agrees psp r a) (zip rs as)"

lemma matched_count:
  "length (filter (\<lambda>v. \<not> mismatched v) (map2 (compare_payment psp) rs as)) = length (filter (\<lambda>(r, a). agrees psp r a) (zip rs as))"
  by (induction rs as rule: list_induct2') (simp_all add: compare_payment_spec)

lemma mismatched_count:
  "length (filter mismatched (map2 (compare_payment psp) rs as)) = length (disagreeing psp rs as)"
  by (induction rs as rule: list_induct2') (simp_all add: compare_payment_spec)

lemma status_string_neq [simp]: "status_string st \<noteq> []"
  by (cases st) simp_all

lemma mismatch_rows_report:
  "map reported (mismatch_rows env i recordID rs (map2 (compare_payment psp) rs as)) = map (\<lambda>(r, a). finding r a) (disagreeing psp rs as)"
  by (induction rs as arbitrary: i rule: list_induct2')
    (auto simp: compare_payment_spec discrepancy_of_def reported_def nilIfEmpty_def split: sum.split)

lemma mismatch_rows_of_batch:
  "x \<in> set (mismatch_rows env i recordID rs vs) \<Longrightarrow>
     dr_reconciliation_record_id x = recordID \<and> dr_resolution_status x = ResolutionOpen"
  by (induction env i recordID rs vs rule: mismatch_rows.induct) (auto simp: discrepancy_of_def split: prod.splits)

text \<open>
  C30: a batch reports every payment once: when nothing fails, the batch takes the payments of the
  provider and the day that have an identifier at the provider, oldest first, and asks the provider for
  each. The record it returns is completed and counts them, sums their amounts and counts those that
  agree with the answer and those that do not; for each that does not, and for no other, one open
  discrepancy is stored, in order, that says whether the provider does not know the payment, reports
  another amount or another status, with both sides. Nothing else is written. An amount that is not
  positive counts as not reported, and a payment without an identifier at the provider is left out.
\<close>

theorem batch_reports_every_payment:
  assumes "quiet env" and "adps psp = Some adp" and "recon_by_id d (e_uuid env 0) = None"
    and "\<forall>n. e_uuid env n \<notin> dr_id ` set (reconciliation_discrepancies d)"
    and "rows = sort_key pay_created_at [r \<leftarrow> payments d. pay_psp r = psp \<and> pay_psp_payment_id r \<noteq> None
           \<and> start_of_day date \<le> pay_created_at r \<and> pay_created_at r < start_of_day date + day]"
    and "provider_answers adp rows w = (as, w')"
  shows "\<exists>rec ds. RunBatchReconciliation adps env psp date (d, w) =
      (Inr rec, d\<lparr>reconciliation_records := reconciliation_records d @ [rec],
        reconciliation_discrepancies := reconciliation_discrepancies d @ ds\<rparr>, w')
    \<and> rr_Status rec = ReconStatusCompleted \<and> rr_TotalPayments rec = int (length rows)
    \<and> rr_TotalAmount rec = sum_list (map pay_amount rows)
    \<and> rr_MatchedCount rec = int (length (filter (\<lambda>(r, a). agrees psp r a) (zip rows as)))
    \<and> rr_DiscrepancyCount rec = int (length ds)
    \<and> rr_MatchedCount rec + rr_DiscrepancyCount rec = int (length rows)
    \<and> map reported ds = map (\<lambda>(r, a). finding r a) (disagreeing psp rows as)
    \<and> (\<forall>x \<in> set ds. dr_reconciliation_record_id x = rr_ID rec \<and> dr_resolution_status x = ResolutionOpen)"
proof -
  let ?id = "e_uuid env 0" and ?new = "new_recon env psp (start_of_day date)"
  define vs where "vs = map2 (compare_payment psp) rows as"
  let ?t = "tally_of \<lparr>ta_totalAmount = 0, ta_matched = 0, ta_discrepancies = 0\<rparr> rows vs"
  let ?rec = "finalize_recon env (int (length rows)) ?t ?new"
  let ?d1 = "d\<lparr>reconciliation_records := reconciliation_records d @ [?new]\<rparr>"
  have new: "rr_ID ?new = ?id" by (simp add: new_recon_def)
  from assms(3) have absent: "\<forall>r \<in> set (reconciliation_records d). rr_ID r \<noteq> ?id"
    by (auto simp: recon_by_id_def find_None_iff)
  have ins: "insert_recon ?new d = Inr ((), ?d1)" using assms(3) new by (simp add: insert_recon_def)
  have rows: "select_recon_payments psp (start_of_day date) (start_of_day date + day) ?d1 = rows"
    by (simp add: assms(5) select_recon_payments_def conj_comms conj_left_commute)
  have known: "recon_by_id ?d1 ?id \<noteq> None" using new by (auto simp: recon_by_id_def find_append split: option.split)
  have fresh: "\<forall>n > 0. e_uuid env n \<notin> dr_id ` set (reconciliation_discrepancies ?d1)" using assms(4) by simp
  note fold = reconcile_all_quiet [OF assms(1) known fresh assms(6) vs_def, where
      t = "\<lparr>ta_totalAmount = 0, ta_matched = 0, ta_discrepancies = 0\<rparr>"]
  have upd: "update_where (\<lambda>r. rr_ID r = ?id) f (reconciliation_records d @ [?new]) = reconciliation_records d @ [f ?new]" for f
    using absent new by (simp add: update_where_none)
  have found: "find (\<lambda>r. rr_ID r = ?id) (reconciliation_records d @ [?rec]) = Some ?rec"
    using assms(3) new by (simp add: recon_by_id_def find_append finalize_recon_def)
  have quiet: "e_fault env 0 s = None" for s using assms(1) by (simp add: quiet_def)
  have run: "RunBatchReconciliation adps env psp date (d, w) =
      (Inr ?rec, d\<lparr>reconciliation_records := reconciliation_records d @ [?rec],
        reconciliation_discrepancies := reconciliation_discrepancies d @ mismatch_rows env 0 ?id rows vs\<rparr>, w')"
    using assms(2) ins rows fold upd found quiet
    by (simp add: RunBatchReconciliation_def Let_def at_site_def update_recon_def GetReconciliationRecord_def recon_by_id_def)
  have "length as = length rows" using provider_answers_length [OF assms(6)] .
  then have total: "int (length (filter (\<lambda>v. \<not> mismatched v) vs)) + int (length (filter mismatched vs)) = int (length rows)"
    using sum_length_filter_compl [of mismatched vs] by (simp add: vs_def)
  have ds: "map reported (mismatch_rows env 0 ?id rows vs) = map (\<lambda>(r, a). finding r a) (disagreeing psp rows as)"
    unfolding vs_def by (rule mismatch_rows_report)
  then have n: "length (mismatch_rows env 0 ?id rows vs) = length (filter mismatched vs)"
    unfolding vs_def mismatched_count by (metis length_map)
  show ?thesis
    using run total ds n mismatch_rows_of_batch [of _ env 0 ?id rows vs] new
    by (intro exI [of _ ?rec] exI [of _ "mismatch_rows env 0 ?id rows vs"])
      (simp add: finalize_recon_def tally_of_def matched_count [of psp rows as, folded vs_def])
qed

section \<open>Witnesses\<close>

definition mock_adapter :: "mock_world psp_adapter" where
  "mock_adapter = NewMockPSP (\<lambda>secret payload. secret @ payload) DefaultMockConfig"

lemma demo_adapters_mock: "demo_adapters PSPMock = Some mock_adapter"
  by (simp add: demo_adapters_def mock_adapter_def)

lemma demo_batch_rows:
  "sort_key pay_created_at [r \<leftarrow> payments authorized_db. pay_psp r = PSPMock \<and> pay_psp_payment_id r \<noteq> None
      \<and> start_of_day 0 \<le> pay_created_at r \<and> pay_created_at r < start_of_day 0 + day] = [demo_row PaymentStatusAuthorized]"
  by (simp add: start_of_day_def day_def minute_def second_def demo_db_def demo_row_def)

lemma demo_answers: "\<exists>a. provider_answers mock_adapter [demo_row PaymentStatusAuthorized] w = ([Inr a], w)
    \<and> sr_Amount a = 0 \<and> sr_Status a = ''captured''"
  by (simp add: mock_adapter_def NewMockPSP_def mock_GetPaymentStatus_def)

lemma demo_recon_empty: "recon_by_id authorized_db i = None" "reconciliation_records authorized_db = []"
  "reconciliation_discrepancies authorized_db = []"
  by (simp_all add: recon_by_id_def demo_db_def migrated_db_def)

definition demo_world :: mock_world where
  "demo_world = \<lparr>mw_floats = (\<lambda>_. 0), mw_next_float = 0, mw_uuids = (\<lambda>n. replicate n (CHR ''u'')), mw_next_uuid = 0\<rparr>"

lemma batch_reports_every_payment_witness:
  "\<exists>rec x. RunBatchReconciliation demo_adapters quiet_env PSPMock 0 (authorized_db, demo_world)
      = (Inr rec, authorized_db\<lparr>reconciliation_records := [rec], reconciliation_discrepancies := [x]\<rparr>, demo_world)
    \<and> rr_DiscrepancyCount rec = 1 \<and> dr_discrepancy_type x = DiscrepancyStatusMismatch \<and> dr_psp_status x = Some ''captured''"
proof -
  let ?row = "demo_row PaymentStatusAuthorized"
  obtain a where a: "provider_answers mock_adapter [?row] demo_world = ([Inr a], demo_world)"
    "sr_Amount a = 0" "sr_Status a = ''captured''" using demo_answers by blast
  have found: "\<not> agrees PSPMock ?row (Inr a)" "\<not> amount_differs ?row a"
    using a by (simp_all add: says_def provider_words_def PSPMock_def amount_differs_def demo_row_def)
  from batch_reports_every_payment [where env = quiet_env and adps = demo_adapters and psp = PSPMock and adp = mock_adapter
      and d = authorized_db and date = 0 and w = demo_world, OF quiet_quiet_env demo_adapters_mock demo_recon_empty(1) _
      demo_batch_rows [symmetric] a(1)]
  obtain rec ds where run: "RunBatchReconciliation demo_adapters quiet_env PSPMock 0 (authorized_db, demo_world) =
      (Inr rec, authorized_db\<lparr>reconciliation_records := reconciliation_records authorized_db @ [rec],
        reconciliation_discrepancies := reconciliation_discrepancies authorized_db @ ds\<rparr>, demo_world)"
    and n: "rr_DiscrepancyCount rec = int (length ds)" and ds: "map reported ds = [finding ?row (Inr a)]"
    using found(1) by (auto simp: demo_recon_empty)
  from ds obtain x where x: "ds = [x]" "reported x = finding ?row (Inr a)" by auto
  with run n found(2) a(3) show ?thesis
    by (intro exI [of _ rec] exI [of _ x]) (simp add: demo_recon_empty reported_def nilIfEmpty_def)
qed

lemma discrepancies_unreadable_witness:
  "(\<exists>ds. GetDiscrepancies quiet_env (e_uuid quiet_env 0)
     (fst (snd (RunBatchReconciliation demo_adapters quiet_env PSPMock 0 (authorized_db, demo_world)))) = Inr ds \<and> ds \<noteq> []) = False"
proof -
  obtain res d' w' where run: "RunBatchReconciliation demo_adapters quiet_env PSPMock 0 (authorized_db, demo_world) = (res, d', w')"
    by (metis surj_pair)
  from discrepancies_unreadable [OF _ run, of quiet_env "e_uuid quiet_env 0"] show ?thesis
    by (auto simp: demo_recon_empty run)
qed

end
