(* ===== verification/Dashboard.thy ===== *)
theory Dashboard
  imports Reconciliation Router
begin

text \<open>
  The admin dashboard, \<^verbatim>\<open>internal/service/dashboard.go\<close>: aggregates over the payments of a period,
  the volume per day, provider health, the list of recent payments and the activity feed. An
  aggregate is the exact integer; scanning it into an \<^verbatim>\<open>int64\<close> is an error when it does not fit.
  Averages and rates are the exact quotients that the code rounds to \<^verbatim>\<open>float64\<close>. The server and the database
  session run in UTC.
\<close>

section \<open>Aggregates\<close>

definition scan_int64 :: "int \<Rightarrow> err + int64" where
  "scan_int64 n =
     (if - 9223372036854775808 \<le> n \<and> n \<le> 9223372036854775807 then Inr (word_of_int n)
      else Inl (ExternalErr ''value is out of range for int64''))"

definition amounts :: "payment_row list \<Rightarrow> int" where
  "amounts rs = sum_list (map (\<lambda>r. sint (pay_amount r)) rs)"

definition with_state :: "payment_status \<Rightarrow> payment_row list \<Rightarrow> int" where
  "with_state st rs = int (length (filter (\<lambda>r. pay_status r = st) rs))"

text \<open>\<^verbatim>\<open>GROUP BY\<close>: the keys that occur, each with its rows.\<close>

definition group_rows :: "('r \<Rightarrow> 'k) \<Rightarrow> 'r list \<Rightarrow> ('k \<times> 'r list) list" where
  "group_rows key rs = map (\<lambda>k. (k, filter (\<lambda>r. key r = k) rs)) (remdups (map key rs))"

definition in_period :: "time \<Rightarrow> time \<Rightarrow> db \<Rightarrow> payment_row list" where
  "in_period from to d = filter (\<lambda>r. from \<le> pay_created_at r \<and> pay_created_at r < to) (payments d)"

definition percent :: "int \<Rightarrow> int \<Rightarrow> rat" where
  "percent part whole = (if 0 < whole then of_int part / of_int whole * 100 else 0)"

text \<open>A query for one row, and one for many with its loop over the rows.\<close>

definition query_one :: "env \<Rightarrow> nat \<Rightarrow> string \<Rightarrow> err + 'a \<Rightarrow> err + 'a" where
  "query_one env k ctx m = mapErr (Wrapped ctx) (andThen (guardE (e_fault env 0 (DashQuery k))) (\<lambda>_. m))"

definition query_many ::
  "env \<Rightarrow> nat \<Rightarrow> string \<Rightarrow> string \<Rightarrow> ('r \<Rightarrow> err + 'a) \<Rightarrow> err + 'r list \<Rightarrow> err + 'a list" where
  "query_many env k ctx iterating scan m =
     andThen (query_one env k ctx m) (\<lambda>rs.
     andThen (scan_all scan rs) (\<lambda>xs.
     andThen (mapErr (Wrapped iterating) (guardE (e_fault env 0 (DashRows k)))) (\<lambda>_. Inr xs)))"

lemma query_one_Inr [result_simps]:
  "query_one env k ctx m = Inr x \<longleftrightarrow> e_fault env 0 (DashQuery k) = None \<and> m = Inr x"
  by (simp add: query_one_def result_iffs)

lemma query_many_Inr [result_simps]:
  "query_many env k ctx it scan m = Inr xs \<longleftrightarrow>
     e_fault env 0 (DashQuery k) = None \<and> e_fault env 0 (DashRows k) = None
     \<and> (\<exists>rs. m = Inr rs \<and> scan_all scan rs = Inr xs)"
  by (auto simp: query_many_def query_one_Inr result_iffs)

section \<open>Statistics of a period\<close>

record dashboard_stats =
  ds_TotalPayments :: int
  ds_TotalRevenue :: int64
  ds_SuccessRate :: rat
  ds_FailureRate :: rat
  ds_AvgPaymentAmount :: rat
  ds_StatusBreakdown :: "(string \<times> int) list"
  ds_CurrencyBreakdown :: "(string \<times> int64) list"
  ds_PSPBreakdown :: "(string \<times> int) list"
  ds_TodayPayments :: int
  ds_TodayRevenue :: int64
  ds_PeriodStart :: time
  ds_PeriodEnd :: time

definition totals :: "payment_row list \<Rightarrow> err + int \<times> int64 \<times> rat" where
  "totals rs =
     andThen (scan_int64 (amounts rs)) (\<lambda>revenue.
       Inr (int (length rs), revenue,
            if rs = [] then 0 else of_int (amounts rs) / of_int (int (length rs))))"

definition count_row :: "'k \<times> 'r list \<Rightarrow> err + 'k \<times> int" where
  "count_row g = Inr (fst g, int (length (snd g)))"

definition revenue_row :: "'k \<times> payment_row list \<Rightarrow> err + 'k \<times> int64" where
  "revenue_row g = andThen (scan_int64 (amounts (snd g))) (\<lambda>total. Inr (fst g, total))"

definition today_totals :: "payment_row list \<Rightarrow> err + int \<times> int64" where
  "today_totals rs = andThen (scan_int64 (amounts rs)) (\<lambda>revenue. Inr (int (length rs), revenue))"

definition GetStats :: "env \<Rightarrow> time \<Rightarrow> time \<Rightarrow> db \<Rightarrow> err + dashboard_stats" where
  "GetStats env from to d =
     (let rs = in_period from to d; todayStart = start_of_day (e_now env 0) in
      andThen (query_one env 0 ''querying totals'' (totals rs)) (\<lambda>(n, revenue, avg).
      andThen (query_one env 1 ''querying success/failure''
         (Inr (with_state PaymentStatusCaptured rs, with_state PaymentStatusFailed rs))) (\<lambda>(successCount, failureCount).
      andThen (query_many env 2 ''querying status breakdown'' ''iterating status breakdown'' count_row
         (Inr (group_rows (\<lambda>r. status_string (pay_status r)) rs))) (\<lambda>statuses.
      andThen (query_many env 3 ''querying currency breakdown'' ''iterating currency breakdown'' revenue_row
         (Inr (group_rows pay_currency rs))) (\<lambda>currencies.
      andThen (query_many env 4 ''querying PSP breakdown'' ''iterating PSP breakdown'' count_row
         (Inr (group_rows pay_psp rs))) (\<lambda>psps.
      andThen (query_one env 5 ''querying today stats''
         (today_totals (in_period todayStart (todayStart + day) d))) (\<lambda>(todayPayments, todayRevenue).
      Inr \<lparr>ds_TotalPayments = n, ds_TotalRevenue = revenue,
           ds_SuccessRate = percent successCount n, ds_FailureRate = percent failureCount n,
           ds_AvgPaymentAmount = avg, ds_StatusBreakdown = statuses, ds_CurrencyBreakdown = currencies,
           ds_PSPBreakdown = psps, ds_TodayPayments = todayPayments, ds_TodayRevenue = todayRevenue,
           ds_PeriodStart = from, ds_PeriodEnd = to\<rparr>)))))))"

section \<open>Volume per day\<close>

record daily_volume =
  dv_Date :: string
  dv_Count :: int
  dv_Revenue :: int64

definition days_of :: "payment_row list \<Rightarrow> (int \<times> payment_row list) list" where
  "days_of rs = sort_key fst (group_rows (\<lambda>r. pay_created_at r div day) rs)"

definition volume_row :: "int \<times> payment_row list \<Rightarrow> err + daily_volume" where
  "volume_row g =
     andThen (scan_int64 (amounts (snd g))) (\<lambda>revenue.
       Inr \<lparr>dv_Date = format_date (fst g * day), dv_Count = int (length (snd g)), dv_Revenue = revenue\<rparr>)"

definition GetDailyVolume :: "env \<Rightarrow> time \<Rightarrow> time \<Rightarrow> db \<Rightarrow> err + daily_volume list" where
  "GetDailyVolume env from to d =
     query_many env 0 ''querying daily volume'' ''iterating daily volume'' volume_row
       (Inr (days_of (in_period from to d)))"

section \<open>Provider health\<close>

record psp_health =
  ph_PSP :: string
  ph_CircuitState :: string
  ph_TotalRequests :: int
  ph_TotalFailures :: int
  ph_ConsecutiveFails :: int
  ph_SuccessRate :: rat
  ph_DBTotalPayments :: int
  ph_DBCapturedCount :: int
  ph_DBFailedCount :: int
  ph_DBSuccessRate :: rat

fun cb_state_string :: "cb_state \<Rightarrow> string" where
  "cb_state_string StateClosed = ''closed''"
| "cb_state_string StateOpen = ''open''"
| "cb_state_string StateHalfOpen = ''half_open''"

text \<open>Total, captured and failed payments of a provider.\<close>

definition metric_row :: "string \<times> payment_row list \<Rightarrow> err + string \<times> int \<times> int \<times> int" where
  "metric_row g =
     Inr (fst g, int (length (snd g)), with_state PaymentStatusCaptured (snd g), with_state PaymentStatusFailed (snd g))"

fun with_metrics :: "(int \<times> int \<times> int) option \<Rightarrow> psp_health \<Rightarrow> psp_health" where
  "with_metrics None h = h"
| "with_metrics (Some (n, captured, failed)) h =
     h\<lparr>ph_DBTotalPayments := n, ph_DBCapturedCount := captured, ph_DBFailedCount := failed,
       ph_DBSuccessRate := percent captured n\<rparr>"

definition breaker_health :: "string \<Rightarrow> cb_stats \<Rightarrow> psp_health" where
  "breaker_health psp bs =
     \<lparr>ph_PSP = psp, ph_CircuitState = cb_state_string (st_State bs), ph_TotalRequests = st_TotalRequests bs,
      ph_TotalFailures = st_TotalFailures bs, ph_ConsecutiveFails = st_ConsecutiveFails bs,
      ph_SuccessRate = st_SuccessRate bs * 100, ph_DBTotalPayments = 0, ph_DBCapturedCount = 0,
      ph_DBFailedCount = 0, ph_DBSuccessRate = 0\<rparr>"

definition unknown_health :: "string \<Rightarrow> psp_health" where
  "unknown_health psp =
     \<lparr>ph_PSP = psp, ph_CircuitState = ''unknown'', ph_TotalRequests = 0, ph_TotalFailures = 0,
      ph_ConsecutiveFails = 0, ph_SuccessRate = 0, ph_DBTotalPayments = 0, ph_DBCapturedCount = 0,
      ph_DBFailedCount = 0, ph_DBSuccessRate = 0\<rparr>"

text \<open>
  First the providers with a breaker, in the order of that iteration, then those that only the
  database knows.
\<close>

definition GetPSPHealth :: "env \<Rightarrow> 'w router \<Rightarrow> db \<Rightarrow> err + psp_health list" where
  "GetPSPHealth env rt d =
     andThen (query_many env 0 ''querying PSP metrics'' ''iterating PSP metrics'' metric_row
         (Inr (group_rows pay_psp (payments d)))) (\<lambda>dbMetrics.
       let breakerStats = GetBreakerStats rt in
       Inr (List.map_filter (\<lambda>psp. map_option (\<lambda>bs. with_metrics (map_of dbMetrics psp) (breaker_health psp bs))
                                (breakerStats psp)) (e_order env)
            @ map (\<lambda>(psp, m). with_metrics (Some m) (unknown_health psp))
                (filter (\<lambda>(psp, m). breakerStats psp = None) dbMetrics)))"

section \<open>Recent payments\<close>

record recent_payment =
  rp_ID :: string
  rp_MerchantID :: string
  rp_OrderID :: string
  rp_Amount :: int64
  rp_Currency :: string
  rp_Status :: string
  rp_PSP :: string
  rp_CustomerEmail :: "string option"
  rp_CreatedAt :: time

definition recent_of_row :: "payment_row \<Rightarrow> recent_payment" where
  "recent_of_row r =
     \<lparr>rp_ID = pay_id r, rp_MerchantID = pay_merchant_id r, rp_OrderID = pay_order_id r, rp_Amount = pay_amount r,
      rp_Currency = pay_currency r, rp_Status = status_string (pay_status r), rp_PSP = pay_psp r,
      rp_CustomerEmail = Some (pay_customer_email r), rp_CreatedAt = pay_created_at r\<rparr>"

text \<open>\<^verbatim>\<open>LIMIT\<close> and \<^verbatim>\<open>OFFSET\<close>; rows of one instant stay in insertion order, which SQL leaves open.\<close>

definition page :: "int \<Rightarrow> int \<Rightarrow> 'r list \<Rightarrow> err + 'r list" where
  "page limit offset rs =
     (if limit < 0 then Inl (ExternalErr ''LIMIT must not be negative'')
      else if offset < 0 then Inl (ExternalErr ''OFFSET must not be negative'')
      else Inr (take (nat limit) (drop (nat offset) rs)))"

definition GetRecentPayments :: "env \<Rightarrow> int \<Rightarrow> int \<Rightarrow> db \<Rightarrow> err + recent_payment list \<times> int" where
  "GetRecentPayments env offset limit d =
     andThen (query_one env 0 ''counting payments'' (Inr (int (length (payments d))))) (\<lambda>total.
     andThen (query_many env 1 ''querying recent payments'' ''iterating recent payments'' (\<lambda>r. Inr (recent_of_row r))
         (page limit offset (sort_key (\<lambda>r. - pay_created_at r) (payments d)))) (\<lambda>result.
     Inr (result, total)))"

section \<open>The activity feed\<close>

record activity_event =
  ac_Timestamp :: time
  ac_EventType :: string
  ac_PaymentID :: string
  ac_Description :: string
  ac_Actor :: string

fun webhook_status_string :: "webhook_status \<Rightarrow> string" where
  "webhook_status_string WebhookStatusReceived = ''received''"
| "webhook_status_string WebhookStatusProcessing = ''processing''"
| "webhook_status_string WebhookStatusProcessed = ''processed''"
| "webhook_status_string WebhookStatusFailed = ''failed''"

text \<open>
  A literal where a \<^verbatim>\<open>UUID\<close> is expected is converted when the statement is analysed: sixteen pairs
  of hexadecimal digits, a hyphen allowed after every second pair, braces around it allowed.
\<close>

definition uuid_digit :: "char \<Rightarrow> bool" where
  "uuid_digit c \<longleftrightarrow> c \<in> set ''0123456789abcdefABCDEF''"

fun uuid_bytes :: "nat \<Rightarrow> string \<Rightarrow> string option" where
  "uuid_bytes 0 s = Some s"
| "uuid_bytes (Suc n) (a # b # s) =
     (if uuid_digit a \<and> uuid_digit b
      then uuid_bytes n (if 0 < n \<and> even n \<and> s \<noteq> [] \<and> hd s = CHR ''-'' then tl s else s)
      else None)"
| "uuid_bytes (Suc n) s = None"

definition is_uuid :: "string \<Rightarrow> bool" where
  "is_uuid s =
     (case s of
        [] \<Rightarrow> False
      | c # cs \<Rightarrow>
          if c = CHR 0x7B then uuid_bytes 16 cs = Some [CHR 0x7D]
          else uuid_bytes 16 s = Some [])"

definition uuid_literal :: "string \<Rightarrow> err + string" where
  "uuid_literal s =
     (if is_uuid s then Inr s
      else Inl (ExternalErr (''invalid input syntax for type uuid: '' @ [CHR 0x22] @ s @ [CHR 0x22])))"

definition transition_event :: "state_transition \<Rightarrow> activity_event" where
  "transition_event t =
     \<lparr>ac_Timestamp = tr_CreatedAt t, ac_EventType = ''state_transition'', ac_PaymentID = tr_PaymentID t,
      ac_Description = (case tr_FromStatus t of None \<Rightarrow> [] | Some st \<Rightarrow> status_string st) @ arrow
        @ status_string (tr_ToStatus t) @ '': '' @ tr_Reason t,
      ac_Actor = tr_TriggeredBy t\<rparr>"

definition webhook_activity :: "string \<Rightarrow> webhook_event \<Rightarrow> activity_event" where
  "webhook_activity missing w =
     \<lparr>ac_Timestamp = we_CreatedAt w, ac_EventType = ''webhook'',
      ac_PaymentID = (case we_InternalPaymentID w of None \<Rightarrow> missing | Some i \<Rightarrow> i),
      ac_Description = we_PSP w @ ''/'' @ we_EventType w @ '' ['' @ webhook_status_string (we_Status w) @ '']'',
      ac_Actor = we_PSP w\<rparr>"

definition newest :: "('r \<Rightarrow> time) \<Rightarrow> int \<Rightarrow> 'r list \<Rightarrow> err + 'r list" where
  "newest time_of limit rs = page limit 0 (sort_key (\<lambda>r. - time_of r) rs)"

definition GetActivityFeed :: "env \<Rightarrow> int \<Rightarrow> db \<Rightarrow> err + activity_event list" where
  "GetActivityFeed env limit d =
     query_many env 0 ''querying activity feed'' ''iterating activity feed'' Inr
       (andThen (uuid_literal []) (\<lambda>missing.
        andThen (newest tr_CreatedAt limit (payment_state_transitions d)) (\<lambda>ts.
        andThen (newest we_CreatedAt limit (webhook_events d)) (\<lambda>ws.
          newest ac_Timestamp limit (map transition_event ts @ map (webhook_activity missing) ws)))))"

section \<open>Groups\<close>

lemma sum_groups:
  fixes h :: "'r \<Rightarrow> 'a :: comm_monoid_add"
  assumes "finite K" and "key ` set rs \<subseteq> K"
  shows "(\<Sum>k \<in> K. sum_list (map h (filter (\<lambda>r. key r = k) rs))) = sum_list (map h rs)"
  using assms
proof (induction rs)
  case (Cons r rs)
  have "(\<Sum>k \<in> K. sum_list (map h (filter (\<lambda>x. key x = k) (r # rs))))
      = (\<Sum>k \<in> K. (if k = key r then h r else 0) + sum_list (map h (filter (\<lambda>x. key x = k) rs)))"
    by (intro sum.cong) auto
  also have "\<dots> = h r + sum_list (map h rs)"
    using Cons by (simp add: sum.distrib sum.delta)
  finally show ?case by simp
qed simp

lemma sum_group_rows:
  "sum_list (map (\<lambda>g. sum_list (map h (snd g))) (group_rows key rs)) = (sum_list (map h rs) :: 'a :: comm_monoid_add)"
proof -
  have "sum_list (map (\<lambda>g. sum_list (map h (snd g))) (group_rows key rs))
      = sum_list (map (\<lambda>k. sum_list (map h (filter (\<lambda>r. key r = k) rs))) (remdups (map key rs)))"
    by (simp add: group_rows_def comp_def)
  also have "\<dots> = (\<Sum>k \<in> key ` set rs. sum_list (map h (filter (\<lambda>r. key r = k) rs)))"
    by (subst sum_list_distinct_conv_sum_set) simp_all
  also have "\<dots> = sum_list (map h rs)" by (rule sum_groups) simp_all
  finally show ?thesis .
qed

lemma length_as_sum: "int (length rs) = sum_list (map (\<lambda>_. 1) rs)"
  by (simp add: sum_list_triv)

lemma length_group_rows: "sum_list (map (\<lambda>g. int (length (snd g))) (group_rows key rs)) = int (length rs)"
  unfolding length_as_sum by (rule sum_group_rows)

lemma amounts_group_rows: "sum_list (map (\<lambda>g. amounts (snd g)) (group_rows key rs)) = amounts rs"
  unfolding amounts_def by (rule sum_group_rows)

lemma group_rows_keys [simp]: "map fst (group_rows key rs) = remdups (map key rs)"
  by (simp add: group_rows_def comp_def)

lemma group_rows_sound:
  "(k, g) \<in> set (group_rows key rs) \<longleftrightarrow> k \<in> key ` set rs \<and> g = filter (\<lambda>r. key r = k) rs"
  by (auto simp: group_rows_def)

text \<open>Sorting the groups permutes them.\<close>

lemma sum_list_insort_key: "sum_list (map h (insort_key f x xs)) = (h x + sum_list (map h xs) :: int)"
  by (induction xs) auto

lemma sum_list_sort_key: "sum_list (map h (sort_key f xs)) = (sum_list (map h xs) :: int)"
  by (induction xs) (simp_all add: sort_key_def sum_list_insort_key)

lemma scan_int64_Inr: "scan_int64 n = Inr w \<Longrightarrow> sint w = n"
  by (auto simp: scan_int64_def sint_sbintrunc' signed_take_bit_int_eq_self split: if_splits)

lemma scan_all_map:
  assumes "scan_all f rs = Inr xs" and "\<And>r x. f r = Inr x \<Longrightarrow> g x = h r"
  shows "map g xs = map h rs"
  using assms(1)
proof (induction rs arbitrary: xs)
  case (Cons r rs)
  then show ?case by (auto simp: result_iffs assms(2))
qed simp

lemma scan_all_total: "(\<And>r. \<exists>x. f r = Inr x) \<Longrightarrow> \<exists>xs. scan_all f rs = Inr xs"
  by (induction rs) (auto simp: result_iffs)

lemma percent_bounds:
  assumes "0 \<le> a" and "0 \<le> b" and "a + b \<le> n"
  shows "0 \<le> percent a n" "0 \<le> percent b n" "percent a n + percent b n \<le> 100"
proof -
  show "0 \<le> percent a n" "0 \<le> percent b n" using assms by (simp_all add: percent_def)
  show "percent a n + percent b n \<le> 100"
  proof (cases "0 < n")
    case True
    then have "percent a n + percent b n = of_int (a + b) / of_int n * 100"
      by (simp add: percent_def add_divide_distrib distrib_right)
    also have "\<dots> \<le> 100" using assms True by (simp add: divide_le_eq)
    finally show ?thesis .
  qed (simp add: percent_def)
qed

section \<open>The figures agree\<close>

lemma with_state_le:
  assumes "a \<noteq> b"
  shows "0 \<le> with_state a rs" "0 \<le> with_state b rs" "with_state a rs + with_state b rs \<le> int (length rs)"
proof -
  have "length (filter (\<lambda>r. pay_status r = a) rs) + length (filter (\<lambda>r. pay_status r = b) rs) \<le> length rs"
    using assms by (induction rs) auto
  then show "with_state a rs + with_state b rs \<le> int (length rs)" by (simp add: with_state_def)
qed (simp_all add: with_state_def)

lemma totals_Inr:
  assumes "totals rs = Inr (n, revenue, avg)"
  shows "n = int (length rs)" "sint revenue = amounts rs"
  using assms by (auto simp: totals_def result_iffs dest: scan_int64_Inr)

lemma count_rows:
  assumes "scan_all count_row (group_rows key rs) = Inr xs"
  shows "sum_list (map snd xs) = int (length rs)" "map fst xs = remdups (map key rs)"
proof -
  have "map snd xs = map (\<lambda>g. int (length (snd g))) (group_rows key rs)"
    by (rule scan_all_map [OF assms]) (auto simp: count_row_def)
  then show "sum_list (map snd xs) = int (length rs)" by (simp add: length_group_rows)
  have "map fst xs = map fst (group_rows key rs)" by (rule scan_all_map [OF assms]) (auto simp: count_row_def)
  then show "map fst xs = remdups (map key rs)" by simp
qed

lemma revenue_rows:
  assumes "scan_all revenue_row (group_rows key rs) = Inr xs"
  shows "sum_list (map (\<lambda>x. sint (snd x)) xs) = amounts rs" "map fst xs = remdups (map key rs)"
proof -
  have "map (\<lambda>x. sint (snd x)) xs = map (\<lambda>g. amounts (snd g)) (group_rows key rs)"
    by (rule scan_all_map [OF assms]) (auto simp: revenue_row_def result_iffs dest: scan_int64_Inr)
  then show "sum_list (map (\<lambda>x. sint (snd x)) xs) = amounts rs" by (simp add: amounts_group_rows)
  have "map fst xs = map fst (group_rows key rs)"
    by (rule scan_all_map [OF assms]) (auto simp: revenue_row_def result_iffs)
  then show "map fst xs = remdups (map key rs)" by simp
qed

lemma volume_rows:
  assumes "scan_all volume_row (days_of rs) = Inr vs"
  shows "sum_list (map dv_Count vs) = int (length rs)" "sum_list (map (\<lambda>v. sint (dv_Revenue v)) vs) = amounts rs"
proof -
  have "map dv_Count vs = map (\<lambda>g. int (length (snd g))) (days_of rs)"
    by (rule scan_all_map [OF assms]) (auto simp: volume_row_def result_iffs)
  then show "sum_list (map dv_Count vs) = int (length rs)"
    by (simp add: days_of_def sum_list_sort_key length_group_rows)
  have "map (\<lambda>v. sint (dv_Revenue v)) vs = map (\<lambda>g. amounts (snd g)) (days_of rs)"
    by (rule scan_all_map [OF assms]) (auto simp: volume_row_def result_iffs dest: scan_int64_Inr)
  then show "sum_list (map (\<lambda>v. sint (dv_Revenue v)) vs) = amounts rs"
    by (simp add: days_of_def sum_list_sort_key amounts_group_rows)
qed

text \<open>
  The figures of the dashboard agree with each other: the breakdowns by status, currency and
  provider name each key once and add up to the totals of the period, so does the volume per day,
  and the success and failure rates are percentages that together stay within a hundred.
\<close>

theorem dashboard_figures_agree:
  assumes "GetStats env from to d = Inr st" and "GetDailyVolume env from to d = Inr vs"
  shows "sum_list (map snd (ds_StatusBreakdown st)) = ds_TotalPayments st
    \<and> sum_list (map snd (ds_PSPBreakdown st)) = ds_TotalPayments st
    \<and> sum_list (map (\<lambda>x. sint (snd x)) (ds_CurrencyBreakdown st)) = sint (ds_TotalRevenue st)
    \<and> distinct (map fst (ds_StatusBreakdown st)) \<and> distinct (map fst (ds_PSPBreakdown st))
    \<and> distinct (map fst (ds_CurrencyBreakdown st))
    \<and> sum_list (map dv_Count vs) = ds_TotalPayments st
    \<and> sum_list (map (\<lambda>v. sint (dv_Revenue v)) vs) = sint (ds_TotalRevenue st)
    \<and> 0 \<le> ds_SuccessRate st \<and> 0 \<le> ds_FailureRate st \<and> ds_SuccessRate st + ds_FailureRate st \<le> 100"
proof -
  let ?rs = "in_period from to d"
  from assms(1) obtain n revenue avg statuses currencies psps where
    t: "totals ?rs = Inr (n, revenue, avg)"
    and s: "scan_all count_row (group_rows (\<lambda>r. status_string (pay_status r)) ?rs) = Inr statuses"
    and c: "scan_all revenue_row (group_rows pay_currency ?rs) = Inr currencies"
    and p: "scan_all count_row (group_rows pay_psp ?rs) = Inr psps"
    and st: "ds_TotalPayments st = n" "ds_TotalRevenue st = revenue" "ds_StatusBreakdown st = statuses"
      "ds_CurrencyBreakdown st = currencies" "ds_PSPBreakdown st = psps"
      "ds_SuccessRate st = percent (with_state PaymentStatusCaptured ?rs) n"
      "ds_FailureRate st = percent (with_state PaymentStatusFailed ?rs) n"
    by (auto simp: GetStats_def Let_def result_iffs result_simps)
  from assms(2) have v: "scan_all volume_row (days_of ?rs) = Inr vs"
    by (simp add: GetDailyVolume_def query_many_Inr)
  have rates: "0 \<le> percent (with_state PaymentStatusCaptured ?rs) n" "0 \<le> percent (with_state PaymentStatusFailed ?rs) n"
    "percent (with_state PaymentStatusCaptured ?rs) n + percent (with_state PaymentStatusFailed ?rs) n \<le> 100"
    using percent_bounds [OF with_state_le [of PaymentStatusCaptured PaymentStatusFailed ?rs]] totals_Inr(1) [OF t] by simp_all
  from st totals_Inr [OF t] count_rows [OF s] revenue_rows [OF c] count_rows [OF p] volume_rows [OF v] rates
  show ?thesis by simp
qed

text \<open>
  The activity feed cannot be shown: the statement compares a \<^verbatim>\<open>UUID\<close> column with the empty
  string, which is no \<^verbatim>\<open>UUID\<close>, so it fails whatever the tables hold.
\<close>

theorem activity_feed_always_fails:
  "\<exists>e. GetActivityFeed env limit d = Inl (Wrapped ''querying activity feed'' e)"
  by (cases "e_fault env 0 (DashQuery 0)")
    (simp_all add: GetActivityFeed_def query_many_def query_one_def uuid_literal_def is_uuid_def)

lemma metric_rows:
  assumes "scan_all metric_row gs = Inr ms"
  shows "ms = map (\<lambda>g. (fst g, int (length (snd g)), with_state PaymentStatusCaptured (snd g),
                     with_state PaymentStatusFailed (snd g))) gs"
  using scan_all_map [OF assms, of id "\<lambda>g. (fst g, int (length (snd g)), with_state PaymentStatusCaptured (snd g),
      with_state PaymentStatusFailed (snd g))"] by (simp add: metric_row_def)

lemma with_metrics_PSP [simp]: "ph_PSP (with_metrics m h) = ph_PSP h"
  by (cases "(m, h)" rule: with_metrics.cases) auto

lemma health_PSP [simp]: "ph_PSP (breaker_health p bs) = p" "ph_PSP (unknown_health p) = p"
  by (simp_all add: breaker_health_def unknown_health_def)

lemma map_filter_filter:
  assumes "\<And>p y. f p = Some y \<Longrightarrow> g y = p"
  shows "map g (List.map_filter f ps) = filter (\<lambda>p. f p \<noteq> None) ps"
  using assms by (induction ps) (auto simp: List.map_filter_simps split: option.split)

text \<open>
  Every provider is reported: the health report has exactly one entry for each provider that
  has a breaker or a payment, and none for another.
\<close>

theorem every_provider_reported_once:
  assumes "GetPSPHealth env rt d = Inr hs" and "distinct (e_order env)" and "dom (breakers rt) \<subseteq> set (e_order env)"
  shows "distinct (map ph_PSP hs)
    \<and> set (map ph_PSP hs) = dom (breakers rt) \<union> pay_psp ` set (payments d)"
proof -
  let ?stats = "GetBreakerStats rt"
  from assms(1) obtain ms where ms: "scan_all metric_row (group_rows pay_psp (payments d)) = Inr ms"
    and hs: "hs = List.map_filter (\<lambda>psp. map_option (\<lambda>bs. with_metrics (map_of ms psp) (breaker_health psp bs))
                                (?stats psp)) (e_order env)
            @ map (\<lambda>(psp, m). with_metrics (Some m) (unknown_health psp)) (filter (\<lambda>(psp, m). ?stats psp = None) ms)"
    by (auto simp: GetPSPHealth_def Let_def result_iffs result_simps)
  have dom: "?stats p = None \<longleftrightarrow> p \<notin> dom (breakers rt)" for p by (auto simp: GetBreakerStats_def)
  have keys: "map fst ms = remdups (map pay_psp (payments d))"
    using metric_rows [OF ms] group_rows_keys [of pay_psp "payments d"] by (simp add: comp_def)
  have first: "map ph_PSP (List.map_filter (\<lambda>psp. map_option (\<lambda>bs. with_metrics (map_of ms psp) (breaker_health psp bs))
                                (?stats psp)) (e_order env)) = filter (\<lambda>p. ?stats p \<noteq> None) (e_order env)"
    by (subst map_filter_filter) auto
  have rest: "map ph_PSP (map (\<lambda>(psp, m). with_metrics (Some m) (unknown_health psp)) (filter (\<lambda>(psp, m). ?stats psp = None) ms))
      = filter (\<lambda>p. ?stats p = None) (map fst ms)"
    by (induction ms) auto
  from first rest hs keys have all: "map ph_PSP hs = filter (\<lambda>p. ?stats p \<noteq> None) (e_order env)
      @ filter (\<lambda>p. ?stats p = None) (remdups (map pay_psp (payments d)))" by simp
  show ?thesis unfolding all dom using assms(2,3) by (auto simp: domIff)
qed


section \<open>Witnesses\<close>

lemma demo_stats:
  "\<exists>st. GetStats quiet_env 0 day authorized_db = Inr st \<and> ds_TotalPayments st = 1"
proof -
  have "map_sum id ds_TotalPayments (GetStats quiet_env 0 day authorized_db) = Inr 1" by code_simp
  then show ?thesis by (cases "GetStats quiet_env 0 day authorized_db") auto
qed

lemma demo_volume:
  "\<exists>vs. GetDailyVolume quiet_env 0 day authorized_db = Inr vs"
proof -
  have "map_sum id length (GetDailyVolume quiet_env 0 day authorized_db) = Inr 1" by code_simp
  then show ?thesis by (cases "GetDailyVolume quiet_env 0 day authorized_db") auto
qed

lemma dashboard_figures_agree_witness:
  "\<exists>st. GetStats quiet_env 0 day authorized_db = Inr st \<and> sum_list (map snd (ds_StatusBreakdown st)) = 1"
proof -
  obtain st vs where "GetStats quiet_env 0 day authorized_db = Inr st" "ds_TotalPayments st = 1"
    "GetDailyVolume quiet_env 0 day authorized_db = Inr vs" using demo_stats demo_volume by blast
  with dashboard_figures_agree [OF this(1,3)] show ?thesis by simp
qed

definition mock_router :: "mock_world router" where
  "mock_router = RegisterAdapter PSPMock mock_adapter NewPaymentRouter"

lemma GetPSPHealth_quiet:
  assumes "quiet env" shows "\<exists>hs. GetPSPHealth env rt d = Inr hs"
proof -
  obtain ms where "scan_all metric_row (group_rows pay_psp (payments d)) = Inr ms"
    using scan_all_total [of metric_row] by (auto simp: metric_row_def)
  then have "query_many env 0 ''querying PSP metrics'' ''iterating PSP metrics'' metric_row
      (Inr (group_rows pay_psp (payments d))) = Inr ms"
    using assms by (simp add: query_many_Inr quiet_def)
  then show ?thesis by (simp add: GetPSPHealth_def Let_def)
qed

lemma distinct_single: "distinct xs \<Longrightarrow> set xs = {x} \<Longrightarrow> xs = [x]"
  by (cases xs) (auto simp: subset_singleton_iff)

lemma every_provider_reported_once_witness:
  "\<exists>hs. GetPSPHealth (quiet_env\<lparr>e_order := [PSPMock]\<rparr>) mock_router authorized_db = Inr hs \<and> map ph_PSP hs = [PSPMock]"
proof -
  let ?env = "quiet_env\<lparr>e_order := [PSPMock]\<rparr>"
  have br: "dom (breakers mock_router) = {PSPMock}"
    by (simp add: mock_router_def RegisterAdapter_def NewPaymentRouter_def)
  have ps: "pay_psp ` set (payments authorized_db) = {PSPMock}"
    by (simp add: demo_db_def demo_row_def)
  obtain hs where hs: "GetPSPHealth ?env mock_router authorized_db = Inr hs"
    using GetPSPHealth_quiet [of ?env mock_router authorized_db] quiet_quiet_env by (auto simp: quiet_def)
  from every_provider_reported_once [OF hs] have "distinct (map ph_PSP hs)" "set (map ph_PSP hs) = {PSPMock}"
    by (simp_all add: br ps)
  then have "map ph_PSP hs = [PSPMock]"
    by (rule distinct_single)
  with hs show ?thesis by (intro exI conjI)
qed

end
