(* ===== verification/PubSub.thy ===== *)
theory PubSub
  imports Webhook_Service Text
begin

text \<open>
  Google Cloud Pub/Sub as the repository uses it, \<^verbatim>\<open>internal/pubsub\<close>: the set-up of topics and
  subscriptions, publishing a webhook, the subscriber that processes it, and the dead-letter
  subscription. The service is a parameter: a record of calls on an abstract state \<open>'p\<close>. The JSON codec of a
  webhook message is another, with its round trip as a law.
\<close>

section \<open>Messages and configuration\<close>

record pubsub_config =
  pc_ProjectID :: string
  pc_WebhookTopicID :: string
  pc_EventTopicID :: string
  pc_SubscriptionID :: string
  pc_DLQTopicID :: string
  pc_DLQSubID :: string
  pc_MaxRetries :: int
  pc_Enabled :: bool

record webhook_message =
  wm_PSP :: string
  wm_EventType :: string
  wm_Payload :: string
  wm_Signature :: string

record wm_codec =
  wm_marshal :: "webhook_message \<Rightarrow> string"
  wm_unmarshal :: "string \<Rightarrow> webhook_message option"

definition wm_roundtrip :: "wm_codec \<Rightarrow> bool" where
  "wm_roundtrip c \<longleftrightarrow> (\<forall>m. wm_unmarshal c (wm_marshal c m) = Some m)"

record pubsub_message =
  pm_ID :: string
  pm_Data :: string
  pm_Attributes :: "(string \<times> string) list"
  pm_DeliveryAttempt :: "int option"
  pm_PublishTime :: string

definition outgoing :: "string \<Rightarrow> (string \<times> string) list \<Rightarrow> pubsub_message" where
  "outgoing data attrs =
     \<lparr>pm_ID = [], pm_Data = data, pm_Attributes = attrs, pm_DeliveryAttempt = None, pm_PublishTime = []\<rparr>"

section \<open>The service\<close>

record subscription =
  su_Name :: string
  su_Topic :: string
  su_AckDeadlineSeconds :: int
  su_MinimumBackoff :: duration
  su_MaximumBackoff :: duration
  su_DeadLetterPolicy :: "(string \<times> int) option"

datatype admin_error = AlreadyExists | AdminError err

record 'p pubsub_api =
  pa_Dial :: "string \<Rightarrow> 'p \<Rightarrow> err option"
  pa_CreateTopic :: "string \<Rightarrow> 'p \<Rightarrow> admin_error option \<times> 'p"
  pa_CreateSubscription :: "subscription \<Rightarrow> 'p \<Rightarrow> admin_error option \<times> 'p"
  pa_Publish :: "string \<Rightarrow> pubsub_message \<Rightarrow> 'p \<Rightarrow> (err + string) \<times> 'p"

section \<open>Setting up\<close>

definition topicPath :: "string \<Rightarrow> string \<Rightarrow> string" where
  "topicPath projectID topicID = ''projects/'' @ projectID @ ''/topics/'' @ topicID"

definition subPath :: "string \<Rightarrow> string \<Rightarrow> string" where
  "subPath projectID subID = ''projects/'' @ projectID @ ''/subscriptions/'' @ subID"

text \<open>A resource that is there already is as good as a new one.\<close>

definition tolerate :: "string \<Rightarrow> admin_error option \<Rightarrow> err option" where
  "tolerate ctx res =
     (case res of
        None \<Rightarrow> None
      | Some AlreadyExists \<Rightarrow> None
      | Some (AdminError e) \<Rightarrow> Some (Wrapped ctx e))"

definition ensureTopic :: "'p pubsub_api \<Rightarrow> string \<Rightarrow> string \<Rightarrow> 'p \<Rightarrow> err option \<times> 'p" where
  "ensureTopic api projectID topicID p =
     (case pa_CreateTopic api (topicPath projectID topicID) p of
        (res, p') \<Rightarrow> (tolerate (''creating topic '' @ topicID) res, p'))"

definition to_int32 :: "int \<Rightarrow> int" where
  "to_int32 n = sint (word_of_int n :: 32 word)"

definition subscription_of :: "string \<Rightarrow> string \<Rightarrow> string \<Rightarrow> string \<Rightarrow> int \<Rightarrow> subscription" where
  "subscription_of projectID subID topicID dlqTopicPath maxRetries =
     \<lparr>su_Name = subPath projectID subID, su_Topic = topicPath projectID topicID, su_AckDeadlineSeconds = 60,
      su_MinimumBackoff = second, su_MaximumBackoff = 60 * second,
      su_DeadLetterPolicy =
        (if dlqTopicPath \<noteq> [] \<and> maxRetries > 0 then Some (dlqTopicPath, to_int32 maxRetries) else None)\<rparr>"

definition ensureSubscription ::
  "'p pubsub_api \<Rightarrow> string \<Rightarrow> string \<Rightarrow> string \<Rightarrow> string \<Rightarrow> int \<Rightarrow> 'p \<Rightarrow> err option \<times> 'p" where
  "ensureSubscription api projectID subID topicID dlqTopicPath maxRetries p =
     (case pa_CreateSubscription api (subscription_of projectID subID topicID dlqTopicPath maxRetries) p of
        (res, p') \<Rightarrow> (tolerate (''creating subscription '' @ subID) res, p'))"

fun ensure_topics :: "'p pubsub_api \<Rightarrow> string \<Rightarrow> string list \<Rightarrow> 'p \<Rightarrow> err option \<times> 'p" where
  "ensure_topics api projectID [] p = (None, p)"
| "ensure_topics api projectID (t # ts) p =
     (case ensureTopic api projectID t p of
        (Some e, p') \<Rightarrow> (Some (Wrapped (''ensuring topic '' @ t) e), p')
      | (None, p') \<Rightarrow> ensure_topics api projectID ts p')"

definition NewClient :: "'p pubsub_api \<Rightarrow> pubsub_config \<Rightarrow> 'p \<Rightarrow> (err + pubsub_config) \<times> 'p" where
  "NewClient api cfg p =
     (case pa_Dial api (pc_ProjectID cfg) p of
        Some e \<Rightarrow> (Inl (Wrapped ''creating pubsub client'' e), p)
      | None \<Rightarrow>
        (case ensure_topics api (pc_ProjectID cfg) [pc_WebhookTopicID cfg, pc_EventTopicID cfg, pc_DLQTopicID cfg] p of
           (Some e, p1) \<Rightarrow> (Inl e, p1)
         | (None, p1) \<Rightarrow>
           (case ensureSubscription api (pc_ProjectID cfg) (pc_SubscriptionID cfg) (pc_WebhookTopicID cfg)
                   (topicPath (pc_ProjectID cfg) (pc_DLQTopicID cfg)) (pc_MaxRetries cfg) p1 of
              (Some e, p2) \<Rightarrow> (Inl (Wrapped ''ensuring webhook subscription'' e), p2)
            | (None, p2) \<Rightarrow>
              (case ensureSubscription api (pc_ProjectID cfg) (pc_DLQSubID cfg) (pc_DLQTopicID cfg) [] 0 p2 of
                 (Some e, p3) \<Rightarrow> (Inl (Wrapped ''ensuring DLQ subscription'' e), p3)
               | (None, p3) \<Rightarrow> (Inr cfg, p3)))))"

section \<open>Publishing and processing webhooks\<close>

definition webhook_envelope :: "wm_codec \<Rightarrow> string \<Rightarrow> string \<Rightarrow> string \<Rightarrow> string \<Rightarrow> pubsub_message" where
  "webhook_envelope codec psp eventType payload signature =
     outgoing (wm_marshal codec \<lparr>wm_PSP = psp, wm_EventType = eventType, wm_Payload = payload, wm_Signature = signature\<rparr>)
       [(''psp'', psp), (''event_type'', eventType)]"

definition PublishWebhook ::
  "'p pubsub_api \<Rightarrow> pubsub_config \<Rightarrow> wm_codec \<Rightarrow> string \<Rightarrow> string \<Rightarrow> string \<Rightarrow> string \<Rightarrow> 'p \<Rightarrow> (err + unit) \<times> 'p" where
  "PublishWebhook api cfg codec psp eventType payload signature p =
     (case pa_Publish api (pc_WebhookTopicID cfg) (webhook_envelope codec psp eventType payload signature) p of
        (Inl e, p') \<Rightarrow> (Inl (Wrapped ''publishing webhook to pubsub'' e), p')
      | (Inr i, p') \<Rightarrow> (Inr (), p'))"

definition deliveryAttempt :: "pubsub_message \<Rightarrow> int" where
  "deliveryAttempt msg = (case pm_DeliveryAttempt msg of Some n \<Rightarrow> n | None \<Rightarrow> 0)"

datatype ack = Ack | Nack

text \<open>The callback of the subscriber. The service layer's \<^verbatim>\<open>IngestWebhook\<close> is the processor.\<close>

definition receive_webhook ::
  "web_lib \<Rightarrow> (string \<rightharpoonup> 'w psp_adapter) \<Rightarrow> wm_codec \<Rightarrow> env \<Rightarrow> pubsub_message \<Rightarrow> db \<Rightarrow> ack \<times> db" where
  "receive_webhook lib adps codec env msg d =
     (case wm_unmarshal codec (pm_Data msg) of
        None \<Rightarrow> (Ack, d)
      | Some webhook \<Rightarrow>
          (case IngestWebhook lib adps env (wm_PSP webhook) (wm_EventType webhook) (wm_Payload webhook)
                  (wm_Signature webhook) d of
             (Inl e, d') \<Rightarrow> (Nack, d')
           | (Inr _, d') \<Rightarrow> (Ack, d')))"

section \<open>The dead-letter subscription\<close>

record pubsub_dlq_entry =
  pd_MessageID :: string
  pd_PSP :: string
  pd_EventType :: string
  pd_Payload :: string
  pd_DeliveryCount :: int
  pd_PublishTime :: string
  pd_RawData :: string

definition entry_of_message :: "wm_codec \<Rightarrow> pubsub_message \<Rightarrow> pubsub_dlq_entry" where
  "entry_of_message codec msg =
     (case wm_unmarshal codec (pm_Data msg) of
        Some webhook \<Rightarrow>
          \<lparr>pd_MessageID = pm_ID msg, pd_PSP = wm_PSP webhook, pd_EventType = wm_EventType webhook,
           pd_Payload = wm_Payload webhook, pd_DeliveryCount = deliveryAttempt msg,
           pd_PublishTime = pm_PublishTime msg, pd_RawData = pm_Data msg\<rparr>
      | None \<Rightarrow>
          \<lparr>pd_MessageID = pm_ID msg, pd_PSP = [], pd_EventType = [], pd_Payload = pm_Data msg,
           pd_DeliveryCount = deliveryAttempt msg, pd_PublishTime = pm_PublishTime msg, pd_RawData = pm_Data msg\<rparr>)"

text \<open>
  The messages are those the service delivers, one at a time; every one is put back. The receiving stops
  when enough entries are there, or with the service's error or the end of the context.
\<close>

fun pull_messages :: "wm_codec \<Rightarrow> int \<Rightarrow> pubsub_dlq_entry list \<Rightarrow> pubsub_message list \<Rightarrow> pubsub_dlq_entry list" where
  "pull_messages codec maxMessages entries [] = entries"
| "pull_messages codec maxMessages entries (m # ms) =
     (let entries = entries @ [entry_of_message codec m] in
      if int (length entries) \<ge> maxMessages then entries else pull_messages codec maxMessages entries ms)"

definition PullDLQEntries ::
  "wm_codec \<Rightarrow> int \<Rightarrow> pubsub_message list \<Rightarrow> err option \<Rightarrow> bool \<Rightarrow> err + pubsub_dlq_entry list" where
  "PullDLQEntries codec maxMessages delivered receiveErr ctxEnded =
     (case receiveErr of
        Some e \<Rightarrow> if \<not> ctxEnded then Inl (Wrapped ''pulling DLQ entries'' e)
                  else Inr (pull_messages codec maxMessages [] delivered)
      | None \<Rightarrow> Inr (pull_messages codec maxMessages [] delivered))"

definition RetryDLQMessage :: "'p pubsub_api \<Rightarrow> pubsub_config \<Rightarrow> string \<Rightarrow> 'p \<Rightarrow> (err + unit) \<times> 'p" where
  "RetryDLQMessage api cfg messageData p =
     (case pa_Publish api (pc_WebhookTopicID cfg) (outgoing messageData []) p of
        (Inl e, p') \<Rightarrow> (Inl (Wrapped ''republishing DLQ message'' e), p')
      | (Inr i, p') \<Rightarrow> (Inr (), p'))"

section \<open>Delivery\<close>

text \<open>Pub/Sub delivers a message again and again until it is acknowledged.\<close>

fun deliver ::
  "web_lib \<Rightarrow> (string \<rightharpoonup> 'w psp_adapter) \<Rightarrow> wm_codec \<Rightarrow> env list \<Rightarrow> pubsub_message \<Rightarrow> db \<Rightarrow> ack list \<times> db" where
  "deliver lib adps codec [] msg d = ([], d)"
| "deliver lib adps codec (env # envs) msg d =
     (case receive_webhook lib adps codec env msg d of
        (Ack, d') \<Rightarrow> ([Ack], d')
      | (Nack, d') \<Rightarrow> (case deliver lib adps codec envs msg d' of (acks, d'') \<Rightarrow> (Nack # acks, d'')))"

text \<open>
  The asynchronous path does what the synchronous one does: the message that the webhook
  handler publishes, delivered to the subscriber, leaves the database as calling the service directly
  would, and is acknowledged exactly when the service reports success.
\<close>

theorem async_webhook_equals_sync:
  assumes "wm_roundtrip codec"
  shows "receive_webhook lib adps codec env (webhook_envelope codec psp eventType payload signature) d =
    ((if isInl (fst (IngestWebhook lib adps env psp eventType payload signature d)) then Nack else Ack),
     snd (IngestWebhook lib adps env psp eventType payload signature d))"
  using assms by (cases "IngestWebhook lib adps env psp eventType payload signature d";
      cases "fst (IngestWebhook lib adps env psp eventType payload signature d)")
    (auto simp: receive_webhook_def webhook_envelope_def outgoing_def wm_roundtrip_def)

lemma ingest_changed_verified:
  assumes "snd (IngestWebhook lib adps env psp ty payload sig d) \<noteq> d"
  obtains adp where "adps psp = Some adp" "ad_VerifyWebhookSignature adp payload sig = None"
proof (cases "adps psp")
  case (Some adp)
  have "ad_VerifyWebhookSignature adp payload sig = None"
    by (rule ccontr) (use assms Some in \<open>auto simp: IngestWebhook_def ingestWebhookInternal_def\<close>)
  from that [OF Some this] show thesis .
qed (use assms in \<open>simp add: IngestWebhook_def ingestWebhookInternal_def\<close>)

lemma ingest_fresh_duplicate:
  assumes "adps psp = Some adp" and "ad_VerifyWebhookSignature adp payload sig = None"
    and "validateWebhookFreshness lib (e_now env 0) payload = None" and "e_fault env 0 FindWebhook = None"
    and "webhook_by_key d (idempotency_key lib psp ty payload) \<noteq> None"
  shows "IngestWebhook lib adps env psp ty payload sig d = (Inr (), d)"
  using assms by (auto simp: IngestWebhook_def ingestWebhookInternal_def)

lemma receive_recorded:
  assumes "receive_webhook lib adps codec env msg d = (Nack, d1)" and "d1 \<noteq> d"
  obtains m adp where "wm_unmarshal codec (pm_Data msg) = Some m"
    "webhook_by_key d1 (idempotency_key lib (wm_PSP m) (wm_EventType m) (wm_Payload m)) \<noteq> None"
    "adps (wm_PSP m) = Some adp" "ad_VerifyWebhookSignature adp (wm_Payload m) (wm_Signature m) = None"
proof (cases "wm_unmarshal codec (pm_Data msg)")
  case (Some m)
  let ?r = "IngestWebhook lib adps env (wm_PSP m) (wm_EventType m) (wm_Payload m) (wm_Signature m) d"
  from assms Some have d1: "snd ?r = d1" by (auto simp: receive_webhook_def split: prod.splits sum.splits)
  from ingest_changed_verified [of lib adps env "wm_PSP m" "wm_EventType m" "wm_Payload m" "wm_Signature m" d] d1 assms(2)
  obtain adp where adp: "adps (wm_PSP m) = Some adp" "ad_VerifyWebhookSignature adp (wm_Payload m) (wm_Signature m) = None"
    by blast
  have "webhook_by_key (snd ?r) (idempotency_key lib (wm_PSP m) (wm_EventType m) (wm_Payload m)) \<noteq> None"
    unfolding IngestWebhook_def
    by (rule ingest_records_key [OF prod.collapse [symmetric]]) (use d1 assms(2) in \<open>simp add: IngestWebhook_def\<close>)
  with that Some adp d1 show thesis by simp
qed (use assms in \<open>simp add: receive_webhook_def\<close>)

text \<open>
  Redelivery never helps: when the processing of a delivered webhook fails after the event was
  recorded, no later delivery of the message changes the database, and the first one that still is
  fresh is acknowledged, so the message never reaches the dead-letter topic.
\<close>

theorem failed_message_is_lost:
  assumes "receive_webhook lib adps codec env msg d = (Nack, d1)" and "d1 \<noteq> d"
  shows "snd (deliver lib adps codec envs msg d1) = d1
    \<and> (\<exists>m. wm_unmarshal codec (pm_Data msg) = Some m
        \<and> fst (deliver lib adps codec (filter (\<lambda>e. validateWebhookFreshness lib (e_now e 0) (wm_Payload m) = None
              \<and> e_fault e 0 FindWebhook = None) envs) msg d1) \<in> {[], [Ack]})"
proof -
  obtain m adp where m: "wm_unmarshal codec (pm_Data msg) = Some m"
    and key: "webhook_by_key d1 (idempotency_key lib (wm_PSP m) (wm_EventType m) (wm_Payload m)) \<noteq> None"
    and adp: "adps (wm_PSP m) = Some adp" "ad_VerifyWebhookSignature adp (wm_Payload m) (wm_Signature m) = None"
    using receive_recorded [OF assms] .
  have same: "snd (receive_webhook lib adps codec e msg d1) = d1" for e
    using ingest_known_key [OF key, of adps e "wm_Signature m" False] m
    by (auto simp: receive_webhook_def IngestWebhook_def split: prod.splits sum.splits)
  have "snd (deliver lib adps codec envs msg d1) = d1" for envs
  proof (induction envs)
    case (Cons e envs)
    with same [of e] show ?case by (auto split: prod.splits ack.splits)
  qed simp
  moreover have "receive_webhook lib adps codec e msg d1 = (Ack, d1)"
    if "validateWebhookFreshness lib (e_now e 0) (wm_Payload m) = None" "e_fault e 0 FindWebhook = None" for e
    using ingest_fresh_duplicate [where adps = adps and psp = "wm_PSP m", OF adp that key] m by (simp add: receive_webhook_def)
  then have "fst (deliver lib adps codec (filter (\<lambda>e. validateWebhookFreshness lib (e_now e 0) (wm_Payload m) = None
              \<and> e_fault e 0 FindWebhook = None) envs) msg d1) \<in> {[], [Ack]}"
    by (induction envs) auto
  ultimately show ?thesis using m by blast
qed

section \<open>Witnesses\<close>

definition demo_message_codec :: wm_codec where
  "demo_message_codec =
     \<lparr>wm_marshal = (\<lambda>m. join [CHR ''|''] [wm_PSP m, wm_EventType m, wm_Payload m, wm_Signature m]),
      wm_unmarshal = (\<lambda>s. Some \<lparr>wm_PSP = PSPMock, wm_EventType = ''payment.captured'', wm_Payload = s,
        wm_Signature = demo_sig s\<rparr>)\<rparr>"

definition packed_codec :: wm_codec where
  "packed_codec =
     \<lparr>wm_marshal = (\<lambda>m. pack (wm_PSP m) @ pack (wm_EventType m) @ pack (wm_Payload m) @ pack (wm_Signature m)),
      wm_unmarshal = (\<lambda>s. case unpacks 4 s of
         Some [psp, ty, payload, sig] \<Rightarrow>
           Some \<lparr>wm_PSP = psp, wm_EventType = ty, wm_Payload = payload, wm_Signature = sig\<rparr>
       | _ \<Rightarrow> None)\<rparr>"

lemma packed_codec_roundtrip: "wm_roundtrip packed_codec"
proof -
  have "unpacks 4 (pack a @ pack b @ pack c @ pack d) = Some [a, b, c, d]" for a b c d
    using unpacks_pack [of "[a, b, c, d]"] by (simp del: unpacks.simps add: eval_nat_numeral)
  then show ?thesis by (simp add: wm_roundtrip_def packed_codec_def)
qed

lemma async_webhook_equals_sync_witness:
  "snd (receive_webhook demo_lib demo_adapters packed_codec web_env
      (webhook_envelope packed_codec PSPMock ''payment.captured'' ''mock_1'' (demo_sig ''mock_1'')) authorized_db) =
    snd (IngestWebhook demo_lib demo_adapters web_env PSPMock ''payment.captured'' ''mock_1'' (demo_sig ''mock_1'') authorized_db)"
  by (simp only: async_webhook_equals_sync [OF packed_codec_roundtrip] snd_conv)

lemma failed_message_is_lost_witness:
  "snd (deliver demo_lib demo_adapters demo_message_codec [web_env, web_env] (outgoing ''unknown'' [])
      (snd (receive_webhook demo_lib demo_adapters demo_message_codec web_env (outgoing ''unknown'' []) authorized_db)))
   = snd (receive_webhook demo_lib demo_adapters demo_message_codec web_env (outgoing ''unknown'' []) authorized_db)"
proof -
  let ?r = "receive_webhook demo_lib demo_adapters demo_message_codec web_env (outgoing ''unknown'' []) authorized_db"
  have fails: "fst ?r = Nack \<and> length (webhook_events (snd ?r)) = 1" by code_simp
  moreover have "webhook_events authorized_db = []" by (simp add: demo_db_def migrated_db_def)
  ultimately have "snd ?r \<noteq> authorized_db" by (metis One_nat_def list.size(3) nat.distinct(1))
  moreover from fails have "?r = (Nack, snd ?r)" by (metis prod.collapse)
  ultimately show ?thesis using failed_message_is_lost by blast
qed

end
