(* ===== verification/Redis.thy ===== *)
theory Redis
  imports Errors
begin

text \<open>
  The commands of Redis that the repository sends, as a parameter of the model: a record of functions
  on an abstract server state \<open>'r\<close>, each of which may fail. What the code relies on are named laws, the
  documented effect of the commands read through two views of the state: the string keys with their
  expiry and the lists. A command that reports an error may have been applied or not. A server in
  memory, which never fails, shows that the laws can hold.
\<close>

section \<open>Commands\<close>

text \<open>\<open>rd_LRem\<close> removes one occurrence, the first from the head.\<close>

record 'r redis_api =
  rd_SetNX :: "time \<Rightarrow> string \<Rightarrow> string \<Rightarrow> duration \<Rightarrow> 'r \<Rightarrow> (err + bool) \<times> 'r"
  rd_Get :: "time \<Rightarrow> string \<Rightarrow> 'r \<Rightarrow> err + string"
  rd_Set :: "time \<Rightarrow> string \<Rightarrow> string \<Rightarrow> duration \<Rightarrow> 'r \<Rightarrow> (err + unit) \<times> 'r"
  rd_Del :: "string \<Rightarrow> 'r \<Rightarrow> (err + unit) \<times> 'r"
  rd_LPush :: "string \<Rightarrow> string \<Rightarrow> 'r \<Rightarrow> (err + unit) \<times> 'r"
  rd_LTrim :: "string \<Rightarrow> int \<Rightarrow> int \<Rightarrow> 'r \<Rightarrow> (err + unit) \<times> 'r"
  rd_LLen :: "string \<Rightarrow> 'r \<Rightarrow> err + int"
  rd_LRange :: "string \<Rightarrow> int \<Rightarrow> int \<Rightarrow> 'r \<Rightarrow> err + string list"
  rd_LIndex :: "string \<Rightarrow> int \<Rightarrow> 'r \<Rightarrow> err + string"
  rd_LSet :: "string \<Rightarrow> int \<Rightarrow> string \<Rightarrow> 'r \<Rightarrow> (err + unit) \<times> 'r"
  rd_LRem :: "string \<Rightarrow> string \<Rightarrow> 'r \<Rightarrow> (err + unit) \<times> 'r"

section \<open>Keys with an expiry\<close>

type_synonym keyspace = "string \<Rightarrow> (string \<times> time) option"

definition live :: "time \<Rightarrow> keyspace \<Rightarrow> string \<Rightarrow> string option" where
  "live now m k = (case m k of None \<Rightarrow> None | Some (v, expiry) \<Rightarrow> if now < expiry then Some v else None)"

definition SetNX_law :: "'r redis_api \<Rightarrow> ('r \<Rightarrow> keyspace) \<Rightarrow> bool" where
  "SetNX_law api view \<longleftrightarrow>
     (\<forall>now k v ttl s. case rd_SetNX api now k v ttl s of
        (Inr True, s') \<Rightarrow> live now (view s) k = None \<and> view s' = (view s)(k \<mapsto> (v, now + ttl))
      | (Inr False, s') \<Rightarrow> live now (view s) k \<noteq> None \<and> view s' = view s
      | (Inl e, s') \<Rightarrow> view s' = view s
          \<or> (live now (view s) k = None \<and> view s' = (view s)(k \<mapsto> (v, now + ttl))))"

definition Get_law :: "'r redis_api \<Rightarrow> ('r \<Rightarrow> keyspace) \<Rightarrow> bool" where
  "Get_law api view \<longleftrightarrow> (\<forall>now k s v. rd_Get api now k s = Inr v \<longrightarrow> live now (view s) k = Some v)"

definition Set_law :: "'r redis_api \<Rightarrow> ('r \<Rightarrow> keyspace) \<Rightarrow> bool" where
  "Set_law api view \<longleftrightarrow>
     (\<forall>now k v ttl s. case rd_Set api now k v ttl s of
        (Inr u, s') \<Rightarrow> view s' = (view s)(k \<mapsto> (v, now + ttl))
      | (Inl e, s') \<Rightarrow> view s' = view s \<or> view s' = (view s)(k \<mapsto> (v, now + ttl)))"

definition Del_law :: "'r redis_api \<Rightarrow> ('r \<Rightarrow> keyspace) \<Rightarrow> bool" where
  "Del_law api view \<longleftrightarrow>
     (\<forall>k s. case rd_Del api k s of
        (Inr u, s') \<Rightarrow> view s' = (view s)(k := None)
      | (Inl e, s') \<Rightarrow> view s' = view s \<or> view s' = (view s)(k := None))"

definition redis_laws :: "'r redis_api \<Rightarrow> ('r \<Rightarrow> keyspace) \<Rightarrow> bool" where
  "redis_laws api view \<longleftrightarrow> SetNX_law api view \<and> Get_law api view \<and> Set_law api view \<and> Del_law api view"

text \<open>The server can be reached: no command on keys fails, and a live key can be read.\<close>

definition redis_up :: "'r redis_api \<Rightarrow> ('r \<Rightarrow> keyspace) \<Rightarrow> bool" where
  "redis_up api view \<longleftrightarrow>
     (\<forall>now k v ttl s. \<not> isInl (fst (rd_SetNX api now k v ttl s)) \<and> \<not> isInl (fst (rd_Set api now k v ttl s))
        \<and> \<not> isInl (fst (rd_Del api k s)))
     \<and> (\<forall>now k s v. live now (view s) k = Some v \<longrightarrow> rd_Get api now k s = Inr v)"

section \<open>Lists\<close>

text \<open>A negative index counts from the end; a range is cut to the list, its ends included.\<close>

definition list_index :: "int \<Rightarrow> 'a list \<Rightarrow> nat option" where
  "list_index i xs =
     (let j = (if i < 0 then i + int (length xs) else i) in
      if 0 \<le> j \<and> j < int (length xs) then Some (nat j) else None)"

definition list_range :: "int \<Rightarrow> int \<Rightarrow> 'a list \<Rightarrow> 'a list" where
  "list_range start stop xs =
     (let n = int (length xs);
          a = max 0 (if start < 0 then start + n else start);
          b = min (n - 1) (if stop < 0 then stop + n else stop)
      in if a > b then [] else take (nat (b - a + 1)) (drop (nat a) xs))"

type_synonym lists = "string \<Rightarrow> string list"

definition list_write :: "('r \<Rightarrow> lists) \<Rightarrow> (err + unit) \<times> 'r \<Rightarrow> lists \<Rightarrow> lists \<Rightarrow> bool" where
  "list_write view res old new \<longleftrightarrow>
     (case res of (Inr u, s') \<Rightarrow> view s' = new | (Inl e, s') \<Rightarrow> view s' = old \<or> view s' = new)"

definition list_laws :: "'r redis_api \<Rightarrow> ('r \<Rightarrow> lists) \<Rightarrow> bool" where
  "list_laws api view \<longleftrightarrow>
     (\<forall>k v s. list_write view (rd_LPush api k v s) (view s) ((view s)(k := v # view s k)))
   \<and> (\<forall>k a b s. list_write view (rd_LTrim api k a b s) (view s) ((view s)(k := list_range a b (view s k))))
   \<and> (\<forall>k s n. rd_LLen api k s = Inr n \<longrightarrow> n = int (length (view s k)))
   \<and> (\<forall>k a b s xs. rd_LRange api k a b s = Inr xs \<longrightarrow> xs = list_range a b (view s k))
   \<and> (\<forall>k i s v. rd_LIndex api k i s = Inr v \<longrightarrow>
        (\<exists>j. list_index i (view s k) = Some j \<and> v = view s k ! j))
   \<and> (\<forall>k i v s. case list_index i (view s k) of
        None \<Rightarrow> view (snd (rd_LSet api k i v s)) = view s
      | Some j \<Rightarrow> list_write view (rd_LSet api k i v s) (view s) ((view s)(k := (view s k)[j := v])))
   \<and> (\<forall>k v s. list_write view (rd_LRem api k v s) (view s) ((view s)(k := remove1 v (view s k))))
   \<and> (\<forall>k s. list_write view (rd_Del api k s) (view s) ((view s)(k := [])))"

definition lists_up :: "'r redis_api \<Rightarrow> ('r \<Rightarrow> lists) \<Rightarrow> bool" where
  "lists_up api view \<longleftrightarrow>
     (\<forall>k v s. \<not> isInl (fst (rd_LPush api k v s))) \<and> (\<forall>k a b s. \<not> isInl (fst (rd_LTrim api k a b s)))
   \<and> (\<forall>k s. \<not> isInl (rd_LLen api k s)) \<and> (\<forall>k a b s. \<not> isInl (rd_LRange api k a b s))
   \<and> (\<forall>k i s j. list_index i (view s k) = Some j \<longrightarrow> \<not> isInl (rd_LIndex api k i s))
   \<and> (\<forall>k i v s j. list_index i (view s k) = Some j \<longrightarrow> \<not> isInl (fst (rd_LSet api k i v s)))
   \<and> (\<forall>k v s. \<not> isInl (fst (rd_LRem api k v s))) \<and> (\<forall>k s. \<not> isInl (fst (rd_Del api k s)))"

section \<open>A server in memory\<close>

record memory =
  mem_keys :: keyspace
  mem_lists :: lists

definition mem_empty :: memory where
  "mem_empty = \<lparr>mem_keys = Map.empty, mem_lists = (\<lambda>_. [])\<rparr>"

definition mem_api :: "memory redis_api" where
  "mem_api =
     \<lparr>rd_SetNX = (\<lambda>now k v ttl s.
        if live now (mem_keys s) k = None
        then (Inr True, s\<lparr>mem_keys := (mem_keys s)(k \<mapsto> (v, now + ttl))\<rparr>) else (Inr False, s)),
      rd_Get = (\<lambda>now k s. case live now (mem_keys s) k of None \<Rightarrow> Inl (ExternalErr ''redis: nil'') | Some v \<Rightarrow> Inr v),
      rd_Set = (\<lambda>now k v ttl s. (Inr (), s\<lparr>mem_keys := (mem_keys s)(k \<mapsto> (v, now + ttl))\<rparr>)),
      rd_Del = (\<lambda>k s. (Inr (), s\<lparr>mem_keys := (mem_keys s)(k := None), mem_lists := (mem_lists s)(k := [])\<rparr>)),
      rd_LPush = (\<lambda>k v s. (Inr (), s\<lparr>mem_lists := (mem_lists s)(k := v # mem_lists s k)\<rparr>)),
      rd_LTrim = (\<lambda>k a b s. (Inr (), s\<lparr>mem_lists := (mem_lists s)(k := list_range a b (mem_lists s k))\<rparr>)),
      rd_LLen = (\<lambda>k s. Inr (int (length (mem_lists s k)))),
      rd_LRange = (\<lambda>k a b s. Inr (list_range a b (mem_lists s k))),
      rd_LIndex = (\<lambda>k i s. case list_index i (mem_lists s k) of
         None \<Rightarrow> Inl (ExternalErr ''redis: nil'') | Some j \<Rightarrow> Inr (mem_lists s k ! j)),
      rd_LSet = (\<lambda>k i v s. case list_index i (mem_lists s k) of
         None \<Rightarrow> (Inl (ExternalErr ''ERR index out of range''), s)
       | Some j \<Rightarrow> (Inr (), s\<lparr>mem_lists := (mem_lists s)(k := (mem_lists s k)[j := v])\<rparr>)),
      rd_LRem = (\<lambda>k v s. (Inr (), s\<lparr>mem_lists := (mem_lists s)(k := remove1 v (mem_lists s k))\<rparr>))\<rparr>"

lemma mem_laws: "redis_laws mem_api mem_keys" "redis_up mem_api mem_keys"
  by (simp_all add: redis_laws_def SetNX_law_def Get_law_def Set_law_def Del_law_def redis_up_def mem_api_def
      split: option.split)

lemma mem_list_laws: "list_laws mem_api mem_lists" "lists_up mem_api mem_lists"
  by (simp_all add: list_laws_def lists_up_def list_write_def mem_api_def split: option.split)

section \<open>The laws as rules\<close>

lemma SetNX_cases [consumes 1, case_names claimed taken failed]:
  assumes "redis_laws api view"
  obtains (claimed) s' where "rd_SetNX api now k v ttl s = (Inr True, s')" "live now (view s) k = None"
      "view s' = (view s)(k \<mapsto> (v, now + ttl))"
    | (taken) s' where "rd_SetNX api now k v ttl s = (Inr False, s')" "live now (view s) k \<noteq> None" "view s' = view s"
    | (failed) e s' where "rd_SetNX api now k v ttl s = (Inl e, s')"
      "view s' = view s \<or> (live now (view s) k = None \<and> view s' = (view s)(k \<mapsto> (v, now + ttl)))"
proof -
  obtain res s' where r: "rd_SetNX api now k v ttl s = (res, s')" by (cases "rd_SetNX api now k v ttl s")
  from assms have "SetNX_law api view" by (simp add: redis_laws_def)
  from this [unfolded SetNX_law_def, THEN spec, of now, THEN spec, of k, THEN spec, of v, THEN spec, of ttl, THEN spec, of s]
    r that show thesis by (auto split: sum.splits bool.splits)
qed

lemma Set_outcome:
  assumes "redis_laws api view"
  shows "case rd_Set api now k v ttl s of
      (Inr u, s') \<Rightarrow> view s' = (view s)(k \<mapsto> (v, now + ttl))
    | (Inl e, s') \<Rightarrow> view s' = view s \<or> view s' = (view s)(k \<mapsto> (v, now + ttl))"
proof -
  from assms have "Set_law api view" by (simp add: redis_laws_def)
  from this [unfolded Set_law_def, THEN spec, of now, THEN spec, of k, THEN spec, of v, THEN spec, of ttl, THEN spec, of s]
  show ?thesis .
qed

lemma Del_outcome:
  assumes "redis_laws api view"
  shows "case rd_Del api k s of
      (Inr u, s') \<Rightarrow> view s' = (view s)(k := None)
    | (Inl e, s') \<Rightarrow> view s' = view s \<or> view s' = (view s)(k := None)"
proof -
  from assms have "Del_law api view" by (simp add: redis_laws_def)
  from this [unfolded Del_law_def, THEN spec, of k, THEN spec, of s] show ?thesis .
qed

lemma redis_up_writes:
  assumes "redis_up api view"
  shows "\<exists>s' b. rd_SetNX api now k v ttl s = (Inr b, s')" "\<exists>s'. rd_Set api now k v ttl s = (Inr (), s')"
    "\<exists>s'. rd_Del api k s = (Inr (), s')"
  using assms unfolding redis_up_def by (metis (full_types) not_isInl prod.collapse old.unit.exhaust)+

lemma Set_cases:
  "redis_laws api view \<Longrightarrow> view (snd (rd_Set api now k v ttl s)) \<in> {view s, (view s)(k \<mapsto> (v, now + ttl))}"
  using Set_outcome [where api = api and view = view and now = now and k = k and v = v and ttl = ttl and s = s] by (auto split: prod.splits sum.splits)

lemma Set_up:
  "redis_laws api view \<Longrightarrow> redis_up api view \<Longrightarrow>
     view (snd (rd_Set api now k v ttl s)) = (view s)(k \<mapsto> (v, now + ttl))"
  using Set_outcome [where api = api and view = view and now = now and k = k and v = v and ttl = ttl and s = s] redis_up_writes(2) [where api = api and view = view and now = now and k = k and v = v and ttl = ttl and s = s] by auto

lemma Del_cases: "redis_laws api view \<Longrightarrow> view (snd (rd_Del api k s)) \<in> {view s, (view s)(k := None)}"
  using Del_outcome [where api = api and view = view and k = k and s = s] by (auto split: prod.splits sum.splits)

lemma Del_up: "redis_laws api view \<Longrightarrow> redis_up api view \<Longrightarrow> view (snd (rd_Del api k s)) = (view s)(k := None)"
  using Del_outcome [where api = api and view = view and k = k and s = s] redis_up_writes(3) [where api = api and view = view and k = k and s = s] by auto

lemma list_lawsD:
  assumes "list_laws api view"
  shows "list_write view (rd_LPush api k v s) (view s) ((view s)(k := v # view s k))"
    and "list_write view (rd_LTrim api k a b s) (view s) ((view s)(k := list_range a b (view s k)))"
    and "rd_LLen api k s = Inr n \<Longrightarrow> n = int (length (view s k))"
    and "rd_LRange api k a b s = Inr xs \<Longrightarrow> xs = list_range a b (view s k)"
    and "rd_LIndex api k i s = Inr v \<Longrightarrow> \<exists>j. list_index i (view s k) = Some j \<and> v = view s k ! j"
    and "list_index i (view s k) = Some j \<Longrightarrow>
      list_write view (rd_LSet api k i v s) (view s) ((view s)(k := (view s k)[j := v]))"
    and "list_write view (rd_LRem api k v s) (view s) ((view s)(k := remove1 v (view s k)))"
    and "list_write view (rd_Del api k s) (view s) ((view s)(k := []))"
proof -
  show "list_index i (view s k) = Some j \<Longrightarrow>
      list_write view (rd_LSet api k i v s) (view s) ((view s)(k := (view s k)[j := v]))"
    using assms unfolding list_laws_def by (metis (no_types, lifting) option.simps(5))
qed (use assms in \<open>auto simp: list_laws_def\<close>)

lemma list_write_up:
  "list_write view res old new \<Longrightarrow> \<not> isInl (fst res) \<Longrightarrow> fst res = Inr () \<and> view (snd res) = new"
  by (cases res; cases "fst res") (auto simp: list_write_def)

lemma list_index_int: "list_index i xs = Some j \<Longrightarrow> j < length xs"
  by (auto simp: list_index_def Let_def split: if_splits)

lemma list_range_prefix: "0 < n \<Longrightarrow> list_range 0 (int n - 1) xs = take n xs"
  by (cases "xs = []") (auto simp: list_range_def Let_def min_def nat_diff_distrib' not_le)

text \<open>What the commands do while the server can be reached.\<close>

lemma lists_available:
  assumes "list_laws api view" and "lists_up api view"
  shows "fst (rd_LPush api k v s) = Inr () \<and> view (snd (rd_LPush api k v s)) = (view s)(k := v # view s k)"
    and "fst (rd_LTrim api k a b s) = Inr ()
      \<and> view (snd (rd_LTrim api k a b s)) = (view s)(k := list_range a b (view s k))"
    and "rd_LLen api k s = Inr (int (length (view s k)))"
    and "rd_LRange api k a b s = Inr (list_range a b (view s k))"
    and "list_index i (view s k) = Some j \<Longrightarrow> rd_LIndex api k i s = Inr (view s k ! j)"
    and "list_index i (view s k) = Some j \<Longrightarrow> fst (rd_LSet api k i v s) = Inr ()
      \<and> view (snd (rd_LSet api k i v s)) = (view s)(k := (view s k)[j := v])"
    and "fst (rd_LRem api k v s) = Inr () \<and> view (snd (rd_LRem api k v s)) = (view s)(k := remove1 v (view s k))"
proof -
  note laws = list_lawsD [OF assms(1)]
  note up = assms(2) [unfolded lists_up_def]
  show "fst (rd_LPush api k v s) = Inr () \<and> view (snd (rd_LPush api k v s)) = (view s)(k := v # view s k)"
    by (rule list_write_up [OF laws(1)]) (use up in auto)
  show "fst (rd_LTrim api k a b s) = Inr ()
      \<and> view (snd (rd_LTrim api k a b s)) = (view s)(k := list_range a b (view s k))"
    by (rule list_write_up [OF laws(2)]) (use up in auto)
  show "rd_LLen api k s = Inr (int (length (view s k)))"
    using up laws(3) [of k s] by (metis not_isInl)
  show "rd_LRange api k a b s = Inr (list_range a b (view s k))"
    using up laws(4) [of k a b s] by (metis not_isInl)
  show "list_index i (view s k) = Some j \<Longrightarrow> rd_LIndex api k i s = Inr (view s k ! j)"
    using up laws(5) [of k i s] by (metis not_isInl option.inject)
  show "list_index i (view s k) = Some j \<Longrightarrow> fst (rd_LSet api k i v s) = Inr ()
      \<and> view (snd (rd_LSet api k i v s)) = (view s)(k := (view s k)[j := v])"
    by (rule list_write_up [OF laws(6)]) (use up in auto)
  show "fst (rd_LRem api k v s) = Inr () \<and> view (snd (rd_LRem api k v s)) = (view s)(k := remove1 v (view s k))"
    by (rule list_write_up [OF laws(7)]) (use up in auto)
qed

end
