(* ===== verification/DLQ.thy ===== *)
theory DLQ
  imports Redis Webhook_Service Text
begin

text \<open>
  The dead letter queue, \<^verbatim>\<open>internal/service/dlq.go\<close>: a Redis list of failed webhooks, newest first and
  capped. The JSON codec of an entry is a parameter, with the round trip of \<^verbatim>\<open>encoding/json\<close> as its law.
  A client that is not configured is \<open>None\<close>.
\<close>

section \<open>Entries\<close>

record dlq_entry =
  dq_ID :: string
  dq_PSP :: string
  dq_EventType :: string
  dq_Payload :: string
  dq_Error :: string
  dq_Timestamp :: time

record dlq_codec =
  dc_marshal :: "dlq_entry \<Rightarrow> string"
  dc_unmarshal :: "string \<Rightarrow> dlq_entry option"

definition codec_roundtrip :: "dlq_codec \<Rightarrow> bool" where
  "codec_roundtrip c \<longleftrightarrow> (\<forall>e. dc_unmarshal c (dc_marshal c e) = Some e)"

definition dlqKey :: string where "dlqKey = ''dlq:webhooks''"
definition dlqMaxLen :: int where "dlqMaxLen = 10000"
definition tombstone :: string where "tombstone = ''__DELETED__''"

section \<open>Operations\<close>

text \<open>Both commands of the pipeline are sent; the first error is reported.\<close>

definition Enqueue :: "'r redis_api option \<Rightarrow> dlq_codec \<Rightarrow> dlq_entry \<Rightarrow> 'r \<Rightarrow> (err + unit) \<times> 'r" where
  "Enqueue rdb codec entry rd =
     (case rdb of
        None \<Rightarrow> (Inr (), rd)
      | Some api \<Rightarrow>
          (case rd_LPush api dlqKey (dc_marshal codec entry) rd of (res1, rd1) \<Rightarrow>
           (case rd_LTrim api dlqKey 0 (dlqMaxLen - 1) rd1 of (res2, rd2) \<Rightarrow>
             (mapErr (Wrapped ''dlq enqueue'') (andThen res1 (\<lambda>_. res2)), rd2))))"

definition redis_unavailable :: err where "redis_unavailable = Errorf ''dlq: redis unavailable''"

definition dlq_List :: "'r redis_api option \<Rightarrow> dlq_codec \<Rightarrow> int64 \<Rightarrow> int64 \<Rightarrow> 'r \<Rightarrow> err + dlq_entry list \<times> int" where
  "dlq_List rdb codec offset limit rd =
     (case rdb of
        None \<Rightarrow> Inl redis_unavailable
      | Some api \<Rightarrow>
          andThen (rd_LLen api dlqKey rd) (\<lambda>total.
          andThen (rd_LRange api dlqKey (sint offset) (sint (offset + limit - 1)) rd) (\<lambda>raw.
          Inr (List.map_filter (dc_unmarshal codec) raw, total))))"

text \<open>
  A retry reads the entry, hands it to the webhook service, and removes the element at the index by
  overwriting and deleting it; the errors of the last two commands are ignored. Other clients can
  change the list between the reading and the removal.
\<close>

definition retry_fetch :: "'r redis_api \<Rightarrow> dlq_codec \<Rightarrow> int64 \<Rightarrow> 'r \<Rightarrow> err + dlq_entry" where
  "retry_fetch api codec index rd =
     (case rd_LIndex api dlqKey (sint index) rd of
        Inl e \<Rightarrow> Inl (Wrapped (''dlq fetch at index '' @ show_int64 index) e)
      | Inr raw \<Rightarrow>
          (case dc_unmarshal codec raw of
             None \<Rightarrow> Inl (Wrapped ''dlq unmarshal'' (ExternalErr ''json''))
           | Some entry \<Rightarrow> Inr entry))"

definition retry_remove :: "'r redis_api \<Rightarrow> int64 \<Rightarrow> 'r \<Rightarrow> 'r" where
  "retry_remove api index rd =
     snd (rd_LRem api dlqKey tombstone (snd (rd_LSet api dlqKey (sint index) tombstone rd)))"

definition Retry ::
  "'r redis_api option \<Rightarrow> dlq_codec \<Rightarrow> web_lib \<Rightarrow> (string \<rightharpoonup> 'w psp_adapter) \<Rightarrow> env \<Rightarrow> int64 \<Rightarrow> 'r \<times> db \<Rightarrow>
   (err + unit) \<times> 'r \<times> db" where
  "Retry rdb codec lib adps env index s =
     (case s of (rd, d) \<Rightarrow>
      (case rdb of
         None \<Rightarrow> (Inl redis_unavailable, rd, d)
       | Some api \<Rightarrow>
           (case retry_fetch api codec index rd of
              Inl e \<Rightarrow> (Inl e, rd, d)
            | Inr entry \<Rightarrow>
                (case IngestWebhookRetry lib adps env (dq_PSP entry) (dq_EventType entry) (dq_Payload entry) d of
                   (Inl e, d') \<Rightarrow> (Inl (Wrapped ''dlq retry failed'' e), rd, d')
                 | (Inr _, d') \<Rightarrow> (Inr (), retry_remove api index rd, d')))))"

definition Purge :: "'r redis_api option \<Rightarrow> 'r \<Rightarrow> (err + unit) \<times> 'r" where
  "Purge rdb rd = (case rdb of None \<Rightarrow> (Inl redis_unavailable, rd) | Some api \<Rightarrow> rd_Del api dlqKey rd)"

section \<open>The queue as a list\<close>

lemma Enqueue_list:
  assumes "list_laws api view" and "lists_up api view"
  shows "fst (Enqueue (Some api) codec e rd) = Inr ()"
    and "view (snd (Enqueue (Some api) codec e rd)) =
      (view rd)(dlqKey := take 10000 (dc_marshal codec e # view rd dlqKey))"
proof -
  let ?p = "rd_LPush api dlqKey (dc_marshal codec e) rd"
  let ?t = "rd_LTrim api dlqKey 0 (dlqMaxLen - 1) (snd ?p)"
  have p: "fst ?p = Inr () \<and> view (snd ?p) = (view rd)(dlqKey := dc_marshal codec e # view rd dlqKey)"
    using lists_available(1) [OF assms] .
  have t: "fst ?t = Inr () \<and> view (snd ?t) = (view (snd ?p))(dlqKey := list_range 0 (dlqMaxLen - 1) (view (snd ?p) dlqKey))"
    using lists_available(2) [OF assms] .
  have q: "Enqueue (Some api) codec e rd = (mapErr (Wrapped ''dlq enqueue'') (andThen (fst ?p) (\<lambda>_. fst ?t)), snd ?t)"
    by (simp add: Enqueue_def case_prod_beta)
  from p t q show "fst (Enqueue (Some api) codec e rd) = Inr ()" by simp
  from p t q show "view (snd (Enqueue (Some api) codec e rd)) =
      (view rd)(dlqKey := take 10000 (dc_marshal codec e # view rd dlqKey))"
    using list_range_prefix [of 10000 "dc_marshal codec e # view rd dlqKey"]
    by (simp add: dlqMaxLen_def del: take_Cons_numeral)
qed

lemma remove1_list_update:
  assumes "j < length xs" and "x \<notin> set xs"
  shows "remove1 x (xs[j := x]) = take j xs @ drop (Suc j) xs"
proof -
  from assms(2) have "x \<notin> set (take j xs)" by (meson in_set_takeD)
  with assms(1) show ?thesis by (simp add: upd_conv_take_nth_drop remove1_append)
qed

lemma retry_remove_list:
  assumes "list_laws api view" and "lists_up api view" and "list_index (sint index) (view rd dlqKey) = Some j"
    and "tombstone \<notin> set (view rd dlqKey)"
  shows "view (retry_remove api index rd) =
    (view rd)(dlqKey := take j (view rd dlqKey) @ drop (Suc j) (view rd dlqKey))"
proof -
  let ?s = "rd_LSet api dlqKey (sint index) tombstone rd"
  let ?r = "rd_LRem api dlqKey tombstone (snd ?s)"
  have s: "fst ?s = Inr () \<and> view (snd ?s) = (view rd)(dlqKey := (view rd dlqKey)[j := tombstone])"
    using lists_available(6) [OF assms(1-3)] .
  have "fst ?r = Inr () \<and> view (snd ?r) = (view (snd ?s))(dlqKey := remove1 tombstone (view (snd ?s) dlqKey))"
    using lists_available(7) [OF assms(1,2)] .
  with s remove1_list_update [OF list_index_int [OF assms(3)] assms(4)] show ?thesis
    by (simp add: retry_remove_def)
qed

lemma retry_fetch_list:
  assumes "list_laws api view" and "lists_up api view" and "list_index (sint index) (view rd dlqKey) = Some j"
  shows "retry_fetch api codec index rd =
    (case dc_unmarshal codec (view rd dlqKey ! j) of
       None \<Rightarrow> Inl (Wrapped ''dlq unmarshal'' (ExternalErr ''json'')) | Some e \<Rightarrow> Inr e)"
proof -
  from lists_available(5) [OF assms] show ?thesis by (simp add: retry_fetch_def)
qed

fun enqueue_all :: "'r redis_api \<Rightarrow> dlq_codec \<Rightarrow> dlq_entry list \<Rightarrow> 'r \<Rightarrow> 'r" where
  "enqueue_all api codec [] rd = rd"
| "enqueue_all api codec (e # es) rd = enqueue_all api codec es (snd (Enqueue (Some api) codec e rd))"

text \<open>
  The queue keeps the newest failed webhooks: after any sequence of enqueues the list holds,
  newest first, the last ten thousand of them and what fits of the old list; nothing else of Redis
  changes.
\<close>

theorem queue_keeps_newest:
  assumes "list_laws api view" and "lists_up api view" and "length (view rd dlqKey) \<le> 10000"
  shows "view (enqueue_all api codec es rd) =
    (view rd)(dlqKey := take 10000 (map (dc_marshal codec) (rev es) @ view rd dlqKey))"
  using assms(3)
proof (induction es arbitrary: rd)
  case (Cons e es)
  let ?rd = "snd (Enqueue (Some api) codec e rd)"
  from Enqueue_list(2) [OF assms(1,2)]
  have v: "view ?rd = (view rd)(dlqKey := take 10000 (dc_marshal codec e # view rd dlqKey))" .
  with Cons.IH [of ?rd] have run: "view (enqueue_all api codec (e # es) rd) =
      (view rd)(dlqKey := take 10000 (map (dc_marshal codec) (rev es) @ take 10000 (dc_marshal codec e # view rd dlqKey)))"
    by (simp del: take_Cons_numeral take_append add: fun_eq_iff)
  have "take n (us @ take n vs) = take n (us @ vs)" for n and us vs :: "string list"
    by (simp add: take_append)
  then show ?case unfolding run by (simp only: rev.simps map_append append_assoc list.map append.simps)
qed simp

text \<open>
  A retry of a processed event removes exactly its entry: when the webhook service accepts the
  event again, the element at the index disappears, every other element keeps its place in the
  order, and the rest of Redis stays; when the service refuses it, the queue is untouched.
\<close>

theorem Retry_effect:
  assumes "list_laws api view" and "lists_up api view" and "list_index (sint index) (view rd dlqKey) = Some j"
    and "dc_unmarshal codec (view rd dlqKey ! j) = Some e" and "tombstone \<notin> set (view rd dlqKey)"
  shows "case IngestWebhookRetry lib adps env (dq_PSP e) (dq_EventType e) (dq_Payload e) d of
      (Inl x, d') \<Rightarrow> Retry (Some api) codec lib adps env index (rd, d) = (Inl (Wrapped ''dlq retry failed'' x), rd, d')
    | (Inr u, d') \<Rightarrow> \<exists>rd'. Retry (Some api) codec lib adps env index (rd, d) = (Inr (), rd', d')
        \<and> view rd' = (view rd)(dlqKey := take j (view rd dlqKey) @ drop (Suc j) (view rd dlqKey))"
proof -
  from retry_fetch_list [OF assms(1-3), of codec] assms(4) have "retry_fetch api codec index rd = Inr e" by simp
  with retry_remove_list [OF assms(1-3,5)] show ?thesis
    by (auto simp: Retry_def split: prod.split sum.split)
qed

text \<open>
  The queue cannot repair anything: for an event that is already recorded in the database, which
  every delivery that got past the signature is, a retry reports success and deletes the entry,
  while the database, and so payments, ledger and the failed event, stays exactly as it was.
\<close>

theorem Retry_discards_recorded_event:
  assumes "list_laws api view" and "lists_up api view" and "list_index (sint index) (view rd dlqKey) = Some j"
    and "dc_unmarshal codec (view rd dlqKey ! j) = Some e" and "tombstone \<notin> set (view rd dlqKey)"
    and "webhook_by_key d (idempotency_key lib (dq_PSP e) (dq_EventType e) (dq_Payload e)) \<noteq> None"
    and "adps (dq_PSP e) \<noteq> None" and "e_fault env 0 FindWebhook = None"
  shows "\<exists>rd'. Retry (Some api) codec lib adps env index (rd, d) = (Inr (), rd', d)
    \<and> view rd' dlqKey = take j (view rd dlqKey) @ drop (Suc j) (view rd dlqKey)"
proof -
  from retry_fetch_list [OF assms(1-3), of codec] assms(4) have "retry_fetch api codec index rd = Inr e" by simp
  with retry_remove_list [OF assms(1-3,5)] retry_known_key [where adps = adps and psp = "dq_PSP e", OF assms(6-8)] show ?thesis
    by (simp add: Retry_def)
qed

text \<open>
  The removal is by position, so it races: when another failed webhook is enqueued between the
  reading of the entry at an index and its removal, the element before it, or the new one at
  index 0, is deleted, and the entry that was retried stays.
\<close>

theorem Retry_races_with_Enqueue:
  assumes "list_laws api view" and "lists_up api view" and "view rd dlqKey = xs" and "length xs < 10000"
    and "sint index = int j" and "j < length xs" and "tombstone \<notin> set xs" and "dc_marshal codec e \<noteq> tombstone"
  shows "view (retry_remove api index (snd (Enqueue (Some api) codec e rd))) dlqKey =
    (if j = 0 then xs else dc_marshal codec e # take (j - 1) xs @ drop j xs)"
proof -
  let ?rd = "snd (Enqueue (Some api) codec e rd)"
  from Enqueue_list(2) [OF assms(1,2), of codec e rd] assms(3,4)
  have new: "view ?rd dlqKey = dc_marshal codec e # xs" by (simp add: fun_eq_iff)
  have "list_index (sint index) (view ?rd dlqKey) = Some j"
    using assms(5,6) by (simp add: new list_index_def)
  from retry_remove_list [OF assms(1,2) this] assms(7,8)
  have "view (retry_remove api index ?rd) dlqKey = take j (dc_marshal codec e # xs) @ drop (Suc j) (dc_marshal codec e # xs)"
    by (simp add: new)
  then show ?thesis by (cases j) simp_all
qed

text \<open>Listing a queue that was filled gives back the entries, newest first, page by page.\<close>

lemma list_range_page:
  assumes "0 < l"
  shows "list_range (int a) (int a + int l - 1) xs = take l (drop a xs)"
proof (cases "a < length xs")
  case True
  with assms have "nat (min (int (length xs) - 1) (int a + int l - 1) - int a + 1) = min l (length xs - a)"
    by (auto simp: min_def)
  with True assms show ?thesis by (simp add: list_range_def Let_def min_def not_less split: if_splits)
qed (use assms in \<open>auto simp: list_range_def Let_def\<close>)

lemma unmarshal_all: "codec_roundtrip c \<Longrightarrow> List.map_filter (dc_unmarshal c) (map (dc_marshal c) es) = es"
  by (induction es) (simp_all add: List.map_filter_simps codec_roundtrip_def)

lemma dlq_List_page:
  assumes "list_laws api view" and "lists_up api view" and "codec_roundtrip codec"
    and "view rd dlqKey = map (dc_marshal codec) es"
    and "0 \<le> sint offset" and "0 < sint limit" and "sint offset + sint limit \<le> 9223372036854775807"
  shows "dlq_List (Some api) codec offset limit rd =
    Inr (take (nat (sint limit)) (drop (nat (sint offset)) es), int (length es))"
proof -
  have "sint (offset + limit - 1) = sint offset + sint limit - 1"
    using assms(5-7) sint64_add [of offset limit] sint64_diff [of "offset + limit" 1] by simp
  then have "list_range (sint offset) (sint (offset + limit - 1)) (view rd dlqKey) =
      map (dc_marshal codec) (take (nat (sint limit)) (drop (nat (sint offset)) es))"
    using list_range_page [where a = "nat (sint offset)" and l = "nat (sint limit)" and xs = "view rd dlqKey"] assms(4-6)
    by (simp add: take_map drop_map)
  with lists_available(3,4) [OF assms(1,2)] unmarshal_all [OF assms(3)] assms(4) show ?thesis
    by (simp add: dlq_List_def)
qed

section \<open>Witnesses\<close>

definition demo_entry :: dlq_entry where
  "demo_entry = \<lparr>dq_ID = ''e1'', dq_PSP = PSPMock, dq_EventType = ''payment.captured'', dq_Payload = ''unknown'',
     dq_Error = ''x'', dq_Timestamp = 0\<rparr>"

definition demo_codec :: dlq_codec where
  "demo_codec = \<lparr>dc_marshal = (\<lambda>e. ''e:'' @ dq_Payload e),
     dc_unmarshal = (\<lambda>s. if take 2 s = ''e:'' then Some (demo_entry\<lparr>dq_Payload := drop 2 s\<rparr>) else None)\<rparr>"

definition demo_queue :: memory where
  "demo_queue = mem_empty\<lparr>mem_lists := (\<lambda>_. [])(dlqKey := [''e:unknown'', ''e:other''])\<rparr>"

definition recorded_db :: db where
  "recorded_db = authorized_db\<lparr>webhook_events :=
     [new_webhook demo_lib quiet_env PSPMock ''payment.captured'' ''unknown'' [] []]\<rparr>"

lemma demo_queue_simps:
  "mem_lists demo_queue dlqKey = [''e:unknown'', ''e:other'']"
  "tombstone \<notin> set (mem_lists demo_queue dlqKey)"
  "list_index (sint (0 :: int64)) (mem_lists demo_queue dlqKey) = Some 0"
  "dc_unmarshal demo_codec (mem_lists demo_queue dlqKey ! 0) = Some demo_entry"
  by (simp_all add: demo_queue_def tombstone_def list_index_def demo_codec_def demo_entry_def)

lemma queue_keeps_newest_witness:
  "mem_lists (enqueue_all mem_api demo_codec [demo_entry] demo_queue) =
     (mem_lists demo_queue)(dlqKey := [''e:unknown'', ''e:unknown'', ''e:other''])"
  using queue_keeps_newest [OF mem_list_laws, of demo_queue demo_codec "[demo_entry]"]
  by (simp add: demo_queue_simps demo_codec_def demo_entry_def)

lemma Retry_effect_witness:
  "\<exists>rd'. Retry (Some mem_api) demo_codec demo_lib demo_adapters quiet_env 0 (demo_queue, recorded_db) = (Inr (), rd', recorded_db)
     \<and> mem_lists rd' dlqKey = [''e:other'']"
proof -
  have "IngestWebhookRetry demo_lib demo_adapters quiet_env (dq_PSP demo_entry) (dq_EventType demo_entry)
      (dq_Payload demo_entry) recorded_db = (Inr (), recorded_db)"
    by (rule retry_known_key)
      (simp_all add: webhook_by_key_def recorded_db_def new_webhook_def demo_entry_def demo_adapters_def quiet_env_def)
  with Retry_effect [OF mem_list_laws demo_queue_simps(3,4,2), of demo_lib demo_adapters quiet_env recorded_db]
  show ?thesis by (auto simp: demo_queue_simps)
qed

lemma Retry_discards_recorded_event_witness:
  "\<exists>rd'. Retry (Some mem_api) demo_codec demo_lib demo_adapters quiet_env 0 (demo_queue, recorded_db) = (Inr (), rd', recorded_db)
     \<and> mem_lists rd' dlqKey = take 0 (mem_lists demo_queue dlqKey) @ drop (Suc 0) (mem_lists demo_queue dlqKey)"
  by (rule Retry_discards_recorded_event [OF mem_list_laws demo_queue_simps(3,4,2)])
    (simp_all add: webhook_by_key_def recorded_db_def new_webhook_def demo_entry_def demo_adapters_def quiet_env_def)

lemma Retry_races_with_Enqueue_witness:
  "mem_lists (retry_remove mem_api 1 (snd (Enqueue (Some mem_api) demo_codec demo_entry demo_queue))) dlqKey =
     [''e:unknown'', ''e:other'']"
  using Retry_races_with_Enqueue [OF mem_list_laws demo_queue_simps(1), of 1 1 demo_codec demo_entry]
  by (simp add: demo_codec_def demo_entry_def tombstone_def)

end
