(* ===== verification/Http.thy ===== *)
theory Http
  imports Text Errors
begin

text \<open>
  Requests, responses and handlers, and the response envelope of \<^verbatim>\<open>internal/pkg/response\<close>. A
  handler is a function of the request and the server's state. A response is the list of header
  assignments in the order they were made, a status and a body; the body of an envelope is its
  value, not its JSON text. The types of payloads are a parameter \<open>'d\<close>.
\<close>

section \<open>Requests\<close>

text \<open>
  Header names are canonical, as the server stores them. \<open>hq_Merchant\<close> is the context value that
  authentication injects, \<open>hq_RequestID\<close> the identifier of chi's request-id middleware, \<open>hq_MaxBytes\<close> the limit \<^verbatim>\<open>MaxBytesReader\<close> put on the body.
\<close>

record http_request =
  hq_Method :: string
  hq_Path :: string
  hq_Params :: "(string \<times> string) list"
  hq_Query :: "(string \<times> string) list"
  hq_RawQuery :: string
  hq_Headers :: "(string \<times> string) list"
  hq_Body :: string
  hq_MaxBytes :: "nat option"
  hq_RemoteAddr :: string
  hq_RequestID :: string
  hq_Merchant :: "string option"

text \<open>Reading a key that is absent gives the empty string; of several values the first counts.\<close>

definition value_of :: "(string \<times> string) list \<Rightarrow> string \<Rightarrow> string" where
  "value_of kvs k = (case map_of kvs k of None \<Rightarrow> [] | Some v \<Rightarrow> v)"

definition Header :: "http_request \<Rightarrow> string \<Rightarrow> string" where
  "Header r k = value_of (hq_Headers r) k"

definition URLParam :: "http_request \<Rightarrow> string \<Rightarrow> string" where
  "URLParam r k = value_of (hq_Params r) k"

definition Query :: "http_request \<Rightarrow> string \<Rightarrow> string" where
  "Query r k = value_of (hq_Query r) k"

text \<open>The bytes a decoder or reader can get before the limit stops it.\<close>

definition readable :: "http_request \<Rightarrow> string" where
  "readable r = (case hq_MaxBytes r of None \<Rightarrow> hq_Body r | Some n \<Rightarrow> take n (hq_Body r))"

text \<open>A request as a client at an address sends it, with the given headers and nothing else.\<close>

definition request_from :: "string \<Rightarrow> (string \<times> string) list \<Rightarrow> http_request" where
  "request_from addr headers =
     \<lparr>hq_Method = ''GET'', hq_Path = ''/'', hq_Params = [], hq_Query = [], hq_RawQuery = [], hq_Headers = headers, hq_Body = [],
      hq_MaxBytes = None, hq_RemoteAddr = addr, hq_RequestID = [], hq_Merchant = None\<rparr>"

section \<open>Responses\<close>

record api_error =
  ae_Code :: string
  ae_Message :: string
  ae_Details :: string

record 'd api_response =
  ar_Success :: bool
  ar_Data :: "'d option"
  ar_Error :: "api_error option"
  ar_Timestamp :: time

datatype 'd http_body = NoBody | Raw string | Envelope "'d api_response"

record 'd http_response =
  hr_Status :: int
  hr_Headers :: "(string \<times> string) list"
  hr_Body :: "'d http_body"

text \<open>A handler that panics gives no response; what it did to the state before stays.\<close>

type_synonym ('d, 's) handler = "http_request \<Rightarrow> 's \<Rightarrow> 'd http_response option \<times> 's"

text \<open>\<^verbatim>\<open>Header().Set\<close> replaces, so the last assignment counts.\<close>

definition response_header :: "'d http_response \<Rightarrow> string \<Rightarrow> string option" where
  "response_header resp k = map_of (rev (hr_Headers resp)) k"

definition add_headers :: "(string \<times> string) list \<Rightarrow> 'd http_response \<Rightarrow> 'd http_response" where
  "add_headers hs resp = resp\<lparr>hr_Headers := hs @ hr_Headers resp\<rparr>"

text \<open>Headers a middleware sets before it calls the next handler.\<close>

definition with_headers ::
  "(string \<times> string) list \<Rightarrow> 'd http_response option \<times> 's \<Rightarrow> 'd http_response option \<times> 's" where
  "with_headers hs rs = map_prod (map_option (add_headers hs)) id rs"

definition json_header :: "(string \<times> string) list" where
  "json_header = [(''Content-Type'', ''application/json'')]"

definition JSON :: "time \<Rightarrow> int \<Rightarrow> 'd \<Rightarrow> 'd http_response" where
  "JSON now status data =
     \<lparr>hr_Status = status, hr_Headers = json_header,
      hr_Body = Envelope \<lparr>ar_Success = True, ar_Data = Some data, ar_Error = None, ar_Timestamp = now\<rparr>\<rparr>"

definition ErrorWithDetails :: "time \<Rightarrow> int \<Rightarrow> string \<Rightarrow> string \<Rightarrow> string \<Rightarrow> 'd http_response" where
  "ErrorWithDetails now status code message details =
     \<lparr>hr_Status = status, hr_Headers = json_header,
      hr_Body = Envelope \<lparr>ar_Success = False, ar_Data = None,
        ar_Error = Some \<lparr>ae_Code = code, ae_Message = message, ae_Details = details\<rparr>,
        ar_Timestamp = now\<rparr>\<rparr>"

definition HttpError :: "time \<Rightarrow> int \<Rightarrow> string \<Rightarrow> string \<Rightarrow> 'd http_response" where
  "HttpError now status code message =
     \<lparr>hr_Status = status, hr_Headers = json_header,
      hr_Body = Envelope \<lparr>ar_Success = False, ar_Data = None,
        ar_Error = Some \<lparr>ae_Code = code, ae_Message = message, ae_Details = []\<rparr>,
        ar_Timestamp = now\<rparr>\<rparr>"

text \<open>The literal error bodies that the middleware writes.\<close>

definition raw_error :: "int \<Rightarrow> (string \<times> string) list \<Rightarrow> string \<Rightarrow> string \<Rightarrow> 'd http_response" where
  "raw_error status hs code message =
     \<lparr>hr_Status = status, hr_Headers = json_header @ hs,
      hr_Body = Raw (''{\"success\":false,\"error\":{\"code\":\"'' @ code @ ''\",\"message\":\"'' @ message @ ''\"}}'')\<rparr>"

lemma response_status [simp]:
  "hr_Status (JSON now st d) = st" "hr_Status (HttpError now st c m) = st"
  "hr_Status (ErrorWithDetails now st c m dt) = st" "hr_Status (raw_error st hs c m) = st"
  by (simp_all add: JSON_def HttpError_def ErrorWithDetails_def raw_error_def)

text \<open>\<^verbatim>\<open>http.Error\<close>: plain text, whatever content type was set before, and a final newline.\<close>

definition plain_error :: "int \<Rightarrow> string \<Rightarrow> string \<Rightarrow> 'd http_response" where
  "plain_error status code message =
     \<lparr>hr_Status = status,
      hr_Headers = [(''Content-Type'', ''text/plain; charset=utf-8''), (''X-Content-Type-Options'', ''nosniff'')],
      hr_Body = Raw (''{\"success\":false,\"error\":{\"code\":\"'' @ code @ ''\",\"message\":\"'' @ message
        @ ''\"}}'' @ [CHR 0x0A])\<rparr>"

lemma plain_error_status [simp]: "hr_Status (plain_error st c m) = st"
  by (simp add: plain_error_def)

lemma add_headers_simps [simp]:
  "hr_Status (add_headers hs resp) = hr_Status resp" "hr_Body (add_headers hs resp) = hr_Body resp"
  by (simp_all add: add_headers_def)

lemma with_headers_simps [simp]:
  "snd (with_headers hs rs) = snd rs"
  "fst (with_headers hs rs) = map_option (add_headers hs) (fst rs)"
  by (simp_all add: with_headers_def)

text \<open>The value a header has at the end is the last one assigned.\<close>

lemma response_header_add:
  "response_header (add_headers hs resp) k =
     (case response_header resp k of None \<Rightarrow> map_of (rev hs) k | Some v \<Rightarrow> Some v)"
  by (simp add: response_header_def add_headers_def map_add_def)

end
