(* ===== verification/Keyed.thy ===== *)
theory Keyed
  imports Http
begin

text \<open>
  Tables in memory with one entry per client, which a background routine sweeps: the visitors of
  the rate limiter and the failure counts of authentication. The contract of such a table is an
  interface: a stale entry behaves like a missing one. Its client lemma says that sweeping is
  unobservable. A middleware that answers by such a table is a second interface on top of it.
\<close>

text \<open>One call: the entry of the key reacts to the input, gives an answer and is replaced.\<close>

definition touch ::
  "(time \<Rightarrow> 'i \<Rightarrow> 'v option \<Rightarrow> 'o \<times> 'v option) \<Rightarrow> time \<Rightarrow> 'k \<Rightarrow> 'i \<Rightarrow> ('k \<rightharpoonup> 'v) \<Rightarrow> 'o \<times> ('k \<rightharpoonup> 'v)" where
  "touch react now k i m = (case react now i (m k) of (out, v) \<Rightarrow> (out, m(k := v)))"

text \<open>A loop over the table that deletes the stale entries.\<close>

definition sweep :: "(time \<Rightarrow> 'v \<Rightarrow> bool) \<Rightarrow> time \<Rightarrow> ('k \<rightharpoonup> 'v) \<Rightarrow> ('k \<rightharpoonup> 'v)" where
  "sweep stale now m = (\<lambda>k. case m k of None \<Rightarrow> None | Some v \<Rightarrow> if stale now v then None else Some v)"

datatype ('k, 'i) visit = Visit time 'k 'i | Sweep time

fun visit_time :: "('k, 'i) visit \<Rightarrow> time" where
  "visit_time (Visit t k i) = t"
| "visit_time (Sweep t) = t"

fun is_visit :: "('k, 'i) visit \<Rightarrow> bool" where
  "is_visit (Visit t k i) = True"
| "is_visit (Sweep t) = False"

fun answers ::
  "(time \<Rightarrow> 'i \<Rightarrow> 'v option \<Rightarrow> 'o \<times> 'v option) \<Rightarrow> (time \<Rightarrow> 'v \<Rightarrow> bool) \<Rightarrow> ('k, 'i) visit list \<Rightarrow> ('k \<rightharpoonup> 'v) \<Rightarrow> 'o list" where
  "answers react stale [] m = []"
| "answers react stale (Visit t k i # vs) m =
     (case touch react t k i m of (out, m') \<Rightarrow> out # answers react stale vs m')"
| "answers react stale (Sweep t # vs) m = answers react stale vs (sweep stale t m)"

locale expiring =
  fixes react :: "time \<Rightarrow> 'i \<Rightarrow> 'v option \<Rightarrow> 'o \<times> 'v option"
    and stale :: "time \<Rightarrow> 'v \<Rightarrow> bool"
    and valid :: "'v \<Rightarrow> bool"
  assumes stale_later: "stale t v \<Longrightarrow> t \<le> t' \<Longrightarrow> stale t' v"
    and stale_absent: "stale t v \<Longrightarrow> valid v \<Longrightarrow> react t i (Some v) = react t i None"
    and valid_kept: "snd (react t i e) = Some w \<Longrightarrow> (\<forall>u. e = Some u \<longrightarrow> valid u) \<Longrightarrow> valid w"
begin

lemma sweeps_unobservable_aux:
  assumes "sorted (map visit_time vs)" and "\<forall>v \<in> set vs. t \<le> visit_time v"
    and "\<forall>k. m k = m' k \<or> (m k = None \<and> (\<exists>v. m' k = Some v \<and> stale t v))"
    and "\<forall>k v. m' k = Some v \<longrightarrow> valid v"
  shows "answers react stale vs m = answers react stale (filter is_visit vs) m'"
  using assms
proof (induction vs arbitrary: t m m')
  case (Cons w vs)
  show ?case
  proof (cases w)
    case (Visit t1 k i)
    have le: "t \<le> t1" and later: "\<forall>v \<in> set vs. t1 \<le> visit_time v" and sorted: "sorted (map visit_time vs)"
      using Cons.prems(1,2) by (auto simp: Visit)
    have same: "react t1 i (m k) = react t1 i (m' k)"
      using Cons.prems(3,4) stale_absent stale_later [OF _ le] by metis
    obtain out v where r: "react t1 i (m' k) = (out, v)" by (cases "react t1 i (m' k)")
    have "valid u" if "v = Some u" for u
      using valid_kept [of t1 i "m' k" u] Cons.prems(4) r that by auto
    then have ok: "\<forall>k' u. (m'(k := v)) k' = Some u \<longrightarrow> valid u" using Cons.prems(4) by auto
    have rel: "\<forall>k'. (m(k := v)) k' = (m'(k := v)) k' \<or>
        ((m(k := v)) k' = None \<and> (\<exists>v'. (m'(k := v)) k' = Some v' \<and> stale t1 v'))"
      using Cons.prems(3) stale_later [OF _ le] by (metis fun_upd_apply)
    from Cons.IH [OF sorted later rel ok] same r show ?thesis
      by (simp add: Visit touch_def fun_upd_def)
  next
    case (Sweep t1)
    have le: "t \<le> t1" and later: "\<forall>v \<in> set vs. t1 \<le> visit_time v" and sorted: "sorted (map visit_time vs)"
      using Cons.prems(1,2) by (auto simp: Sweep)
    have rel: "\<forall>k. sweep stale t1 m k = m' k \<or>
        (sweep stale t1 m k = None \<and> (\<exists>v. m' k = Some v \<and> stale t1 v))"
    proof
      fix k
      from Cons.prems(3) have "m k = m' k \<or> (m k = None \<and> (\<exists>v. m' k = Some v \<and> stale t v))" by blast
      with stale_later [OF _ le] show "sweep stale t1 m k = m' k \<or>
        (sweep stale t1 m k = None \<and> (\<exists>v. m' k = Some v \<and> stale t1 v))"
        by (cases "m k"; cases "m' k") (auto simp: sweep_def)
    qed
    from Cons.IH [OF sorted later rel Cons.prems(4)] show ?thesis by (simp add: Sweep)
  qed
qed simp

lemma sweeps_unobservable:
  assumes "sorted (map visit_time vs)" and "\<forall>k v. m k = Some v \<longrightarrow> valid v"
  shows "answers react stale vs m = answers react stale (filter is_visit vs) m"
proof (cases vs)
  case (Cons v ws)
  from assms show ?thesis
    by (intro sweeps_unobservable_aux [where t = "visit_time v"]) (auto simp: Cons)
qed simp

end

section \<open>Middleware that keeps such a table\<close>

text \<open>A run of a middleware interleaves requests with the calls of its background routine.\<close>

fun serve ::
  "(time \<Rightarrow> ('d, 't \<times> 's) handler) \<Rightarrow> (time \<Rightarrow> 't \<Rightarrow> 't) \<Rightarrow> (time \<times> http_request option) list \<Rightarrow> 't \<times> 's \<Rightarrow>
   'd http_response option list \<times> 's" where
  "serve mw cleanup [] ts = ([], snd ts)"
| "serve mw cleanup ((now, Some r) # evs) ts =
     (case mw now r ts of
        (resp, ts') \<Rightarrow> (case serve mw cleanup evs ts' of (resps, s) \<Rightarrow> (resp # resps, s)))"
| "serve mw cleanup ((now, None) # evs) ts = serve mw cleanup evs (cleanup now (fst ts), snd ts)"

text \<open>What the clients see follows from the answers of the table.\<close>

fun respond_all ::
  "('o \<times> http_request \<Rightarrow> 's \<Rightarrow> 'd http_response option \<times> 's) \<Rightarrow> ('o \<times> http_request) list \<Rightarrow> 's \<Rightarrow>
   'd http_response option list \<times> 's" where
  "respond_all respond [] s = ([], s)"
| "respond_all respond (ar # ars) s =
     (case respond ar s of
        (resp, s') \<Rightarrow> (case respond_all respond ars s' of (resps, s'') \<Rightarrow> (resp # resps, s'')))"

fun visit_of :: "(http_request \<Rightarrow> 'i) \<Rightarrow> time \<times> http_request option \<Rightarrow> (string, 'i) visit" where
  "visit_of inp (now, Some r) = Visit now (hq_RemoteAddr r) (inp r)"
| "visit_of inp (now, None) = Sweep now"

definition is_request :: "time \<times> http_request option \<Rightarrow> bool" where
  "is_request ev \<longleftrightarrow> snd ev \<noteq> None"

abbreviation requests :: "(time \<times> http_request option) list \<Rightarrow> http_request list" where
  "requests evs \<equiv> List.map_filter snd evs"

lemma visits_filter: "map (visit_of inp) (filter is_request evs) = filter is_visit (map (visit_of inp) evs)"
proof (induction evs)
  case (Cons ev evs)
  obtain now i where "ev = (now, i)" by (cases ev)
  with Cons show ?case by (cases i) (auto simp: is_request_def)
qed simp

lemma requests_filter: "requests (filter is_request evs) = requests evs"
  by (induction evs) (auto simp: List.map_filter_simps is_request_def split: option.splits)

lemma visit_times: "map visit_time (map (visit_of inp) evs) = map fst evs"
proof (induction evs)
  case (Cons ev evs)
  obtain now i where "ev = (now, i)" by (cases ev)
  with Cons show ?case by (cases i) auto
qed simp

locale sweeping = expiring react stale valid
  for react :: "time \<Rightarrow> 'i \<Rightarrow> 'v option \<Rightarrow> 'o \<times> 'v option" and stale valid +
  fixes mw :: "time \<Rightarrow> ('d, 't \<times> 's) handler"
    and cleanup :: "time \<Rightarrow> 't \<Rightarrow> 't"
    and mk :: "(string \<rightharpoonup> 'v) \<Rightarrow> 't"
    and inp :: "http_request \<Rightarrow> 'i"
    and respond :: "'o \<times> http_request \<Rightarrow> 's \<Rightarrow> 'd http_response option \<times> 's"
  assumes mw_touch: "mw now r (mk m, s) =
      (case touch react now (hq_RemoteAddr r) (inp r) m of
         (a, m') \<Rightarrow> (case respond (a, r) s of (resp, s') \<Rightarrow> (resp, (mk m', s'))))"
    and cleanup_sweep: "cleanup now (mk m) = mk (sweep stale now m)"
begin

lemma serve_answers:
  "serve mw cleanup evs (mk m, s) =
    respond_all respond (zip (answers react stale (map (visit_of inp) evs) m) (requests evs)) s"
proof (induction evs arbitrary: m s)
  case (Cons ev evs)
  obtain now i where ev: "ev = (now, i)" by (cases ev)
  show ?case
    by (cases i) (simp_all add: ev Cons.IH mw_touch cleanup_sweep List.map_filter_simps split: prod.split)
qed (simp add: List.map_filter_def)

lemma cleanup_unobservable:
  assumes "sorted (map fst evs)" and "\<forall>k v. m k = Some v \<longrightarrow> valid v"
  shows "serve mw cleanup evs (mk m, s) = serve mw cleanup (filter is_request evs) (mk m, s)"
proof -
  from assms(1) have "sorted (map visit_time (map (visit_of inp) evs))" by (simp only: visit_times)
  from sweeps_unobservable [OF this assms(2)] show ?thesis
    by (simp only: serve_answers visits_filter requests_filter)
qed

lemma serve_request:
  assumes "react now (inp r) (m (hq_RemoteAddr r)) = (a, e)" and "respond (a, r) s = (resp, s')"
  shows "serve mw cleanup ((now, Some r) # evs) (mk m, s) =
    map_prod ((#) resp) id (serve mw cleanup evs (mk (m(hq_RemoteAddr r := e)), s'))"
  using assms by (simp add: mw_touch touch_def split: prod.split)

end

end
