(* ===== verification/Auth.thy ===== *)
theory Auth
  imports Http Keyed
begin

text \<open>
  Authentication, \<^verbatim>\<open>internal/middleware/auth.go\<close>: merchant keys, the bearer token, the middleware, and
  the tracker of failed attempts that locks an address out. Each locked section of the tracker reads
  the clock once here; a request carries one reading.
\<close>

section \<open>Keys\<close>

record merchant_key =
  mk_MerchantID :: string
  mk_APIKey :: string

definition admin_id :: string where "admin_id = ''__admin__''"

definition parse_key :: "string \<Rightarrow> merchant_key" where
  "parse_key raw =
     (case split_once (CHR '':'') raw of
        Some (c # cs, rest) \<Rightarrow> \<lparr>mk_MerchantID = c # cs, mk_APIKey = rest\<rparr>
      | _ \<Rightarrow> \<lparr>mk_MerchantID = admin_id, mk_APIKey = raw\<rparr>)"

definition ParseMerchantKeys :: "string list \<Rightarrow> merchant_key list" where
  "ParseMerchantKeys rawKeys = map parse_key (filter (\<lambda>raw. raw \<noteq> []) (map TrimSpace rawKeys))"

definition extractBearerToken :: "http_request \<Rightarrow> string" where
  "extractBearerToken r =
     (let auth = Header r ''Authorization'' in
      if auth = [] then []
      else case split_once (CHR '' '') auth of
        None \<Rightarrow> []
      | Some (scheme, token) \<Rightarrow> if EqualFold scheme ''bearer'' then token else [])"

definition validateKeyAndGetMerchant :: "string \<Rightarrow> merchant_key list \<Rightarrow> string" where
  "validateKeyAndGetMerchant token keys =
     foldl (\<lambda>matched k. if token = mk_APIKey k then mk_MerchantID k else matched) [] keys"

definition MerchantIDFromContext :: "http_request \<Rightarrow> string" where
  "MerchantIDFromContext r = (case hq_Merchant r of Some i \<Rightarrow> i | None \<Rightarrow> [])"

definition IsAdmin :: "http_request \<Rightarrow> bool" where
  "IsAdmin r \<longleftrightarrow> MerchantIDFromContext r = ''__admin__''"

section \<open>Failed attempts\<close>

record auth_failure_entry =
  af_count :: int
  af_firstAt :: time

record auth_tracker =
  at_failures :: "string \<rightharpoonup> auth_failure_entry"
  at_maxFails :: int
  at_window :: duration

definition newAuthFailureTracker :: "int \<Rightarrow> duration \<Rightarrow> auth_tracker" where
  "newAuthFailureTracker maxFails window =
     \<lparr>at_failures = Map.empty, at_maxFails = maxFails, at_window = window\<rparr>"

definition recordFailure :: "time \<Rightarrow> string \<Rightarrow> auth_tracker \<Rightarrow> auth_tracker" where
  "recordFailure now ip t =
     (case at_failures t ip of
        None \<Rightarrow> t\<lparr>at_failures := (at_failures t)(ip \<mapsto> \<lparr>af_count = 1, af_firstAt = now\<rparr>)\<rparr>
      | Some entry \<Rightarrow>
          if now - af_firstAt entry > at_window t
          then t\<lparr>at_failures := (at_failures t)(ip \<mapsto> \<lparr>af_count = 1, af_firstAt = now\<rparr>)\<rparr>
          else t\<lparr>at_failures := (at_failures t)(ip \<mapsto> entry\<lparr>af_count := af_count entry + 1\<rparr>)\<rparr>)"

definition isBlocked :: "time \<Rightarrow> string \<Rightarrow> auth_tracker \<Rightarrow> bool \<times> auth_tracker" where
  "isBlocked now ip t =
     (case at_failures t ip of
        None \<Rightarrow> (False, t)
      | Some entry \<Rightarrow>
          if now - af_firstAt entry > at_window t
          then (False, t\<lparr>at_failures := (at_failures t)(ip := None)\<rparr>)
          else (af_count entry \<ge> at_maxFails t, t))"

definition resetFailures :: "string \<Rightarrow> auth_tracker \<Rightarrow> auth_tracker" where
  "resetFailures ip t = t\<lparr>at_failures := (at_failures t)(ip := None)\<rparr>"

definition auth_cleanup :: "time \<Rightarrow> auth_tracker \<Rightarrow> auth_tracker" where
  "auth_cleanup now t =
     t\<lparr>at_failures := sweep (\<lambda>now entry. now - af_firstAt entry > at_window t) now (at_failures t)\<rparr>"

section \<open>The middleware\<close>

definition APIKeyAuth :: "merchant_key list \<Rightarrow> time \<Rightarrow> ('d, 's) handler \<Rightarrow> ('d, auth_tracker \<times> 's) handler" where
  "APIKeyAuth keys now next_handler r ts =
     (case ts of (t, s) \<Rightarrow>
      if keys = [] then (Some (raw_error 401 [] ''UNAUTHORIZED'' ''API authentication not configured''), t, s)
      else
        let clientIP = hq_RemoteAddr r in
        (case isBlocked now clientIP t of (blocked, t) \<Rightarrow>
         if blocked
         then (Some (raw_error 429 [(''Retry-After'', ''60'')] ''RATE_LIMITED''
                 ''too many failed auth attempts, please retry later''), t, s)
         else
           let token = extractBearerToken r in
           if token = []
           then (Some (raw_error 401 [] ''UNAUTHORIZED'' ''missing or invalid Authorization header''), t, s)
           else
             let merchantID = validateKeyAndGetMerchant token keys in
             if merchantID = []
             then (Some (raw_error 403 [] ''FORBIDDEN'' ''invalid API key''), recordFailure now clientIP t, s)
             else
               (case next_handler (r\<lparr>hq_Merchant := Some merchantID\<rparr>) s of
                  (resp, s') \<Rightarrow> (resp, resetFailures clientIP t, s'))))"

section \<open>Who is let through\<close>

lemma foldl_matched:
  "foldl (\<lambda>matched k. if token = mk_APIKey k then mk_MerchantID k else matched) m keys =
     (case find (\<lambda>k. mk_APIKey k = token) (rev keys) of None \<Rightarrow> m | Some k \<Rightarrow> mk_MerchantID k)"
  by (induction keys rule: rev_induct) auto

text \<open>The last key that matches gives the merchant.\<close>

lemma validate_key:
  "validateKeyAndGetMerchant token keys =
     (case find (\<lambda>k. mk_APIKey k = token) (rev keys) of None \<Rightarrow> [] | Some k \<Rightarrow> mk_MerchantID k)"
  by (simp add: validateKeyAndGetMerchant_def foldl_matched)

lemma validate_key_member:
  "validateKeyAndGetMerchant token keys = m \<Longrightarrow> m \<noteq> [] \<Longrightarrow>
     \<exists>k \<in> set keys. mk_MerchantID k = m \<and> mk_APIKey k = token"
  by (auto simp: validate_key split: option.splits dest!: find_SomeD)

text \<open>Identities that the configuration produces are not empty and contain no colon.\<close>

lemma parsed_identity:
  assumes "k \<in> set (ParseMerchantKeys raw)"
  shows "mk_MerchantID k \<noteq> []" and "CHR '':'' \<notin> set (mk_MerchantID k)"
proof -
  obtain s where k: "k = parse_key s" using assms by (auto simp: ParseMerchantKeys_def)
  show "mk_MerchantID k \<noteq> []"
    by (auto simp: k parse_key_def admin_id_def split: option.splits list.splits)
  show "CHR '':'' \<notin> set (mk_MerchantID k)"
    by (auto simp: k parse_key_def admin_id_def split: option.splits list.splits dest!: split_once_Some)
qed

section \<open>One request, seen from its address\<close>

datatype credential = NoCredential | WrongKey | RightKey string

datatype auth_answer = Locked | Unauthorized | Forbidden | Admitted string

definition credential_of :: "merchant_key list \<Rightarrow> http_request \<Rightarrow> credential" where
  "credential_of keys r =
     (let token = extractBearerToken r; merchantID = validateKeyAndGetMerchant token keys in
      if token = [] then NoCredential else if merchantID = [] then WrongKey else RightKey merchantID)"

definition live_entry :: "duration \<Rightarrow> time \<Rightarrow> auth_failure_entry option \<Rightarrow> auth_failure_entry option" where
  "live_entry window now e =
     (case e of None \<Rightarrow> None | Some x \<Rightarrow> if now - af_firstAt x > window then None else Some x)"

definition auth_react ::
  "int \<Rightarrow> duration \<Rightarrow> time \<Rightarrow> credential \<Rightarrow> auth_failure_entry option \<Rightarrow> auth_answer \<times> auth_failure_entry option" where
  "auth_react maxFails window now c e =
     (let e = live_entry window now e in
      if (case e of None \<Rightarrow> False | Some x \<Rightarrow> af_count x \<ge> maxFails) then (Locked, e)
      else case c of
        NoCredential \<Rightarrow> (Unauthorized, e)
      | WrongKey \<Rightarrow> (Forbidden, Some (case e of None \<Rightarrow> \<lparr>af_count = 1, af_firstAt = now\<rparr>
                                       | Some x \<Rightarrow> x\<lparr>af_count := af_count x + 1\<rparr>))
      | RightKey m \<Rightarrow> (Admitted m, None))"

definition auth_respond :: "('d, 's) handler \<Rightarrow> auth_answer \<times> http_request \<Rightarrow> 's \<Rightarrow> 'd http_response option \<times> 's" where
  "auth_respond h ar s =
     (case fst ar of
        Locked \<Rightarrow> (Some (raw_error 429 [(''Retry-After'', ''60'')] ''RATE_LIMITED''
                     ''too many failed auth attempts, please retry later''), s)
      | Unauthorized \<Rightarrow> (Some (raw_error 401 [] ''UNAUTHORIZED'' ''missing or invalid Authorization header''), s)
      | Forbidden \<Rightarrow> (Some (raw_error 403 [] ''FORBIDDEN'' ''invalid API key''), s)
      | Admitted m \<Rightarrow> h (snd ar\<lparr>hq_Merchant := Some m\<rparr>) s)"

lemma APIKeyAuth_react:
  assumes "keys \<noteq> []"
  shows "APIKeyAuth keys now h r (t, s) =
    (case touch (auth_react (at_maxFails t) (at_window t)) now (hq_RemoteAddr r) (credential_of keys r) (at_failures t) of
       (a, m) \<Rightarrow> (case auth_respond h (a, r) s of (resp, s') \<Rightarrow> (resp, t\<lparr>at_failures := m\<rparr>, s')))"
  using assms
  by (cases "at_failures t (hq_RemoteAddr r)")
    (auto simp: APIKeyAuth_def isBlocked_def recordFailure_def resetFailures_def touch_def auth_react_def
      live_entry_def credential_of_def auth_respond_def Let_def fun_upd_idem fun_upd_triv split: prod.split)

text \<open>The middleware is an instance of the interface; its laws give the runs of requests.\<close>

interpretation auth_mw: sweeping "auth_react (at_maxFails t) (at_window t)"
  "\<lambda>now e. now - af_firstAt e > at_window t" "\<lambda>_. True" "\<lambda>now. APIKeyAuth (k # ks) now h" auth_cleanup
  "\<lambda>m. t\<lparr>at_failures := m\<rparr>" "credential_of (k # ks)" "auth_respond h"
  for t :: auth_tracker and k ks and h :: "('d, 's) handler"
proof unfold_locales
  show "APIKeyAuth (k # ks) now h r (t\<lparr>at_failures := m\<rparr>, s) =
      (case touch (auth_react (at_maxFails t) (at_window t)) now (hq_RemoteAddr r) (credential_of (k # ks) r) m of
         (a, m') \<Rightarrow> (case auth_respond h (a, r) s of (resp, s') \<Rightarrow> (resp, (t\<lparr>at_failures := m'\<rparr>, s'))))" for now r m s
    by (simp add: APIKeyAuth_react)
qed (auto simp: auth_react_def live_entry_def auth_cleanup_def)

section \<open>A run of requests\<close>

definition serve_auth ::
  "merchant_key list \<Rightarrow> ('d, 's) handler \<Rightarrow> (time \<times> http_request option) list \<Rightarrow> auth_tracker \<times> 's \<Rightarrow>
   'd http_response option list \<times> 's" where
  "serve_auth keys h = serve (\<lambda>now. APIKeyAuth keys now h) auth_cleanup"

lemma serve_auth_no_keys:
  "serve_auth [] h evs ts =
     (map (\<lambda>_. Some (raw_error 401 [] ''UNAUTHORIZED'' ''API authentication not configured'')) (requests evs), snd ts)"
proof (induction evs arbitrary: ts)
  case (Cons ev evs)
  obtain now i where ev: "ev = (now, i)" by (cases ev)
  show ?case
    by (cases i; cases ts)
      (use Cons.IH in \<open>simp_all add: ev serve_auth_def APIKeyAuth_def List.map_filter_simps\<close>)
qed (simp add: serve_auth_def List.map_filter_def)

text \<open>
  The background cleanup of the failure tracker is unobservable: a run of requests in order of
  time is answered, and changes the state behind the middleware, exactly as if it never ran.
\<close>

theorem auth_cleanup_unobservable:
  assumes "sorted (map fst evs)"
  shows "serve_auth keys h evs (t, s) = serve_auth keys h (filter is_request evs) (t, s)"
proof (cases keys)
  case Nil
  then show ?thesis by (simp only: serve_auth_no_keys requests_filter snd_conv)
next
  case (Cons k ks)
  from auth_mw.cleanup_unobservable [OF assms, where m = "at_failures t" and t = t and k = k and ks = ks and h = h and s = s] show ?thesis
    by (simp add: serve_auth_def Cons)
qed

section \<open>Lock-out\<close>

abbreviation locked_out :: "'d http_response" where
  "locked_out \<equiv> raw_error 429 [(''Retry-After'', ''60'')] ''RATE_LIMITED''
     ''too many failed auth attempts, please retry later''"

abbreviation invalid_key :: "'d http_response" where
  "invalid_key \<equiv> raw_error 403 [] ''FORBIDDEN'' ''invalid API key''"

lemma serve_auth_step:
  assumes "keys \<noteq> []"
    and "auth_react (at_maxFails t) (at_window t) now (credential_of keys r) (at_failures t (hq_RemoteAddr r)) = (a, e)"
    and "auth_respond h (a, r) s = (resp, s')"
  shows "serve_auth keys h ((now, Some r) # evs) (t, s) =
    map_prod ((#) resp) id (serve_auth keys h evs (t\<lparr>at_failures := (at_failures t)(hq_RemoteAddr r := e)\<rparr>, s'))"
proof (cases keys)
  case (Cons k ks)
  from assms(2,3) auth_mw.serve_request [where t = t and k = k and ks = ks and m = "at_failures t" and h = h] show ?thesis
    by (simp add: serve_auth_def Cons)
qed (use assms(1) in simp)

lemma locked_run:
  assumes "keys \<noteq> []" and "at_failures t ip = Some e" and "at_maxFails t \<le> af_count e"
    and "\<forall>(now, r) \<in> set rs. hq_RemoteAddr r = ip \<and> now - af_firstAt e \<le> at_window t"
  shows "serve_auth keys h (map (apsnd Some) rs) (t, s) = (replicate (length rs) (Some locked_out), s)"
  using assms(2-)
proof (induction rs)
  case (Cons p rs)
  obtain now r where p: "p = (now, r)" by (cases p)
  from Cons.prems have "auth_react (at_maxFails t) (at_window t) now (credential_of keys r)
      (at_failures t (hq_RemoteAddr r)) = (Locked, Some e)"
    by (auto simp: p auth_react_def live_entry_def)
  from serve_auth_step [OF assms(1) this, where h = h and s = s] Cons show ?case
    by (simp add: p auth_respond_def fun_upd_idem)
qed (simp add: serve_auth_def)

lemma counting_run:
  assumes "keys \<noteq> []" and "at_failures t ip = Some e" and "af_count e \<le> at_maxFails t"
    and "at_maxFails t \<le> af_count e + int (length bad)"
    and "\<forall>(now, r) \<in> set (bad @ later). hq_RemoteAddr r = ip \<and> now - af_firstAt e \<le> at_window t"
    and "\<forall>(now, r) \<in> set bad. credential_of keys r = WrongKey"
  shows "serve_auth keys h (map (apsnd Some) (bad @ later)) (t, s) =
    (replicate (nat (at_maxFails t - af_count e)) (Some invalid_key)
      @ replicate (length (bad @ later) - nat (at_maxFails t - af_count e)) (Some locked_out), s)"
  using assms(2-)
proof (induction bad arbitrary: t e)
  case Nil
  with locked_run [OF assms(1), of t ip e later h s] show ?case by simp
next
  case (Cons p bad)
  obtain now r where p: "p = (now, r)" by (cases p)
  show ?case
  proof (cases "af_count e = at_maxFails t")
    case True
    with locked_run [OF assms(1), of t ip e "(p # bad) @ later" h s] Cons.prems show ?thesis by simp
  next
    case False
    let ?e = "e\<lparr>af_count := af_count e + 1\<rparr>"
    let ?t = "t\<lparr>at_failures := (at_failures t)(ip \<mapsto> ?e)\<rparr>"
    from Cons.prems False have "auth_react (at_maxFails t) (at_window t) now (credential_of keys r)
        (at_failures t (hq_RemoteAddr r)) = (Forbidden, Some ?e)"
      by (auto simp: p auth_react_def live_entry_def)
    from serve_auth_step [OF assms(1) this, where h = h and s = s] Cons.prems(4)
    have "serve_auth keys h (map (apsnd Some) ((p # bad) @ later)) (t, s) =
        map_prod ((#) (Some invalid_key)) id (serve_auth keys h (map (apsnd Some) (bad @ later)) (?t, s))"
      by (simp add: p auth_respond_def)
    moreover have "serve_auth keys h (map (apsnd Some) (bad @ later)) (?t, s) =
        (replicate (nat (at_maxFails ?t - af_count ?e)) (Some invalid_key)
          @ replicate (length (bad @ later) - nat (at_maxFails ?t - af_count ?e)) (Some locked_out), s)"
      by (rule Cons.IH) (use Cons.prems False in auto)
    moreover have "nat (at_maxFails t - af_count e) = Suc (nat (at_maxFails ?t - af_count ?e))"
      using Cons.prems False by simp
    ultimately show ?thesis by simp
  qed
qed

text \<open>
  C35: brute force is stopped: of the requests with a wrong key that one address sends within
  fifteen minutes of its first failure, ten are refused with 403 and all later requests from that
  address, with a right key too, get 429; none reaches the handler or changes its state.
\<close>

theorem ten_wrong_keys_lock_out:
  assumes "at_maxFails t = 10" and "at_window t = 15 * minute" and "at_failures t ip = None" and "keys \<noteq> []"
    and "10 \<le> length bad" and "\<forall>(now, r) \<in> set bad. credential_of keys r = WrongKey"
    and "\<forall>(now, r) \<in> set (bad @ later). hq_RemoteAddr r = ip \<and> now - fst (hd bad) \<le> 15 * minute"
  shows "serve_auth keys h (map (apsnd Some) (bad @ later)) (t, s) =
    (replicate 10 (Some invalid_key) @ replicate (length (bad @ later) - 10) (Some locked_out), s)"
proof -
  from assms(5) obtain now r bad' where bad: "bad = (now, r) # bad'" by (cases bad) auto
  let ?e = "\<lparr>af_count = 1, af_firstAt = now\<rparr>"
  let ?t = "t\<lparr>at_failures := (at_failures t)(ip \<mapsto> ?e)\<rparr>"
  from assms have "auth_react (at_maxFails t) (at_window t) now (credential_of keys r)
      (at_failures t (hq_RemoteAddr r)) = (Forbidden, Some ?e)"
    by (auto simp: bad auth_react_def live_entry_def)
  from serve_auth_step [OF assms(4) this, where h = h and s = s] assms(7)
  have "serve_auth keys h (map (apsnd Some) (bad @ later)) (t, s) =
      map_prod ((#) (Some invalid_key)) id (serve_auth keys h (map (apsnd Some) (bad' @ later)) (?t, s))"
    by (simp add: bad auth_respond_def)
  moreover have "serve_auth keys h (map (apsnd Some) (bad' @ later)) (?t, s) =
      (replicate (nat (at_maxFails ?t - af_count ?e)) (Some invalid_key)
        @ replicate (length (bad' @ later) - nat (at_maxFails ?t - af_count ?e)) (Some locked_out), s)"
    by (rule counting_run [OF assms(4), where ip = ip]) (use assms in \<open>auto simp: bad\<close>)
  moreover have "replicate 10 x = x # replicate 9 x" for x :: "'a http_response option"
    by (simp add: numeral_eq_Suc)
  ultimately show ?thesis using assms(1) by (simp add: bad)
qed

text \<open>
  C34: authentication lets through exactly the requests that carry a configured key: with the keys
  of the configuration, either a key matches the bearer token, the address is not locked out, and
  the answer is the handler's on the request that carries the merchant of the last matching key; or
  the request is refused with 401, 403 or 429 and the state behind the middleware stays as it was.
\<close>

theorem auth_lets_valid_keys_through:
  fixes h :: "('d, 's) handler"
  shows "(\<exists>k \<in> set (ParseMerchantKeys raw).
      mk_APIKey k = extractBearerToken r \<and> mk_APIKey k \<noteq> []
      \<and> find (\<lambda>k. mk_APIKey k = extractBearerToken r) (rev (ParseMerchantKeys raw)) = Some k
      \<and> fst (isBlocked now (hq_RemoteAddr r) t) = False
      \<and> APIKeyAuth (ParseMerchantKeys raw) now h r (t, s) =
          (case h (r\<lparr>hq_Merchant := Some (mk_MerchantID k)\<rparr>) s of
             (resp, s') \<Rightarrow> (resp, t\<lparr>at_failures := (at_failures t)(hq_RemoteAddr r := None)\<rparr>, s')))
    \<or> (filter (\<lambda>k. mk_APIKey k = extractBearerToken r \<and> mk_APIKey k \<noteq> []) (ParseMerchantKeys raw) = []
        \<or> fst (isBlocked now (hq_RemoteAddr r) t))
      \<and> (\<exists>e t'. APIKeyAuth (ParseMerchantKeys raw) now h r (t, s) = (Some e, t', s) \<and> hr_Status e \<in> {401, 403, 429})"
proof -
  let ?keys = "ParseMerchantKeys raw" and ?token = "extractBearerToken r" and ?ip = "hq_RemoteAddr r"
  let ?found = "find (\<lambda>k. mk_APIKey k = ?token) (rev ?keys)"
  have reset: "(t\<lparr>at_failures := (at_failures t)(?ip := None)\<rparr>) = resetFailures ?ip (snd (isBlocked now ?ip t))"
    by (simp add: isBlocked_def resetFailures_def split: option.split)
  have none: "filter (\<lambda>k. mk_APIKey k = ?token \<and> mk_APIKey k \<noteq> []) ?keys = []" if "?token = [] \<or> ?found = None"
    using that by (auto simp: find_None_iff filter_empty_conv)
  obtain b t1 where blk: "isBlocked now ?ip t = (b, t1)" by (cases "isBlocked now ?ip t")
  consider "?keys = []" | "?keys \<noteq> []" "b" | "?keys \<noteq> []" "\<not> b" "?token = [] \<or> ?found = None"
    | k where "?keys \<noteq> []" "\<not> b" "?token \<noteq> []" "?found = Some k" by fast
  then show ?thesis
  proof cases
    case 1
    then show ?thesis by (simp add: APIKeyAuth_def)
  next
    case 2
    then show ?thesis by (simp add: APIKeyAuth_def blk)
  next
    case 3
    from none [OF 3(3)] 3 show ?thesis
      by (auto simp: APIKeyAuth_def blk validate_key Let_def)
  next
    case (4 k)
    then have k: "k \<in> set ?keys" "mk_APIKey k = ?token" by (auto dest!: find_SomeD)
    from 4 reset parsed_identity(1) [OF k(1)] have "APIKeyAuth ?keys now h r (t, s) =
        (case h (r\<lparr>hq_Merchant := Some (mk_MerchantID k)\<rparr>) s of
           (resp, s') \<Rightarrow> (resp, t\<lparr>at_failures := (at_failures t)(?ip := None)\<rparr>, s'))"
      by (simp add: APIKeyAuth_def blk validate_key Let_def)
    with 4 k blk show ?thesis by (intro disjI1 bexI [OF _ k(1)]) simp
  qed
qed

section \<open>Witnesses\<close>

definition demo_keys :: "merchant_key list" where
  "demo_keys = ParseMerchantKeys [''shop:k1'', '' root '']"

definition with_key :: "string \<Rightarrow> http_request" where
  "with_key k = request_from ''9.9.9.9:1'' [(''Authorization'', ''Bearer '' @ k)]"

definition echo_handler :: "(string, nat) handler" where
  "echo_handler r n = (Some (JSON 0 200 (MerchantIDFromContext r)), n + 1)"

lemma auth_cleanup_unobservable_witness:
  "serve_auth demo_keys echo_handler [(0, Some (with_key ''x'')), (2000 * second, None), (2000 * second, Some (with_key ''root''))]
      (newAuthFailureTracker 10 (15 * minute), 0) =
   serve_auth demo_keys echo_handler [(0, Some (with_key ''x'')), (2000 * second, Some (with_key ''root''))]
      (newAuthFailureTracker 10 (15 * minute), 0)"
  using auth_cleanup_unobservable [of "[(0, Some (with_key ''x'')), (2000 * second, None),
      (2000 * second, Some (with_key ''root''))]" demo_keys echo_handler "newAuthFailureTracker 10 (15 * minute)" 0]
  by (simp add: second_def is_request_def)

lemma demo_credentials:
  "demo_keys \<noteq> []" "credential_of demo_keys (with_key ''x'') = WrongKey"
  "credential_of demo_keys (with_key ''k1'') = RightKey ''shop''"
  by code_simp+

lemma with_key_addr: "hq_RemoteAddr (with_key k) = ''9.9.9.9:1''"
  by (simp add: with_key_def request_from_def)

lemma ten_wrong_keys_lock_out_witness:
  "serve_auth demo_keys echo_handler (map (apsnd Some) (replicate 10 (5, with_key ''x'') @ [(7, with_key ''k1'')]))
      (newAuthFailureTracker 10 (15 * minute), 0) =
   (replicate 10 (Some invalid_key) @ [Some locked_out], 0)"
  using ten_wrong_keys_lock_out [of "newAuthFailureTracker 10 (15 * minute)" "''9.9.9.9:1''" demo_keys
      "replicate 10 (5, with_key ''x'')" "[(7, with_key ''k1'')]" echo_handler 0] demo_credentials
  by (simp add: newAuthFailureTracker_def with_key_addr minute_def second_def)

end
