(* ===== verification/Handlers.thy ===== *)
theory Handlers
  imports Payment_Service Dashboard PubSub DLQ Auth
begin

text \<open>
  The HTTP handlers of \<^verbatim>\<open>internal/handler\<close>: what each reads from the request, which service it
  calls and how it maps the outcome to a response. A handler works on the part of the server's
  state that its service uses. Decoding of request bodies is a parameter.
\<close>

section \<open>Payloads\<close>

text \<open>The values that successful responses carry.\<close>

datatype payload =
    PPayment payment_response
  | PBalance balance_response
  | PEntries "ledger_entry_row list" int int
  | PDLQ "dlq_entry list" int int64 int64
  | PStatus string
  | PRecon reconciliation_record
  | PDiscrepancies "discrepancy list"
  | PStats dashboard_stats
  | PVolume "daily_volume list" string string
  | PProviders "psp_health list"
  | PRecent "recent_payment list" int int int
  | PActivity "activity_event list"
  | PHealth string string
  | PReady string "(string \<times> string) list"

record request_lib =
  rl_create :: "string \<Rightarrow> create_payment_request option"
  rl_refund :: "string \<Rightarrow> refund_request option"
  rl_index :: "string \<Rightarrow> int64 option"

type_synonym reply = "payload http_response"

section \<open>Payments\<close>

definition supportedCurrencies :: "string list" where
  "supportedCurrencies =
     [''INR'', ''USD'', ''EUR'', ''GBP'', ''SGD'', ''AUD'', ''CAD'', ''JPY'', ''AED'', ''MYR'']"

definition isValidCurrency :: "string \<Rightarrow> bool" where
  "isValidCurrency code \<longleftrightarrow> code \<in> set supportedCurrencies"

definition maxAmount :: int64 where "maxAmount = 999999999999"

definition create_check :: "time \<Rightarrow> http_request \<Rightarrow> create_payment_request \<Rightarrow> reply option" where
  "create_check now r req =
     (if rq_Amount req \<le>s 0
      then Some (HttpError now 400 ''VALIDATION_FAILED'' ''amount must be greater than zero'')
      else if maxAmount <s rq_Amount req
      then Some (HttpError now 400 ''VALIDATION_FAILED'' ''amount exceeds maximum allowed value'')
      else if rq_Currency req = [] \<or> rq_OrderID req = [] \<or> rq_MerchantID req = []
      then Some (HttpError now 400 ''VALIDATION_FAILED'' ''currency, order_id, and merchant_id are required'')
      else if \<not> isValidCurrency (rq_Currency req)
      then Some (HttpError now 400 ''VALIDATION_FAILED''
                   ''unsupported currency; must be a valid ISO 4217 code (e.g., INR, USD, EUR)'')
      else if \<not> IsAdmin r \<and> rq_MerchantID req \<noteq> MerchantIDFromContext r
      then Some (HttpError now 403 ''FORBIDDEN'' ''cannot create payments for a different merchant'')
      else None)"

text \<open>The reply to what a service returned; every error of a change is the same 500.\<close>

definition payment_reply ::
  "time \<Rightarrow> int \<Rightarrow> string \<Rightarrow> (err + payment_response) \<times> 'w sys \<Rightarrow> reply option \<times> 'w sys" where
  "payment_reply now status failed out =
     (case out of
        (Inl e, s) \<Rightarrow> (Some (HttpError now 500 ''INTERNAL_ERROR'' failed), s)
      | (Inr res, s) \<Rightarrow> (Some (JSON now status (PPayment res)), s))"

definition CreatePaymentHandler :: "request_lib \<Rightarrow> env \<Rightarrow> time \<Rightarrow> (payload, 'w sys) handler" where
  "CreatePaymentHandler rl env now r s =
     (if Header r ''Idempotency-Key'' = []
      then (Some (HttpError now 400 ''MISSING_IDEMPOTENCY_KEY''
                    ''Idempotency-Key header is required for payment creation''), s)
      else case rl_create rl (readable r) of
        None \<Rightarrow> (Some (HttpError now 400 ''INVALID_REQUEST'' ''malformed json payload''), s)
      | Some req \<Rightarrow>
          (case create_check now r req of
             Some resp \<Rightarrow> (Some resp, s)
           | None \<Rightarrow> payment_reply now 201 ''failed to create payment'' (CreatePayment env req s)))"

text \<open>
  A payment is fetched before anything else is done with it. That of another merchant looks like
  one that does not exist.
\<close>

definition fetch_owned ::
  "env \<Rightarrow> time \<Rightarrow> string \<Rightarrow> http_request \<Rightarrow> string \<Rightarrow> db \<Rightarrow> reply + payment_response" where
  "fetch_owned look now failed r pid d =
     (case GetPayment look 0 pid d of
        Inl e \<Rightarrow>
          Inl (if errors_Is e ErrPaymentNotFound then HttpError now 404 ''NOT_FOUND'' ''payment not found''
               else HttpError now 500 ''INTERNAL_ERROR'' failed)
      | Inr res \<Rightarrow>
          if \<not> IsAdmin r \<and> MerchantID (pr_Payment res) \<noteq> MerchantIDFromContext r
          then Inl (HttpError now 404 ''NOT_FOUND'' ''payment not found'')
          else Inr res)"

definition missing_id :: "time \<Rightarrow> reply" where
  "missing_id now = HttpError now 400 ''INVALID_REQUEST'' ''payment ID is required''"

definition GetPaymentHandler :: "env \<Rightarrow> time \<Rightarrow> (payload, 'w sys) handler" where
  "GetPaymentHandler look now r s =
     (let pid = URLParam r ''id'' in
      if pid = [] then (Some (missing_id now), s)
      else case fetch_owned look now ''failed to fetch payment'' r pid (sdb s) of
        Inl resp \<Rightarrow> (Some resp, s)
      | Inr res \<Rightarrow> (Some (JSON now 200 (PPayment res)), s))"

definition CapturePaymentHandler :: "env \<Rightarrow> env \<Rightarrow> time \<Rightarrow> (payload, 'w sys) handler" where
  "CapturePaymentHandler look env now r s =
     (let pid = URLParam r ''id'' in
      if pid = [] then (Some (missing_id now), s)
      else case fetch_owned look now ''failed to capture payment'' r pid (sdb s) of
        Inl resp \<Rightarrow> (Some resp, s)
      | Inr _ \<Rightarrow> payment_reply now 200 ''failed to capture payment'' (CapturePayment env pid s))"

definition RefundPaymentHandler :: "request_lib \<Rightarrow> env \<Rightarrow> env \<Rightarrow> time \<Rightarrow> (payload, 'w sys) handler" where
  "RefundPaymentHandler rl look env now r s =
     (let pid = URLParam r ''id'' in
      if pid = [] then (Some (missing_id now), s)
      else case rl_refund rl (readable r) of
        None \<Rightarrow> (Some (HttpError now 400 ''INVALID_REQUEST'' ''malformed json payload''), s)
      | Some req \<Rightarrow>
          if rf_Amount req \<le>s 0
          then (Some (HttpError now 400 ''VALIDATION_FAILED'' ''amount must be greater than zero''), s)
          else if maxAmount <s rf_Amount req
          then (Some (HttpError now 400 ''VALIDATION_FAILED'' ''refund amount exceeds maximum allowed value''), s)
          else (case fetch_owned look now ''failed to refund payment'' r pid (sdb s) of
                  Inl resp \<Rightarrow> (Some resp, s)
                | Inr _ \<Rightarrow> payment_reply now 200 ''failed to refund payment'' (RefundPayment env pid (rf_Amount req) s)))"

definition CancelPaymentHandler :: "env \<Rightarrow> env \<Rightarrow> time \<Rightarrow> (payload, 'w sys) handler" where
  "CancelPaymentHandler look env now r s =
     (let pid = URLParam r ''id'' in
      if pid = [] then (Some (missing_id now), s)
      else case fetch_owned look now ''failed to cancel payment'' r pid (sdb s) of
        Inl resp \<Rightarrow> (Some resp, s)
      | Inr _ \<Rightarrow> payment_reply now 200 ''failed to cancel payment'' (CancelPayment env pid s))"

section \<open>Ledger\<close>

definition GetAccountBalanceHandler :: "env \<Rightarrow> time \<Rightarrow> (payload, db) handler" where
  "GetAccountBalanceHandler env now r d =
     (let code = URLParam r ''code'' in
      if code = [] then (Some (HttpError now 400 ''INVALID_REQUEST'' ''account code is required''), d)
      else case GetAccountBalance env code d of
        Inl e \<Rightarrow>
          (Some (if errors_Is e ErrAccountNotFound then HttpError now 404 ''NOT_FOUND'' ''account not found''
                 else HttpError now 500 ''INTERNAL_ERROR'' ''failed to fetch balance''), d)
      | Inr res \<Rightarrow> (Some (JSON now 200 (PBalance res)), d))"

text \<open>A limit outside its range is replaced by the default; malformed numbers read as 0.\<close>

definition int_query :: "http_request \<Rightarrow> string \<Rightarrow> int" where
  "int_query r key = fst (Atoi (Query r key))"

definition limit_query :: "http_request \<Rightarrow> int \<Rightarrow> int \<Rightarrow> int" where
  "limit_query r most default_limit =
     (let limit = int_query r ''limit'' in if limit \<le> 0 \<or> limit > most then default_limit else limit)"

definition GetRecentEntriesHandler :: "env \<Rightarrow> time \<Rightarrow> (payload, db) handler" where
  "GetRecentEntriesHandler env now r d =
     (let limit = limit_query r 200 50; offset = max 0 (int_query r ''offset'') in
      case GetRecentEntries env limit offset d of
        Inl e \<Rightarrow> (Some (HttpError now 500 ''LEDGER_ERROR'' ''failed to fetch entries''), d)
      | Inr entries \<Rightarrow> (Some (JSON now 200 (PEntries entries limit offset)), d))"

section \<open>Webhooks\<close>

definition maxWebhookBodySize :: nat where "maxWebhookBodySize = 1048576"

text \<open>
  Reading through the handler's limit cuts a longer body off without an error; a smaller limit of the
  middleware makes the read fail.
\<close>

definition read_limited :: "nat \<Rightarrow> http_request \<Rightarrow> string option" where
  "read_limited n r =
     (case hq_MaxBytes r of
        None \<Rightarrow> Some (take n (hq_Body r))
      | Some m \<Rightarrow> if m < n \<and> m < length (hq_Body r) then None else Some (take n (hq_Body r)))"

definition extractSignatureHeader :: "string \<Rightarrow> http_request \<Rightarrow> string" where
  "extractSignatureHeader psp r =
     (if psp = ''stripe'' then Header r ''Stripe-Signature''
      else if psp = ''razorpay'' then Header r ''X-Razorpay-Signature''
      else Header r ''X-Webhook-Signature'')"

definition extractJSONField :: "web_lib \<Rightarrow> string \<Rightarrow> string \<Rightarrow> string" where
  "extractJSONField lib data key =
     (case decode_map lib data of None \<Rightarrow> [] | Some m \<Rightarrow> string_field m key)"

definition extractEventType :: "web_lib \<Rightarrow> string \<Rightarrow> http_request \<Rightarrow> string \<Rightarrow> string" where
  "extractEventType lib psp r body =
     (if psp = ''stripe'' then extractJSONField lib body ''type''
      else if psp = ''razorpay'' then extractJSONField lib body ''event''
      else if Header r ''X-Event-Type'' \<noteq> [] then Header r ''X-Event-Type''
      else extractJSONField lib body ''event_type'')"

type_synonym 'p pubsub_client = "'p pubsub_api \<times> pubsub_config \<times> wm_codec"

definition HandleWebhook ::
  "web_lib \<Rightarrow> (string \<rightharpoonup> 'w psp_adapter) \<Rightarrow> 'p pubsub_client option \<Rightarrow> env \<Rightarrow> time \<Rightarrow> (payload, 'p \<times> db) handler" where
  "HandleWebhook lib adps client env now r s =
     (let psp = URLParam r ''psp'' in
      if psp = [] then (Some (HttpError now 400 ''INVALID_REQUEST'' ''psp path parameter required''), s)
      else case read_limited maxWebhookBodySize r of
        None \<Rightarrow> (Some (HttpError now 400 ''INVALID_REQUEST'' ''failed to read request body''), s)
      | Some body \<Rightarrow>
        if body = [] then (Some (HttpError now 400 ''INVALID_REQUEST'' ''empty request body''), s)
        else let signature = extractSignatureHeader psp r; eventType = extractEventType lib psp r body in
        if eventType = [] then (Some (HttpError now 400 ''INVALID_REQUEST'' ''could not determine event type''), s)
        else case s of (p, d) \<Rightarrow>
          (case client of
             Some (api, cfg, codec) \<Rightarrow>
               (case PublishWebhook api cfg codec psp eventType body signature p of
                  (Inl e, p') \<Rightarrow> (Some (HttpError now 500 ''WEBHOOK_PUBLISH_FAILED'' ''failed to queue webhook''), p', d)
                | (Inr _, p') \<Rightarrow> (Some (JSON now 200 (PStatus ''queued'')), p', d))
           | None \<Rightarrow>
               (case IngestWebhook lib adps env psp eventType body signature d of
                  (Inl e, d') \<Rightarrow> (Some (HttpError now 500 ''WEBHOOK_PROCESSING_FAILED'' ''failed to process webhook''), p, d')
                | (Inr _, d') \<Rightarrow> (Some (JSON now 200 (PStatus ''received'')), p, d'))))"

section \<open>Dead-letter queue\<close>

definition ListEntriesHandler :: "'r redis_api option \<Rightarrow> dlq_codec \<Rightarrow> time \<Rightarrow> (payload, 'r \<times> db) handler" where
  "ListEntriesHandler rdb codec now r s =
     (let offset = word_of_int (int_query r ''offset''); limit = word_of_int (limit_query r 100 20) in
      case dlq_List rdb codec offset limit (fst s) of
        Inl e \<Rightarrow> (Some (HttpError now 500 ''DLQ_ERROR'' ''failed to list dead letter queue''), s)
      | Inr (entries, n) \<Rightarrow> (Some (JSON now 200 (PDLQ entries n offset limit)), s))"

definition RetryEntryHandler ::
  "request_lib \<Rightarrow> 'r redis_api option \<Rightarrow> dlq_codec \<Rightarrow> web_lib \<Rightarrow> (string \<rightharpoonup> 'w psp_adapter) \<Rightarrow> env \<Rightarrow> time \<Rightarrow>
   (payload, 'r \<times> db) handler" where
  "RetryEntryHandler rl rdb codec lib adps env now r s =
     (case rl_index rl (readable r) of
        None \<Rightarrow> (Some (HttpError now 400 ''INVALID_REQUEST'' ''expected json body with index field''), s)
      | Some index \<Rightarrow>
          (case Retry rdb codec lib adps env index s of
             (Inl e, s') \<Rightarrow> (Some (HttpError now 500 ''DLQ_RETRY_FAILED'' ''retry failed''), s')
           | (Inr _, s') \<Rightarrow> (Some (JSON now 200 (PStatus ''retried'')), s')))"

definition PurgeQueueHandler :: "'r redis_api option \<Rightarrow> time \<Rightarrow> (payload, 'r \<times> db) handler" where
  "PurgeQueueHandler rdb now r s =
     (if Header r ''X-Confirm-Purge'' \<noteq> ''yes''
      then (Some (HttpError now 400 ''CONFIRMATION_REQUIRED''
              (''DLQ purge is destructive. Set header '' @ [CHR 0x27] @ ''X-Confirm-Purge: yes'' @ [CHR 0x27] @ '' to confirm.'')), s)
      else case s of (rd, d) \<Rightarrow>
        (case Purge rdb rd of
           (Inl e, rd') \<Rightarrow> (Some (HttpError now 500 ''DLQ_PURGE_FAILED'' ''purge failed''), rd', d)
         | (Inr _, rd') \<Rightarrow> (Some (JSON now 200 (PStatus ''purged'')), rd', d)))"

section \<open>Reconciliation\<close>

definition recon_date :: "time \<Rightarrow> http_request \<Rightarrow> time option" where
  "recon_date now r = (if Query r ''date'' = [] then Some now else parse_date (Query r ''date''))"

definition TriggerReconciliation :: "(string \<rightharpoonup> 'w psp_adapter) \<Rightarrow> env \<Rightarrow> time \<Rightarrow> (payload, db \<times> 'w) handler" where
  "TriggerReconciliation adps env now r s =
     (let psp = URLParam r ''psp'' in
      if psp = [] then (Some (HttpError now 400 ''INVALID_REQUEST'' ''psp is required''), s)
      else case recon_date now r of
        None \<Rightarrow> (Some (HttpError now 400 ''INVALID_REQUEST'' ''date must be YYYY-MM-DD format''), s)
      | Some date \<Rightarrow>
          (case RunBatchReconciliation adps env psp date s of
             (Inl e, s') \<Rightarrow> (Some (HttpError now 500 ''RECONCILIATION_FAILED'' ''batch reconciliation failed''), s')
           | (Inr record, s') \<Rightarrow> (Some (JSON now 200 (PRecon record)), s')))"

definition GetDiscrepanciesHandler :: "env \<Rightarrow> time \<Rightarrow> (payload, db) handler" where
  "GetDiscrepanciesHandler env now r d =
     (let reconID = URLParam r ''id'' in
      if reconID = [] then (Some (HttpError now 400 ''INVALID_REQUEST'' ''reconciliation ID is required''), d)
      else case GetDiscrepancies env reconID d of
        Inl e \<Rightarrow> (Some (HttpError now 500 ''INTERNAL_ERROR'' ''failed to fetch discrepancies''), d)
      | Inr ds \<Rightarrow> (Some (JSON now 200 (PDiscrepancies ds)), d))"

section \<open>Dashboard\<close>

text \<open>The last thirty days by default; the end date is inclusive. Malformed dates are ignored.\<close>

definition date_or :: "time \<Rightarrow> string \<Rightarrow> (time \<Rightarrow> time) \<Rightarrow> time" where
  "date_or fallback s f = (case (if s = [] then None else parse_date s) of None \<Rightarrow> fallback | Some t \<Rightarrow> f t)"

definition parseDateRange :: "time \<Rightarrow> http_request \<Rightarrow> time \<times> time" where
  "parseDateRange now r =
     (let to = start_of_day now + day; from = to - 30 * day in
      (date_or from (Query r ''from'') (\<lambda>t. t), date_or to (Query r ''to'') (\<lambda>t. t + day)))"

definition GetStatsHandler :: "env \<Rightarrow> time \<Rightarrow> (payload, 'w sys) handler" where
  "GetStatsHandler env now r s =
     (case parseDateRange now r of (from, to) \<Rightarrow>
      (case GetStats env from to (sdb s) of
         Inl e \<Rightarrow> (Some (HttpError now 500 ''STATS_ERROR'' ''failed to fetch dashboard stats''), s)
       | Inr stats \<Rightarrow> (Some (JSON now 200 (PStats stats)), s)))"

definition GetDailyVolumeHandler :: "env \<Rightarrow> time \<Rightarrow> (payload, 'w sys) handler" where
  "GetDailyVolumeHandler env now r s =
     (case parseDateRange now r of (from, to) \<Rightarrow>
      (case GetDailyVolume env from to (sdb s) of
         Inl e \<Rightarrow> (Some (HttpError now 500 ''VOLUME_ERROR'' ''failed to fetch daily volume''), s)
       | Inr volume \<Rightarrow> (Some (JSON now 200 (PVolume volume (format_date from) (format_date to))), s)))"

definition GetPSPHealthHandler :: "env \<Rightarrow> time \<Rightarrow> (payload, 'w sys) handler" where
  "GetPSPHealthHandler env now r s =
     (case GetPSPHealth env (srouter s) (sdb s) of
        Inl e \<Rightarrow> (Some (HttpError now 500 ''PSP_HEALTH_ERROR'' ''failed to fetch PSP health''), s)
      | Inr health \<Rightarrow> (Some (JSON now 200 (PProviders health)), s))"

definition GetRecentPaymentsHandler :: "env \<Rightarrow> time \<Rightarrow> (payload, 'w sys) handler" where
  "GetRecentPaymentsHandler env now r s =
     (let offset = int_query r ''offset''; limit = limit_query r 100 20 in
      case GetRecentPayments env offset limit (sdb s) of
        Inl e \<Rightarrow> (Some (HttpError now 500 ''PAYMENTS_ERROR'' ''failed to fetch recent payments''), s)
      | Inr (ps, n) \<Rightarrow> (Some (JSON now 200 (PRecent ps n offset limit)), s))"

definition GetActivityFeedHandler :: "env \<Rightarrow> time \<Rightarrow> (payload, 'w sys) handler" where
  "GetActivityFeedHandler env now r s =
     (case GetActivityFeed env (limit_query r 200 50) (sdb s) of
        Inl e \<Rightarrow> (Some (HttpError now 500 ''ACTIVITY_ERROR'' ''failed to fetch activity feed''), s)
      | Inr es \<Rightarrow> (Some (JSON now 200 (PActivity es)), s))"

section \<open>Probes\<close>

definition Health :: "time \<Rightarrow> (payload, 's) handler" where
  "Health now r s = (Some (JSON now 200 (PHealth ''healthy'' ''payment-orchestrator'')), s)"

text \<open>A dependency is absent, or present and its ping succeeds or not.\<close>

fun check_of :: "bool option \<Rightarrow> string" where
  "check_of None = ''not_configured''"
| "check_of (Some True) = ''up''"
| "check_of (Some False) = ''down''"

definition Ready :: "bool option \<Rightarrow> bool option \<Rightarrow> time \<Rightarrow> (payload, 's) handler" where
  "Ready db_ping redis_ping now r s =
     (let allHealthy = (db_ping = Some True \<and> redis_ping \<noteq> Some False) in
      (Some (JSON now (if allHealthy then 200 else 503)
         (PReady (if allHealthy then ''ready'' else ''not_ready'')
            [(''database'', check_of db_ping), (''redis'', check_of redis_ping)])), s))"

end
