(* ===== verification/Handler_Props.thy ===== *)
theory Handler_Props
  imports Handlers
begin

text \<open>
  What the payment handlers add to the payment service: isolation of merchants, the checks before a
  payment is created, and the bound on amounts that keeps the aggregates of the dashboard in range.
\<close>

section \<open>Isolation of merchants\<close>

definition no_data :: "reply \<Rightarrow> bool" where
  "no_data resp =
     (case hr_Body resp of NoBody \<Rightarrow> True | Raw t \<Rightarrow> True | Envelope a \<Rightarrow> ar_Data a = None)"

lemma no_data_HttpError [simp]: "no_data (HttpError now status code msg)"
  by (simp add: no_data_def HttpError_def)

lemma no_data_missing_id [simp]: "no_data (missing_id now)"
  by (simp add: missing_id_def)

definition foreign :: "http_request \<Rightarrow> db \<Rightarrow> bool" where
  "foreign r d \<longleftrightarrow>
     \<not> IsAdmin r
   \<and> (case payment_by_id d (URLParam r ''id'') of
        None \<Rightarrow> False
      | Some row \<Rightarrow> pay_merchant_id row \<noteq> MerchantIDFromContext r)"

lemma GetPayment_owner:
  assumes "GetPayment look k pid d = Inr res" and "payment_by_id d pid = Some row"
  shows "MerchantID (pr_Payment res) = pay_merchant_id row"
  using assms by (auto simp: GetPayment_def Let_def at_site_def select_payment_def payment_of_row_def result_iffs
      split: option.splits)

lemma fetch_owned_foreign:
  assumes "foreign r d"
  shows "\<exists>resp. fetch_owned look now failed r (URLParam r ''id'') d = Inl resp \<and> no_data resp
    \<and> (resp = HttpError now 404 ''NOT_FOUND'' ''payment not found'' \<or> resp = HttpError now 500 ''INTERNAL_ERROR'' failed)"
proof (cases "GetPayment look 0 (URLParam r ''id'') d")
  case (Inr res)
  with assms GetPayment_owner [OF Inr] show ?thesis
    by (auto simp: fetch_owned_def foreign_def split: option.splits)
qed (simp add: fetch_owned_def)

text \<open>
  Merchants are isolated: a request that is not an admin's, for a payment of another merchant,
  changes nothing at all and gets no payment data, whichever of the four operations it asks for and
  whatever fails on the way.
\<close>

theorem merchants_are_isolated:
  assumes "foreign r (sdb s)"
  shows "(\<exists>resp. GetPaymentHandler look now r s = (Some resp, s) \<and> no_data resp)
    \<and> (\<exists>resp. CapturePaymentHandler look env now r s = (Some resp, s) \<and> no_data resp)
    \<and> (\<exists>resp. RefundPaymentHandler rl look env now r s = (Some resp, s) \<and> no_data resp)
    \<and> (\<exists>resp. CancelPaymentHandler look env now r s = (Some resp, s) \<and> no_data resp)"
proof -
  obtain a b c e where
    a: "fetch_owned look now ''failed to fetch payment'' r (URLParam r ''id'') (sdb s) = Inl a" "no_data a" and
    b: "fetch_owned look now ''failed to capture payment'' r (URLParam r ''id'') (sdb s) = Inl b" "no_data b" and
    c: "fetch_owned look now ''failed to refund payment'' r (URLParam r ''id'') (sdb s) = Inl c" "no_data c" and
    e: "fetch_owned look now ''failed to cancel payment'' r (URLParam r ''id'') (sdb s) = Inl e" "no_data e"
    using fetch_owned_foreign [OF assms] by metis
  have refund: "\<exists>resp. RefundPaymentHandler rl look env now r s = (Some resp, s) \<and> no_data resp"
    using c by (auto simp: RefundPaymentHandler_def Let_def split: option.split)
  from a b e refund show ?thesis
    by (auto simp: GetPaymentHandler_def CapturePaymentHandler_def CancelPaymentHandler_def Let_def)
qed

text \<open>
  A payment of another merchant cannot be told from one that does not exist: when the lookup
  goes through and the provider has given the payment an identifier, every operation answers exactly
  as it does in a state without that payment.
\<close>

definition readable_row :: "env \<Rightarrow> db \<Rightarrow> string \<Rightarrow> bool" where
  "readable_row look d pid \<longleftrightarrow>
     e_fault look 0 SelectPayment = None \<and> e_fault look 0 SelectTransitions = None
   \<and> e_fault look 0 ScanTransitions = None
   \<and> (case payment_by_id d pid of None \<Rightarrow> True | Some row \<Rightarrow> pay_psp_payment_id row \<noteq> None)"

lemma GetPayment_readable:
  assumes "readable_row look d pid"
  shows "payment_by_id d pid = None \<Longrightarrow> GetPayment look 0 pid d = Inl ErrPaymentNotFound"
    and "payment_by_id d pid = Some row \<Longrightarrow> \<exists>res. GetPayment look 0 pid d = Inr res"
  using assms
  by (auto simp: readable_row_def GetPayment_def Let_def at_site_def select_payment_def scan_string_def
      split: option.splits)

lemma fetch_owned_missing:
  assumes "readable_row look d (URLParam r ''id'')" and "foreign r d \<or> payment_by_id d (URLParam r ''id'') = None"
  shows "fetch_owned look now failed r (URLParam r ''id'') d = Inl (HttpError now 404 ''NOT_FOUND'' ''payment not found'')"
proof (cases "payment_by_id d (URLParam r ''id'')")
  case None
  with GetPayment_readable(1) [OF assms(1)] show ?thesis by (simp add: fetch_owned_def)
next
  case (Some row)
  with GetPayment_readable(2) [OF assms(1) Some] obtain res where "GetPayment look 0 (URLParam r ''id'') d = Inr res" by blast
  with GetPayment_owner [OF this Some] Some assms(2) show ?thesis by (simp add: fetch_owned_def foreign_def)
qed

theorem foreign_payments_look_missing:
  assumes "foreign r (sdb s)" and "readable_row look (sdb s) (URLParam r ''id'')"
    and "payment_by_id (sdb s') (URLParam r ''id'') = None"
  shows "fst (GetPaymentHandler look now r s) = fst (GetPaymentHandler look now r s')
    \<and> fst (CapturePaymentHandler look env now r s) = fst (CapturePaymentHandler look env now r s')
    \<and> fst (RefundPaymentHandler rl look env now r s) = fst (RefundPaymentHandler rl look env now r s')
    \<and> fst (CancelPaymentHandler look env now r s) = fst (CancelPaymentHandler look env now r s')"
proof -
  from assms(2,3) have "readable_row look (sdb s') (URLParam r ''id'')" by (simp add: readable_row_def)
  note there = fetch_owned_missing [OF assms(2) disjI1 [OF assms(1)]]
    and absent = fetch_owned_missing [OF this disjI2 [OF assms(3)]]
  show ?thesis
    by (simp add: GetPaymentHandler_def CapturePaymentHandler_def RefundPaymentHandler_def CancelPaymentHandler_def
        Let_def there absent split: option.split)
qed

section \<open>What is checked before a payment is created\<close>

definition acceptable :: "http_request \<Rightarrow> create_payment_request \<Rightarrow> bool" where
  "acceptable r req \<longleftrightarrow>
     0 < sint (rq_Amount req) \<and> sint (rq_Amount req) \<le> 999999999999
   \<and> rq_Currency req \<in> set supportedCurrencies \<and> rq_OrderID req \<noteq> [] \<and> rq_MerchantID req \<noteq> []
   \<and> (IsAdmin r \<or> rq_MerchantID req = MerchantIDFromContext r)"

lemma create_check_None: "create_check now r req = None \<longleftrightarrow> acceptable r req"
  by (auto simp: create_check_def acceptable_def int64_order maxAmount_def isValidCurrency_def supportedCurrencies_def)

text \<open>
  The service is only asked to create what the handler has checked: unless the request has an
  idempotency key and decodes to a positive amount of at most 999999999999 in a supported currency,
  with an order and for the caller's own merchant (any, for an admin), nothing changes and the answer
  is an error.
\<close>

theorem create_handler_checks:
  "(\<exists>resp. CreatePaymentHandler rl env now r s = (Some resp, s) \<and> no_data resp)
   \<or> Header r ''Idempotency-Key'' \<noteq> []
     \<and> (\<exists>req. rl_create rl (readable r) = Some req \<and> acceptable r req
          \<and> snd (CreatePaymentHandler rl env now r s) = snd (CreatePayment env req s))"
proof (cases "Header r ''Idempotency-Key'' \<noteq> [] \<and> (\<exists>req. rl_create rl (readable r) = Some req \<and> acceptable r req)")
  case True
  then obtain req where req: "rl_create rl (readable r) = Some req" "create_check now r req = None" "acceptable r req"
    using create_check_None by blast
  with True have "CreatePaymentHandler rl env now r s = payment_reply now 201 ''failed to create payment'' (CreatePayment env req s)"
    by (simp add: CreatePaymentHandler_def)
  then have "snd (CreatePaymentHandler rl env now r s) = snd (CreatePayment env req s)"
    by (simp add: payment_reply_def split: prod.split sum.split)
  with True req show ?thesis by blast
next
  case False
  have "create_check now r req = Some resp \<Longrightarrow> no_data resp" for req resp
    by (auto simp: create_check_def split: if_splits)
  with False show ?thesis
    by (auto simp: CreatePaymentHandler_def create_check_None split: option.split)
qed

section \<open>Amounts stay in range\<close>

text \<open>A request to one of the payment routes, with the environments of its two service calls.\<close>

datatype payment_route = RouteCreate | RouteGet | RouteCapture | RouteRefund | RouteCancel

record payment_hit =
  hit_route :: payment_route
  hit_lookup :: env
  hit_env :: env
  hit_now :: time
  hit_request :: http_request

definition payment_handler :: "request_lib \<Rightarrow> payment_hit \<Rightarrow> (payload, 'w sys) handler" where
  "payment_handler rl h =
     (case hit_route h of
        RouteCreate \<Rightarrow> CreatePaymentHandler rl (hit_env h) (hit_now h)
      | RouteGet \<Rightarrow> GetPaymentHandler (hit_lookup h) (hit_now h)
      | RouteCapture \<Rightarrow> CapturePaymentHandler (hit_lookup h) (hit_env h) (hit_now h)
      | RouteRefund \<Rightarrow> RefundPaymentHandler rl (hit_lookup h) (hit_env h) (hit_now h)
      | RouteCancel \<Rightarrow> CancelPaymentHandler (hit_lookup h) (hit_env h) (hit_now h))"

definition payment_hit_step :: "request_lib \<Rightarrow> 'w sys \<Rightarrow> payment_hit \<Rightarrow> 'w sys" where
  "payment_hit_step rl s h = snd (payment_handler rl h (hit_request h) s)"

definition amounts_in_range :: "db \<Rightarrow> bool" where
  "amounts_in_range d \<longleftrightarrow>
     (\<forall>row \<in> set (payments d). 0 < sint (pay_amount row) \<and> sint (pay_amount row) \<le> 999999999999)"

lemma amounts_in_range_map: "amounts_in_range d \<longleftrightarrow>
    (\<forall>a \<in> set (map pay_amount (payments d)). 0 < sint a \<and> sint a \<le> 999999999999)"
  by (simp add: amounts_in_range_def)

lemma change_status_amounts:
  assumes "change_status flt c1 c2 pid f t d = Inr (u, d')" and "\<And>x. pay_amount (f x) = pay_amount x"
  shows "map pay_amount (payments d') = map pay_amount (payments d)"
  using change_status_Inr [OF assms(1)] assms(2) by (simp add: map_update_where_same)

lemma CapturePayment_amounts:
  "map pay_amount (payments (sdb (snd (CapturePayment env pid s)))) = map pay_amount (payments (sdb s))"
proof -
  have "map pay_amount (payments d') = map pay_amount (payments d)" if "capture_writes env pid d = Inr (u, d')" for d u d'
    using that by (auto simp: capture_writes_def result_simps intro: change_status_amounts)
  then show ?thesis
    by (auto simp: CapturePayment_def dest: lock_tx_Inr split: sum.split prod.split)
qed

lemma RefundPayment_amounts:
  "map pay_amount (payments (sdb (snd (RefundPayment env pid amount s)))) = map pay_amount (payments (sdb s))"
proof -
  have "map pay_amount (payments d') = map pay_amount (payments d)" if "refund_writes env p amount d = Inr (u, d')" for p d u d'
    using that by (auto simp: refund_writes_def Let_def result_simps intro: change_status_amounts)
  then show ?thesis
    by (auto simp: RefundPayment_def Let_def dest: lock_tx_Inr split: sum.split prod.split)
qed

lemma status_update_amounts:
  assumes "status_update_tx env k pid from to pspID reason trigger d = Inr (u, d')"
  shows "map pay_amount (payments d') = map pay_amount (payments d)"
  using assms
  by (auto simp: status_update_tx_def Let_def result_simps tx_defs with_status_def map_update_where_same split: if_splits)

lemma updatePaymentState_amounts:
  "map pay_amount (payments (sdb (snd (updatePaymentState env k pid from to pspID reason trigger s))))
    = map pay_amount (payments (sdb s))"
  using updatePaymentState_cases [of env k pid "from" to pspID reason trigger s]
  by (auto dest: status_update_amounts)

lemma CancelPayment_amounts:
  "map pay_amount (payments (sdb (snd (CancelPayment env pid s)))) = map pay_amount (payments (sdb s))"
proof -
  have "map pay_amount (payments (sdb s2)) = map pay_amount (payments (sdb s))"
    if "updatePaymentState env 1 pid st PaymentStatusCancelled pspID why ''api'' (s\<lparr>world := w\<rparr>) = (u, s2)"
    for st pspID why w u s2
    using updatePaymentState_amounts [of env 1 pid st PaymentStatusCancelled pspID why "''api''" "s\<lparr>world := w\<rparr>"] that by simp
  then show ?thesis
    by (auto simp: CancelPayment_def Let_def split: sum.split prod.split option.split)
qed

lemma create_tx_amounts:
  assumes "create_tx env req psp d = Inr (u, d')"
  shows "map pay_amount (payments d') = map pay_amount (payments d) @ [rq_Amount req]"
  using assms by (auto simp: create_tx_def Let_def result_simps tx_defs initial_row_def split: if_splits)

lemma CreatePayment_amounts:
  "map pay_amount (payments (sdb (snd (CreatePayment env req s)))) = map pay_amount (payments (sdb s))
   \<or> map pay_amount (payments (sdb (snd (CreatePayment env req s)))) = map pay_amount (payments (sdb s)) @ [rq_Amount req]"
  using CreatePayment_outcome [of env req s]
proof (elim disjE exE conjE)
  fix dec adp rt d1 res w u s2
  assume tx: "create_tx env req (rd_SelectedPSP dec) (sdb s) = Inr ((), d1)"
    and fin: "final_update env res (s\<lparr>sdb := d1, world := w,
          srouter := record_outcome env (rd_SelectedPSP dec) res rt\<rparr>) = (u, s2)"
    and res: "CreatePayment env req s =
          (case u of
             Inl e \<Rightarrow> (Inl (Wrapped ''updating final state'' e), s2)
           | Inr _ \<Rightarrow> (case res of
               Inl e \<Rightarrow> (Inl (Wrapped ''psp failed'' e), s2)
             | Inr _ \<Rightarrow> (GetPayment env 2 (e_uuid env 0) (sdb s2), s2)))"
  have upd: "map pay_amount (payments (sdb s2)) = map pay_amount (payments d1)"
    if "updatePaymentState env k pid from to pspID reason trigger
          (s\<lparr>sdb := d1, world := w, srouter := rt'\<rparr>) = (u', s2)" for k pid "from" to pspID reason trigger rt' u'
    using updatePaymentState_amounts [of env k pid "from" to pspID reason trigger
        "s\<lparr>sdb := d1, world := w, srouter := rt'\<rparr>"] that by simp
  from fin have "map pay_amount (payments (sdb s2)) = map pay_amount (payments d1)"
    by (cases res) (auto simp: final_update_def dest: upd)
  moreover have "snd (CreatePayment env req s) = s2" using res by (cases u; cases res) simp_all
  ultimately show ?thesis using create_tx_amounts [OF tx] by simp
qed auto

lemma CreatePayment_length: "length (payments (sdb (snd (CreatePayment env req s)))) \<le> Suc (length (payments (sdb s)))"
  using CreatePayment_amounts [of env req s]
  by (elim disjE) (drule arg_cong [where f = length], simp)+

lemma amounts_in_range_cong:
  "map pay_amount (payments d') = map pay_amount (payments d) \<Longrightarrow> amounts_in_range d' = amounts_in_range d"
  by (simp only: amounts_in_range_map)

lemma payment_reply_snd [simp]: "snd (payment_reply now st failed out) = snd out"
  by (simp add: payment_reply_def split: prod.split sum.split)

lemma handlers_keep_amounts:
  "map pay_amount (payments (sdb (snd (GetPaymentHandler look now r s)))) = map pay_amount (payments (sdb s))"
  "map pay_amount (payments (sdb (snd (CapturePaymentHandler look env now r s)))) = map pay_amount (payments (sdb s))"
  "map pay_amount (payments (sdb (snd (RefundPaymentHandler rl look env now r s)))) = map pay_amount (payments (sdb s))"
  "map pay_amount (payments (sdb (snd (CancelPaymentHandler look env now r s)))) = map pay_amount (payments (sdb s))"
proof -
  show "map pay_amount (payments (sdb (snd (GetPaymentHandler look now r s)))) = map pay_amount (payments (sdb s))"
    by (simp add: GetPaymentHandler_def Let_def split: sum.split)
  show "map pay_amount (payments (sdb (snd (CapturePaymentHandler look env now r s)))) = map pay_amount (payments (sdb s))"
    by (simp add: CapturePaymentHandler_def Let_def CapturePayment_amounts split: sum.split)
  show "map pay_amount (payments (sdb (snd (RefundPaymentHandler rl look env now r s)))) = map pay_amount (payments (sdb s))"
    by (simp add: RefundPaymentHandler_def Let_def RefundPayment_amounts split: sum.split option.split)
  show "map pay_amount (payments (sdb (snd (CancelPaymentHandler look env now r s)))) = map pay_amount (payments (sdb s))"
    by (simp add: CancelPaymentHandler_def Let_def CancelPayment_amounts split: sum.split)
qed

lemmas handlers_keep_range = handlers_keep_amounts [THEN amounts_in_range_cong]

lemma create_handler_snd:
  "snd (CreatePaymentHandler rl env now r s) = s
   \<or> (\<exists>req. acceptable r req \<and> snd (CreatePaymentHandler rl env now r s) = snd (CreatePayment env req s))"
  by (auto simp: CreatePaymentHandler_def create_check_None [of now, symmetric] split: option.split)

lemma create_handler_amounts:
  assumes "amounts_in_range (sdb s)"
  shows "amounts_in_range (sdb (snd (CreatePaymentHandler rl env now r s)))"
proof -
  consider "snd (CreatePaymentHandler rl env now r s) = s"
    | req where "acceptable r req" "snd (CreatePaymentHandler rl env now r s) = snd (CreatePayment env req s)"
    using create_handler_snd by blast
  then show ?thesis
  proof cases
    case (2 req)
    with CreatePayment_amounts [of env req s] assms show ?thesis
      by (auto simp: amounts_in_range_map acceptable_def simp del: set_map)
  qed (simp add: assms)
qed

lemma payment_hit_amounts:
  assumes "amounts_in_range (sdb s)"
  shows "amounts_in_range (sdb (payment_hit_step rl s h))"
  using assms
  by (cases "hit_route h")
    (simp_all add: payment_hit_step_def payment_handler_def handlers_keep_range create_handler_amounts)

interpretation amounts_machine: machine "payment_hit_step rl" "\<lambda>s. amounts_in_range (sdb s)" for rl
  by unfold_locales (rule payment_hit_amounts)

lemma amounts_bound: "(\<forall>r \<in> set rs. 0 < sint (pay_amount r) \<and> sint (pay_amount r) \<le> 999999999999) \<Longrightarrow>
    0 \<le> amounts rs \<and> amounts rs \<le> 999999999999 * int (length rs)"
  by (induction rs) (auto simp: amounts_def)

text \<open>A selection of at most 9223372 payments has a sum that fits.\<close>

lemma scan_amounts:
  assumes "amounts_in_range d" and "length (payments d) \<le> 9223372" and "set rs \<subseteq> set (payments d)"
    and "length rs \<le> length (payments d)"
  shows "\<exists>w. scan_int64 (amounts rs) = Inr w"
proof -
  have "0 \<le> amounts rs \<and> amounts rs \<le> 999999999999 * int (length rs)"
    using assms(1,3) by (intro amounts_bound) (auto simp: amounts_in_range_def)
  with assms(2,4) show ?thesis by (auto simp: scan_int64_def)
qed

lemma in_period_part: "set (in_period from to d) \<subseteq> set (payments d)" "length (in_period from to d) \<le> length (payments d)"
  by (auto simp: in_period_def)

lemma scan_all_members: "(\<And>r. r \<in> set rs \<Longrightarrow> \<exists>x. f r = Inr x) \<Longrightarrow> \<exists>xs. scan_all f rs = Inr xs"
  by (induction rs) (auto simp: result_iffs)

lemma scan_group_amounts:
  assumes "amounts_in_range d" and "length (payments d) \<le> 9223372" and "g \<in> set (group_rows key (in_period from to d))"
  shows "\<exists>w. scan_int64 (amounts (snd g)) = Inr w"
proof (rule scan_amounts [OF assms(1,2)])
  from assms(3) obtain k where g: "snd g = filter (\<lambda>r. key r = k) (in_period from to d)" by (auto simp: group_rows_def)
  show "set (snd g) \<subseteq> set (payments d)" using in_period_part(1) [of "from" to d] by (auto simp: g)
  show "length (snd g) \<le> length (payments d)"
    unfolding g by (rule order_trans [OF length_filter_le in_period_part(2)])
qed

text \<open>
  C31: the bound on amounts does what it is for: after any sequence of requests to the payment routes
  on a fresh database, with whatever provider answers and failures, and as long as there are at most
  9223372 payments, no aggregate of the dashboard overflows: its statistics and its daily volume are
  produced for every period.
\<close>

theorem aggregates_do_not_overflow:
  assumes "quiet env" and "d = sdb (foldl (payment_hit_step rl) (s\<lparr>sdb := migrated_db\<rparr>) hits)"
    and "length (payments d) \<le> 9223372"
  shows "(\<exists>st. GetStats env from to d = Inr st) \<and> (\<exists>vs. GetDailyVolume env from to d = Inr vs)"
proof -
  have "amounts_in_range d"
    unfolding assms(2) by (rule amounts_machine.run_keeps_inv) (simp add: amounts_in_range_def migrated_db_def)
  note scan = scan_amounts [OF this assms(3) in_period_part] and groups = scan_group_amounts [OF this assms(3)]
  have ok: "e_fault env k x = None" for k x using assms(1) by (simp add: quiet_def)
  have t: "\<exists>x. totals (in_period a b d) = Inr x" "\<exists>x. today_totals (in_period a b d) = Inr x" for a b
    using scan [of a b] by (auto simp: totals_def today_totals_def)
  have c: "\<exists>xs. scan_all count_row (group_rows key rs) = Inr xs" for key :: "payment_row \<Rightarrow> string" and rs
    by (rule scan_all_total) (simp add: count_row_def)
  have r: "\<exists>xs. scan_all revenue_row (group_rows key (in_period from to d)) = Inr xs" for key :: "payment_row \<Rightarrow> string"
    by (rule scan_all_members) (use groups in \<open>fastforce simp: revenue_row_def\<close>)
  have v: "\<exists>xs. scan_all volume_row (days_of (in_period from to d)) = Inr xs"
    by (rule scan_all_members) (use groups in \<open>fastforce simp: volume_row_def days_of_def\<close>)
  have stats: "\<exists>st. GetStats env from to d = Inr st"
    using t [of "from" to] t(2) [of "start_of_day (e_now env 0)" "start_of_day (e_now env 0) + day"] r [of pay_currency]
      c [of "\<lambda>r. status_string (pay_status r)" "in_period from to d"] c [of pay_psp "in_period from to d"]
    by (auto simp: GetStats_def Let_def result_iffs result_simps query_one_def query_many_def ok)
  from v have "\<exists>vs. GetDailyVolume env from to d = Inr vs" by (auto simp: GetDailyVolume_def query_many_Inr ok)
  with stats show ?thesis by blast
qed

section \<open>Witnesses\<close>

definition foreign_request :: http_request where
  "foreign_request =
     (request_from ''203.0.113.9:1'' [])\<lparr>hq_Params := [(''id'', ''p1'')], hq_Merchant := Some ''n''\<rparr>"

abbreviation stocked_sys :: "mock_world sys" where
  "stocked_sys \<equiv> demo_sys\<lparr>sdb := authorized_db\<rparr>"

lemma demo_p1: "payment_by_id authorized_db ''p1'' = Some (demo_row PaymentStatusAuthorized)"
  by (simp add: payment_by_id_def demo_db_def demo_row_def)

lemma foreign_request_foreign: "foreign foreign_request authorized_db"
  by (simp add: foreign_def foreign_request_def URLParam_def value_of_def IsAdmin_def MerchantIDFromContext_def demo_p1)
    (simp add: demo_row_def)

lemma foreign_request_id: "URLParam foreign_request ''id'' = ''p1''"
  by (simp add: foreign_request_def URLParam_def value_of_def)

lemma merchants_are_isolated_witness:
  "\<exists>resp. CapturePaymentHandler quiet_env quiet_env 0 foreign_request stocked_sys = (Some resp, stocked_sys) \<and> no_data resp"
  using merchants_are_isolated [of foreign_request stocked_sys quiet_env 0 quiet_env] foreign_request_foreign by simp

lemma foreign_payments_look_missing_witness:
  "fst (CapturePaymentHandler quiet_env quiet_env 0 foreign_request stocked_sys)
    = fst (CapturePaymentHandler quiet_env quiet_env 0 foreign_request demo_sys)"
proof -
  have "readable_row quiet_env (sdb stocked_sys) (URLParam foreign_request ''id'')"
    by (simp add: readable_row_def quiet_env_def foreign_request_id demo_p1) (simp add: demo_row_def)
  moreover have "payment_by_id (sdb demo_sys) (URLParam foreign_request ''id'') = None"
    by (simp add: demo_sys_def migrated_db_def payment_by_id_def)
  ultimately show ?thesis
    using foreign_payments_look_missing [of foreign_request stocked_sys quiet_env demo_sys 0 quiet_env] foreign_request_foreign
    by simp
qed

definition demo_lib_requests :: request_lib where
  "demo_lib_requests =
     \<lparr>rl_create = (\<lambda>_. Some (demo_request\<lparr>rq_Amount := 10\<rparr>)), rl_refund = (\<lambda>_. None), rl_index = (\<lambda>_. None)\<rparr>"

definition demo_hit :: payment_hit where
  "demo_hit =
     \<lparr>hit_route = RouteCreate, hit_lookup = quiet_env, hit_env = quiet_env, hit_now = 0,
      hit_request = request_from ''203.0.113.9:1'' [(''Idempotency-Key'', ''k'')]\<rparr>"

lemma aggregates_do_not_overflow_witness:
  "\<exists>st. GetStats quiet_env 0 day (sdb (foldl (payment_hit_step demo_lib_requests) (demo_sys\<lparr>sdb := migrated_db\<rparr>) [demo_hit])) = Inr st"
proof -
  let ?s = "demo_sys\<lparr>sdb := migrated_db\<rparr>"
  let ?d = "sdb (foldl (payment_hit_step demo_lib_requests) ?s [demo_hit])"
  have "length (payments (sdb (snd (CreatePayment env req ?s)))) \<le> 1" for env req
    using CreatePayment_length [of env req ?s] by (simp add: migrated_db_def)
  then have "length (payments ?d) \<le> 1"
    using create_handler_snd [of demo_lib_requests quiet_env 0 "hit_request demo_hit" ?s]
    by (auto simp: payment_hit_step_def payment_handler_def demo_hit_def migrated_db_def)
  then have "length (payments ?d) \<le> 9223372" by linarith
  from aggregates_do_not_overflow [OF quiet_quiet_env refl this] show ?thesis by blast
qed

end
