(* ===== verification/Config.thy ===== *)
theory Config
  imports Text Errors
begin

text \<open>
  Configuration from environment variables, \<^verbatim>\<open>internal/config/config.go\<close>, and the connections it
  opens, \<^verbatim>\<open>internal/database\<close> and \<^verbatim>\<open>internal/pkg/tracing\<close>. The environment is a partial function;
  \<^verbatim>\<open>strconv.ParseFloat\<close> is represented by a function that reads the finite values. The drivers are parameters: only the
  outcome of each of their calls matters.
\<close>

section \<open>The structure\<close>

record server_config =
  sc_Port :: int
  sc_Env :: string

record database_config =
  dc_Host :: string
  dc_Port :: int
  dc_User :: string
  dc_Password :: string
  dc_DBName :: string
  dc_SSLMode :: string
  dc_MaxConns :: int
  dc_MinConns :: int

record redis_config =
  rc_Host :: string
  rc_Port :: int
  rc_Password :: string
  rc_DB :: int

record pubsub_settings =
  px_ProjectID :: string
  px_WebhookTopicID :: string
  px_EventTopicID :: string
  px_SubscriptionID :: string
  px_DLQTopicID :: string
  px_DLQSubID :: string
  px_MaxRetries :: int
  px_Enabled :: bool

record tracing_config =
  tc_Enabled :: bool
  tc_Endpoint :: string
  tc_SampleRate :: rat

record log_config =
  lc_Level :: string
  lc_Format :: string

record config =
  cf_Server :: server_config
  cf_Database :: database_config
  cf_Redis :: redis_config
  cf_PubSub :: pubsub_settings
  cf_Tracing :: tracing_config
  cf_Log :: log_config
  cf_APIKeys :: "string list"

section \<open>Reading variables\<close>

type_synonym variables = "string \<rightharpoonup> string"

text \<open>A variable that is set to the empty string is set.\<close>

definition getEnv :: "variables \<Rightarrow> string \<Rightarrow> string \<Rightarrow> string" where
  "getEnv vars key fallback = (case vars key of Some v \<Rightarrow> v | None \<Rightarrow> fallback)"

definition getEnvInt :: "variables \<Rightarrow> string \<Rightarrow> int \<Rightarrow> int" where
  "getEnvInt vars key fallback =
     (case vars key of
        Some v \<Rightarrow> (case Atoi v of (n, ok) \<Rightarrow> if ok then n else fallback)
      | None \<Rightarrow> fallback)"

definition getEnvFloat :: "(string \<Rightarrow> rat option) \<Rightarrow> variables \<Rightarrow> string \<Rightarrow> rat \<Rightarrow> rat" where
  "getEnvFloat parseFloat vars key fallback =
     (case vars key of
        Some v \<Rightarrow> (case parseFloat v of Some f \<Rightarrow> f | None \<Rightarrow> fallback)
      | None \<Rightarrow> fallback)"

definition getEnvSlice :: "variables \<Rightarrow> string \<Rightarrow> string list" where
  "getEnvSlice vars key =
     (case vars key of
        None \<Rightarrow> []
      | Some v \<Rightarrow> if v = [] then [] else filter (\<lambda>k. k \<noteq> []) (map TrimSpace (split_all (CHR '','') v)))"

definition load_config :: "(string \<Rightarrow> rat option) \<Rightarrow> variables \<Rightarrow> config" where
  "load_config parseFloat vars =
     \<lparr>cf_Server = \<lparr>sc_Port = getEnvInt vars ''SERVER_PORT'' 8080, sc_Env = getEnv vars ''SERVER_ENV'' ''development''\<rparr>,
      cf_Database =
        \<lparr>dc_Host = getEnv vars ''DB_HOST'' ''localhost'', dc_Port = getEnvInt vars ''DB_PORT'' 5432,
         dc_User = getEnv vars ''DB_USER'' ''payment_user'', dc_Password = getEnv vars ''DB_PASSWORD'' [],
         dc_DBName = getEnv vars ''DB_NAME'' ''payment_orchestrator'', dc_SSLMode = getEnv vars ''DB_SSL_MODE'' ''disable'',
         dc_MaxConns = getEnvInt vars ''DB_MAX_CONNS'' 25, dc_MinConns = getEnvInt vars ''DB_MIN_CONNS'' 5\<rparr>,
      cf_Redis =
        \<lparr>rc_Host = getEnv vars ''REDIS_HOST'' ''localhost'', rc_Port = getEnvInt vars ''REDIS_PORT'' 6379,
         rc_Password = getEnv vars ''REDIS_PASSWORD'' [], rc_DB = getEnvInt vars ''REDIS_DB'' 0\<rparr>,
      cf_PubSub =
        \<lparr>px_ProjectID = getEnv vars ''PUBSUB_PROJECT_ID'' ''local-dev'',
         px_WebhookTopicID = getEnv vars ''PUBSUB_WEBHOOK_TOPIC'' ''webhook-events'',
         px_EventTopicID = getEnv vars ''PUBSUB_EVENT_TOPIC'' ''payment-state-changes'',
         px_SubscriptionID = getEnv vars ''PUBSUB_SUBSCRIPTION'' ''webhook-processor'',
         px_DLQTopicID = getEnv vars ''PUBSUB_DLQ_TOPIC'' ''webhook-events-dlq'',
         px_DLQSubID = getEnv vars ''PUBSUB_DLQ_SUBSCRIPTION'' ''webhook-dlq-reader'',
         px_MaxRetries = getEnvInt vars ''PUBSUB_MAX_RETRIES'' 5,
         px_Enabled = (getEnv vars ''PUBSUB_ENABLED'' ''false'' = ''true'')\<rparr>,
      cf_Tracing =
        \<lparr>tc_Enabled = (getEnv vars ''TRACING_ENABLED'' ''false'' = ''true''),
         tc_Endpoint = getEnv vars ''TRACING_ENDPOINT'' ''http://localhost:4318'',
         tc_SampleRate = getEnvFloat parseFloat vars ''TRACING_SAMPLE_RATE'' 1\<rparr>,
      cf_Log = \<lparr>lc_Level = getEnv vars ''LOG_LEVEL'' ''debug'', lc_Format = getEnv vars ''LOG_FORMAT'' ''json''\<rparr>,
      cf_APIKeys = getEnvSlice vars ''API_KEYS''\<rparr>"

text \<open>In production, missing secrets stop the program; the panic message lists them.\<close>

definition missing_secrets :: "config \<Rightarrow> string list" where
  "missing_secrets cfg =
     (if sc_Env (cf_Server cfg) = ''production''
      then (if dc_Password (cf_Database cfg) = [] then [''DB_PASSWORD''] else [])
             @ (if cf_APIKeys cfg = [] then [''API_KEYS''] else [])
      else [])"

definition Load :: "(string \<Rightarrow> rat option) \<Rightarrow> variables \<Rightarrow> string + config" where
  "Load parseFloat vars =
     (let cfg = load_config parseFloat vars; missing = missing_secrets cfg in
      if missing \<noteq> []
      then Inl (''FATAL: required environment variables not set for production: ['' @ join '' '' missing @ '']'')
      else Inr cfg)"

section \<open>Connections\<close>

definition DSN :: "database_config \<Rightarrow> string" where
  "DSN d =
     ''postgres://'' @ dc_User d @ '':'' @ dc_Password d @ ''@'' @ dc_Host d @ '':'' @ show_int (dc_Port d) @ ''/''
       @ dc_DBName d @ ''?sslmode='' @ dc_SSLMode d"

text \<open>The outcomes of the driver's calls, in their order.\<close>

record pool_driver =
  pd_ParseConfig :: "string \<Rightarrow> err option"
  pd_New :: "int \<Rightarrow> int \<Rightarrow> err option"
  pd_Ping :: "err option"

definition NewPool :: "pool_driver \<Rightarrow> database_config \<Rightarrow> err + unit" where
  "NewPool drv cfg =
     andThen (mapErr (Wrapped ''parsing database config'') (guardE (pd_ParseConfig drv (DSN cfg)))) (\<lambda>_.
     andThen (mapErr (Wrapped ''creating connection pool'')
       (guardE (pd_New drv (sint (word_of_int (dc_MaxConns cfg) :: 32 word)) (sint (word_of_int (dc_MinConns cfg) :: 32 word))))) (\<lambda>_.
     mapErr (Wrapped ''pinging database'') (guardE (pd_Ping drv))))"

definition redis_addr :: "redis_config \<Rightarrow> string" where
  "redis_addr cfg = rc_Host cfg @ '':'' @ show_int (rc_Port cfg)"

definition NewRedisClient :: "(string \<Rightarrow> string \<Rightarrow> int \<Rightarrow> err option) \<Rightarrow> redis_config \<Rightarrow> err + unit" where
  "NewRedisClient ping cfg =
     mapErr (Wrapped ''pinging redis'') (guardE (ping (redis_addr cfg) (rc_Password cfg) (rc_DB cfg)))"

text \<open>\<^verbatim>\<open>Up\<close> reports that nothing was left to do as an error of its own.\<close>

datatype migrate_result = MigrateDone | MigrateNoChange | MigrateError err

definition RunMigrations :: "(string \<Rightarrow> string \<Rightarrow> err option) \<Rightarrow> migrate_result \<Rightarrow> database_config \<Rightarrow> string \<Rightarrow> err + unit" where
  "RunMigrations new up cfg migrationsPath =
     andThen (mapErr (Wrapped ''creating migrator'') (guardE (new (''file://'' @ migrationsPath) (DSN cfg)))) (\<lambda>_.
       case up of
         MigrateDone \<Rightarrow> Inr ()
       | MigrateNoChange \<Rightarrow> Inr ()
       | MigrateError e \<Rightarrow> Inl (Wrapped ''running migrations'' e))"

fun strip_prefix_of :: "string list \<Rightarrow> string \<Rightarrow> string" where
  "strip_prefix_of [] endpoint = endpoint"
| "strip_prefix_of (p # ps) endpoint =
     (if length endpoint > length p \<and> take (length p) endpoint = p then drop (length p) endpoint
      else strip_prefix_of ps endpoint)"

definition stripScheme :: "string \<Rightarrow> string" where
  "stripScheme = strip_prefix_of [''https://'', ''http://'']"

datatype sampler = AlwaysSample | NeverSample | TraceIDRatioBased rat

definition sampler_of :: "rat \<Rightarrow> sampler" where
  "sampler_of rate =
     (if rate \<ge> 1 then AlwaysSample else if rate \<le> 0 then NeverSample else TraceIDRatioBased rate)"

text \<open>\<^verbatim>\<open>tracing.Config\<close>, a tracer provider with its resource, and OpenTelemetry's global registration.\<close>

record trace_settings =
  ts_Enabled :: bool
  ts_Endpoint :: string
  ts_SampleRate :: rat
  ts_Env :: string

record tracer_provider =
  tp_Exporter :: string
  tp_ServiceName :: string
  tp_Environment :: string
  tp_Sampler :: sampler

record otel =
  ot_Provider :: "tracer_provider option"
  ot_Propagators :: "string list"

text \<open>
  Without an error, the \<^verbatim>\<open>Provider\<close> that is returned, whose \<^verbatim>\<open>tp\<close> is nil when tracing is disabled. Creating the
  exporter is a call of the library, which fails or not.
\<close>

definition InitTracer ::
  "(string \<Rightarrow> err option) \<Rightarrow> string \<Rightarrow> trace_settings \<Rightarrow> otel \<Rightarrow> (err + tracer_provider option) \<times> otel" where
  "InitTracer new_exporter serviceName cfg ot =
     (if \<not> ts_Enabled cfg then (Inr None, ot)
      else let endpoint = stripScheme (ts_Endpoint cfg) in
        case new_exporter endpoint of
          Some e \<Rightarrow> (Inl (Wrapped ''creating OTLP exporter'' e), ot)
        | None \<Rightarrow>
            let tp = \<lparr>tp_Exporter = endpoint, tp_ServiceName = serviceName, tp_Environment = ts_Env cfg,
                      tp_Sampler = sampler_of (ts_SampleRate cfg)\<rparr> in
            (Inr (Some tp), \<lparr>ot_Provider = Some tp, ot_Propagators = [''tracecontext'', ''baggage'']\<rparr>))"

text \<open>\<^verbatim>\<open>Provider.Shutdown\<close>: the providers it shuts down; an error of the library is only logged.\<close>

definition tracing_Shutdown :: "tracer_provider option \<Rightarrow> tracer_provider list" where
  "tracing_Shutdown p = (case p of None \<Rightarrow> [] | Some tp \<Rightarrow> [tp])"

section \<open>What a loaded configuration guarantees\<close>

lemma getEnvSlice_nonempty: "k \<in> set (getEnvSlice vars key) \<Longrightarrow> k \<noteq> []"
  by (auto simp: getEnvSlice_def split: option.splits if_splits)

text \<open>
  C40: a production server never starts without its secrets: when \<^verbatim>\<open>Load\<close> returns at all in production,
  the database password is not empty and there is at least one API key, none of them empty; anywhere
  else it always returns.
\<close>

theorem production_has_secrets:
  "(case Load parseFloat vars of
      Inl msg \<Rightarrow> vars ''SERVER_ENV'' = Some ''production''
        \<and> (getEnv vars ''DB_PASSWORD'' [] = [] \<or> getEnvSlice vars ''API_KEYS'' = [])
    | Inr cfg \<Rightarrow> cfg = load_config parseFloat vars
        \<and> (sc_Env (cf_Server cfg) = ''production'' \<longrightarrow>
             dc_Password (cf_Database cfg) \<noteq> [] \<and> cf_APIKeys cfg \<noteq> [] \<and> [] \<notin> set (cf_APIKeys cfg)))"
  using getEnvSlice_nonempty [of "[]" vars "''API_KEYS''"]
  by (auto simp: Load_def Let_def missing_secrets_def load_config_def getEnv_def split: option.splits if_splits)

text \<open>
  The list of API keys is read back as it was written: keys that are not empty, have no comma and
  no surrounding white space, joined by commas, come out as they are and in order.
\<close>

theorem api_keys_roundtrip:
  assumes "keys \<noteq> []" and "\<forall>k \<in> set keys. k \<noteq> [] \<and> CHR '','' \<notin> set k \<and> TrimSpace k = k"
  shows "getEnvSlice [''API_KEYS'' \<mapsto> join '','' keys] ''API_KEYS'' = keys"
proof -
  have split: "split_all (CHR '','') (join '','' keys) = keys"
    using assms by (intro split_join) auto
  have "map TrimSpace keys = keys" and "filter (\<lambda>k. k \<noteq> []) keys = keys"
    using assms(2) by (auto intro: map_idI)
  moreover have "join '','' keys \<noteq> []" using assms by (cases keys rule: remdups_adj.cases) auto
  ultimately show ?thesis by (simp add: getEnvSlice_def split)
qed

lemma production_has_secrets_witness:
  "\<exists>cfg. Load (\<lambda>_. None) [''SERVER_ENV'' \<mapsto> ''production'', ''DB_PASSWORD'' \<mapsto> ''pw'', ''API_KEYS'' \<mapsto> ''m:k''] = Inr cfg
     \<and> dc_Password (cf_Database cfg) \<noteq> [] \<and> cf_APIKeys cfg \<noteq> []"
proof -
  let ?vars = "[''SERVER_ENV'' \<mapsto> ''production'', ''DB_PASSWORD'' \<mapsto> ''pw'', ''API_KEYS'' \<mapsto> ''m:k'']"
  have keys: "getEnvSlice ?vars ''API_KEYS'' = [''m:k'']" by code_simp
  have pw: "getEnv ?vars ''DB_PASSWORD'' [] = ''pw''" by (simp add: getEnv_def)
  from production_has_secrets [where parseFloat = "\<lambda>_. None" and vars = ?vars] keys pw obtain cfg where
    "Load (\<lambda>_. None) ?vars = Inr cfg" "cfg = load_config (\<lambda>_. None) ?vars"
    "sc_Env (cf_Server cfg) = ''production'' \<longrightarrow> dc_Password (cf_Database cfg) \<noteq> [] \<and> cf_APIKeys cfg \<noteq> []"
    by (auto split: sum.splits)
  then show ?thesis by (simp add: load_config_def getEnv_def)
qed

lemma api_keys_roundtrip_witness:
  "getEnvSlice [''API_KEYS'' \<mapsto> ''m:a,n:b''] ''API_KEYS'' = [''m:a'', ''n:b'']"
proof -
  have "TrimSpace ''m:a'' = ''m:a''" "TrimSpace ''n:b'' = ''n:b''" by code_simp+
  with api_keys_roundtrip [of "[''m:a'', ''n:b'']"] show ?thesis by simp
qed

end
