(* ===== verification/Metrics.thy ===== *)
theory Metrics
  imports Http
begin

text \<open>
  Metrics, \<^verbatim>\<open>internal/pkg/metrics\<close>: counters, gauges and histograms in a registry, the export in
  Prometheus' text format, and the middleware that counts requests. Counts are 64-bit words. Observed
  values and bounds are rationals in place of \<^verbatim>\<open>float64\<close>; a bound is a decimal between 0.0001 and 1000000 with at most 17
  decimals, which is what \<^verbatim>\<open>%g\<close> prints in full. The registry is an association list, its order that
  of the iteration over Go's map.
\<close>

section \<open>Metrics\<close>

type_synonym labels = "(string \<times> string) list"

record counter =
  ct_name :: string
  ct_labels :: labels
  ct_value :: int64

record gauge =
  ga_name :: string
  ga_labels :: labels
  ga_value :: int64

record histogram =
  hg_name :: string
  hg_labels :: labels
  hg_buckets :: "rat list"
  hg_counts :: "int64 list"
  hg_sum :: rat
  hg_count :: int64

datatype metric = MCounter counter | MGauge gauge | MHistogram histogram

type_synonym registry = "(string \<times> metric) list"

fun metricKey_from :: "string \<Rightarrow> labels \<Rightarrow> string" where
  "metricKey_from key [] = key"
| "metricKey_from key ((k, v) # ls) = metricKey_from (key @ ''_'' @ k @ ''_'' @ v) ls"

definition metricKey :: "string \<Rightarrow> labels \<Rightarrow> string" where
  "metricKey name ls = metricKey_from name ls"

definition register :: "string \<Rightarrow> metric \<Rightarrow> registry \<Rightarrow> registry" where
  "register key m reg = filter (\<lambda>e. fst e \<noteq> key) reg @ [(key, m)]"

definition NewCounter :: "string \<Rightarrow> labels \<Rightarrow> registry \<Rightarrow> registry" where
  "NewCounter name ls = register (metricKey name ls) (MCounter \<lparr>ct_name = name, ct_labels = ls, ct_value = 0\<rparr>)"

definition counter_Add :: "int64 \<Rightarrow> counter \<Rightarrow> counter" where
  "counter_Add v c = c\<lparr>ct_value := ct_value c + v\<rparr>"

definition counter_Inc :: "counter \<Rightarrow> counter" where
  "counter_Inc c = counter_Add 1 c"

definition NewGauge :: "string \<Rightarrow> labels \<Rightarrow> registry \<Rightarrow> registry" where
  "NewGauge name ls = register (metricKey name ls) (MGauge \<lparr>ga_name = name, ga_labels = ls, ga_value = 0\<rparr>)"

definition gauge_Set :: "int64 \<Rightarrow> gauge \<Rightarrow> gauge" where
  "gauge_Set v g = g\<lparr>ga_value := v\<rparr>"

definition gauge_Inc :: "gauge \<Rightarrow> gauge" where
  "gauge_Inc g = g\<lparr>ga_value := ga_value g + 1\<rparr>"

definition gauge_Dec :: "gauge \<Rightarrow> gauge" where
  "gauge_Dec g = g\<lparr>ga_value := ga_value g - 1\<rparr>"

definition new_histogram :: "string \<Rightarrow> labels \<Rightarrow> rat list \<Rightarrow> histogram" where
  "new_histogram name ls buckets =
     \<lparr>hg_name = name, hg_labels = ls, hg_buckets = buckets, hg_counts = replicate (length buckets + 1) 0,
      hg_sum = 0, hg_count = 0\<rparr>"

definition NewHistogram :: "string \<Rightarrow> labels \<Rightarrow> rat list \<Rightarrow> registry \<Rightarrow> registry" where
  "NewHistogram name ls buckets = register (metricKey name ls) (MHistogram (new_histogram name ls buckets))"

text \<open>Every bucket whose bound the value does not exceed is incremented, and always the last one.\<close>

definition Observe :: "rat \<Rightarrow> histogram \<Rightarrow> histogram" where
  "Observe v h =
     h\<lparr>hg_sum := hg_sum h + v, hg_count := hg_count h + 1,
       hg_counts := map2 (\<lambda>hit c. if hit then c + 1 else c) (map (\<lambda>b. v \<le> b) (hg_buckets h) @ [True]) (hg_counts h)\<rparr>"

definition DefaultHTTPBuckets :: "rat list" where
  "DefaultHTTPBuckets = [5/1000, 1/100, 25/1000, 5/100, 1/10, 25/100, 5/10, 1, 25/10, 5, 10]"

definition well_known :: registry where
  "well_known =
     (NewGauge ''active_connections'' [] \<circ> NewCounter ''dlq_enqueued_total'' [] \<circ> NewCounter ''retry_attempts_total'' []
      \<circ> NewCounter ''circuit_breaker_trips_total'' [] \<circ> NewCounter ''webhooks_failed_total'' []
      \<circ> NewCounter ''webhooks_received_total'' [] \<circ> NewCounter ''payments_captured_total'' []
      \<circ> NewCounter ''payments_failed_total'' [] \<circ> NewCounter ''payments_created_total'' []
      \<circ> NewHistogram ''http_request_duration_seconds'' [] DefaultHTTPBuckets \<circ> NewCounter ''http_requests_total'' []) []"

section \<open>Export\<close>

text \<open>\<^verbatim>\<open>%f\<close>: six decimals, a tie to the even digit.\<close>

definition round_half_even :: "rat \<Rightarrow> int" where
  "round_half_even x =
     (let n = \<lfloor>x\<rfloor>; r = x - of_int n in
      if r < 1 / 2 \<or> (r = 1 / 2 \<and> even n) then n else n + 1)"

definition left_pad :: "nat \<Rightarrow> string \<Rightarrow> string" where
  "left_pad n s = replicate (n - length s) (CHR ''0'') @ s"

definition show_f :: "rat \<Rightarrow> string" where
  "show_f x =
     (let n = round_half_even (\<bar>x\<bar> * 1000000) in
      (if x < 0 then ''-'' else []) @ show_int (n div 1000000) @ ''.'' @ left_pad 6 (show_int (n mod 1000000)))"

text \<open>\<^verbatim>\<open>%g\<close> of a bound.\<close>

fun decimals :: "nat \<Rightarrow> rat \<Rightarrow> string" where
  "decimals 0 x = []"
| "decimals (Suc n) x =
     (if x = 0 then [] else show_int \<lfloor>10 * x\<rfloor> @ decimals n (10 * x - of_int \<lfloor>10 * x\<rfloor>))"

definition show_g :: "rat \<Rightarrow> string" where
  "show_g x =
     (let frac = x - of_int \<lfloor>x\<rfloor> in
      show_int \<lfloor>x\<rfloor> @ (if frac = 0 then [] else ''.'' @ decimals 17 frac))"

definition nl :: string where "nl = [CHR 0x0A]"

definition quoted :: "string \<Rightarrow> string" where "quoted s = [CHR 0x22] @ s @ [CHR 0x22]"

definition labelStr :: "labels \<Rightarrow> string" where
  "labelStr ls =
     (if ls = [] then [] else ''{'' @ join '','' (map (\<lambda>(k, v). k @ ''='' @ quoted v) ls) @ ''}'')"

definition sample_line :: "string \<Rightarrow> string \<Rightarrow> string" where
  "sample_line name_and_labels val = name_and_labels @ '' '' @ val @ nl"

definition type_line :: "string \<Rightarrow> string \<Rightarrow> string" where
  "type_line name kind = ''# TYPE '' @ name @ '' '' @ kind @ nl"

definition writeCounter :: "counter \<Rightarrow> string" where
  "writeCounter c =
     type_line (ct_name c) ''counter''
       @ sample_line (ct_name c @ labelStr (ct_labels c)) (show_int64 (ct_value c)) @ nl"

definition writeGauge :: "gauge \<Rightarrow> string" where
  "writeGauge g =
     type_line (ga_name g) ''gauge'' @ sample_line (ga_name g @ labelStr (ga_labels g)) (show_int64 (ga_value g)) @ nl"

text \<open>The running sums that the export prints for the buckets, the last one for \<^verbatim>\<open>+Inf\<close>.\<close>

fun cumulative :: "int64 \<Rightarrow> int64 list \<Rightarrow> int64 list" where
  "cumulative acc [] = []"
| "cumulative acc (c # cs) = (acc + c) # cumulative (acc + c) cs"

definition bucket_line :: "histogram \<Rightarrow> string \<Rightarrow> int64 \<Rightarrow> string" where
  "bucket_line h bound n =
     sample_line (hg_name h @ ''_bucket'' @ labelStr (hg_labels h) @ ''{le='' @ quoted bound @ ''}'') (show_int64 n)"

definition writeHistogram :: "histogram \<Rightarrow> string" where
  "writeHistogram h =
     type_line (hg_name h) ''histogram''
     @ concat (map2 (bucket_line h) (map show_g (hg_buckets h) @ [''+Inf'']) (cumulative 0 (hg_counts h)))
     @ sample_line (hg_name h @ ''_sum'' @ labelStr (hg_labels h)) (show_f (hg_sum h))
     @ sample_line (hg_name h @ ''_count'' @ labelStr (hg_labels h)) (show_int64 (hg_count h)) @ nl"

fun writeMetric :: "metric \<Rightarrow> string" where
  "writeMetric (MCounter c) = writeCounter c"
| "writeMetric (MGauge g) = writeGauge g"
| "writeMetric (MHistogram h) = writeHistogram h"

record runtime_stats =
  rs_NumGoroutine :: int
  rs_Alloc :: int
  rs_Sys :: int
  rs_HeapInuse :: int
  rs_PauseTotalNs :: int
  rs_Uptime :: rat

definition runtime_gauge :: "string \<Rightarrow> string \<Rightarrow> string" where
  "runtime_gauge name val = type_line name ''gauge'' @ sample_line name val @ nl"

definition metrics_text :: "runtime_stats \<Rightarrow> registry \<Rightarrow> string" where
  "metrics_text rs reg =
     concat (map (\<lambda>e. writeMetric (snd e)) reg)
     @ runtime_gauge ''go_goroutines'' (show_int (rs_NumGoroutine rs))
     @ runtime_gauge ''go_memstats_alloc_bytes'' (show_int (rs_Alloc rs))
     @ runtime_gauge ''go_memstats_sys_bytes'' (show_int (rs_Sys rs))
     @ runtime_gauge ''go_memstats_heap_inuse_bytes'' (show_int (rs_HeapInuse rs))
     @ runtime_gauge ''go_gc_duration_seconds'' (show_f (of_int (rs_PauseTotalNs rs) / 1000000000))
     @ runtime_gauge ''process_uptime_seconds'' (show_f (rs_Uptime rs))"

section \<open>The middleware\<close>

record http_metrics =
  hm_ActiveConnections :: gauge
  hm_HTTPRequestsTotal :: counter
  hm_HTTPRequestDuration :: histogram

definition new_http_metrics :: http_metrics where
  "new_http_metrics =
     \<lparr>hm_ActiveConnections = \<lparr>ga_name = ''active_connections'', ga_labels = [], ga_value = 0\<rparr>,
      hm_HTTPRequestsTotal = \<lparr>ct_name = ''http_requests_total'', ct_labels = [], ct_value = 0\<rparr>,
      hm_HTTPRequestDuration = new_histogram ''http_request_duration_seconds'' [] DefaultHTTPBuckets\<rparr>"

text \<open>The registry at a moment: no other metric than these three is ever written.\<close>

definition current_registry :: "http_metrics \<Rightarrow> registry" where
  "current_registry m =
     map (\<lambda>(k, x). (k,
            if k = ''active_connections'' then MGauge (hm_ActiveConnections m)
            else if k = ''http_requests_total'' then MCounter (hm_HTTPRequestsTotal m)
            else if k = ''http_request_duration_seconds'' then MHistogram (hm_HTTPRequestDuration m)
            else x)) well_known"

definition MetricsHandler :: "runtime_stats \<Rightarrow> ('d, http_metrics \<times> 's) handler" where
  "MetricsHandler rs r ms =
     (Some \<lparr>hr_Status = 200, hr_Headers = [(''Content-Type'', ''text/plain; version=0.0.4; charset=utf-8'')],
            hr_Body = Raw (metrics_text rs (current_registry (fst ms)))\<rparr>, ms)"

text \<open>
  The metrics are global, so the next handler sees them. A panic passes: the deferred decrement runs,
  the observation does not.
\<close>

definition HTTPMetrics :: "time \<Rightarrow> time \<Rightarrow> ('d, http_metrics \<times> 's) handler \<Rightarrow> ('d, http_metrics \<times> 's) handler" where
  "HTTPMetrics start end_time next_handler r ms =
     (case ms of (m, s) \<Rightarrow>
      (case next_handler r
              (m\<lparr>hm_ActiveConnections := gauge_Inc (hm_ActiveConnections m),
                 hm_HTTPRequestsTotal := counter_Inc (hm_HTTPRequestsTotal m)\<rparr>, s) of
         (resp, m', s') \<Rightarrow>
           let m' = (case resp of
                       None \<Rightarrow> m'
                     | Some _ \<Rightarrow> m'\<lparr>hm_HTTPRequestDuration :=
                         Observe (of_int (end_time - start) / of_int second) (hm_HTTPRequestDuration m')\<rparr>) in
           (resp, m'\<lparr>hm_ActiveConnections := gauge_Dec (hm_ActiveConnections m')\<rparr>, s')))"

text \<open>A handler that does not use the first part of the state.\<close>

definition beside :: "('d, 's) handler \<Rightarrow> ('d, 'm \<times> 's) handler" where
  "beside h r ms = (case ms of (m, s) \<Rightarrow> (case h r s of (resp, s') \<Rightarrow> (resp, m, s')))"

section \<open>What a histogram holds and what it exports\<close>

definition observe_all :: "rat list \<Rightarrow> histogram \<Rightarrow> histogram" where
  "observe_all vs h = fold Observe vs h"

definition at_most :: "rat list \<Rightarrow> rat \<Rightarrow> nat" where
  "at_most vs b = length (filter (\<lambda>v. v \<le> b) vs)"

lemma map2_same: "map2 g (map P bs) (map f bs) = map (\<lambda>b. g (P b) (f b)) bs"
  by (induction bs) auto

lemma observe_all_counts:
  assumes "hg_counts h = map (\<lambda>b. of_nat (f b)) (hg_buckets h) @ [of_nat n]" and "hg_count h = of_nat n"
  shows "hg_counts (observe_all vs h) = map (\<lambda>b. of_nat (f b + at_most vs b)) (hg_buckets h) @ [of_nat (n + length vs)]
    \<and> hg_count (observe_all vs h) = of_nat (n + length vs) \<and> hg_buckets (observe_all vs h) = hg_buckets h"
  using assms
proof (induction vs arbitrary: h f n)
  case Nil
  then show ?case by (simp add: observe_all_def at_most_def)
next
  case (Cons v vs)
  let ?f = "\<lambda>b. f b + (if v \<le> b then 1 else 0)"
  have counts: "hg_counts (Observe v h) = map (\<lambda>b. of_nat (?f b)) (hg_buckets (Observe v h)) @ [of_nat (Suc n)]"
    using Cons.prems by (auto simp: Observe_def map2_same simp del: map2_map_map)
  moreover have "hg_count (Observe v h) = of_nat (Suc n)" "hg_buckets (Observe v h) = hg_buckets h"
    using Cons.prems by (simp_all add: Observe_def)
  ultimately show ?case using Cons.IH [OF counts]
    by (auto simp: observe_all_def at_most_def)
qed

lemma new_histogram_counts:
  "hg_counts (observe_all vs (new_histogram name ls bs)) = map (\<lambda>b. of_nat (at_most vs b)) bs @ [of_nat (length vs)]"
  "hg_count (observe_all vs (new_histogram name ls bs)) = of_nat (length vs)"
proof -
  have "replicate (length bs + 1) 0 = map (\<lambda>b. of_nat 0 :: int64) bs @ [of_nat 0]" by (induction bs) auto
  then have "hg_counts (new_histogram name ls bs) = map (\<lambda>b. of_nat 0) (hg_buckets (new_histogram name ls bs)) @ [of_nat 0]"
    by (simp only: new_histogram_def histogram.select_convs)
  from observe_all_counts [OF this] show
    "hg_counts (observe_all vs (new_histogram name ls bs)) = map (\<lambda>b. of_nat (at_most vs b)) bs @ [of_nat (length vs)]"
    "hg_count (observe_all vs (new_histogram name ls bs)) = of_nat (length vs)"
    by (simp_all add: new_histogram_def)
qed

lemma cumulative_eq_Nil [simp]: "cumulative acc cs = [] \<longleftrightarrow> cs = []"
  by (cases cs) auto

lemma last_cumulative: "cs \<noteq> [] \<Longrightarrow> last (cumulative acc cs) = acc + sum_list cs"
  by (induction acc cs rule: cumulative.induct) (auto simp: add.assoc split: if_splits)

lemma sum_list_of_nat: "sum_list (map (\<lambda>b. of_nat (f b)) bs) = (of_nat (sum_list (map f bs)) :: int64)"
  by (induction bs) auto

lemma sum_at_most: "sum_list (map (at_most vs) bs) \<le> length bs * length vs"
  by (induction bs) (auto simp: at_most_def intro: add_mono length_filter_le)

text \<open>
  The stored counts of a histogram are already cumulative, one per bound and the total for
  \<^verbatim>\<open>+Inf\<close>, and the export adds them up again: as soon as one observed value lies within a bound, the
  \<^verbatim>\<open>+Inf\<close> bucket it prints is larger than the count it prints, although the format requires them equal.
\<close>

theorem export_counts_twice:
  assumes "v \<in> set vs" and "b \<in> set bs" and "v \<le> b" and "(length bs + 1) * length vs < 2 ^ 63"
    and "h = observe_all vs (new_histogram name ls bs)"
  shows "hg_counts h = map (\<lambda>b. of_nat (at_most vs b)) bs @ [of_nat (length vs)]
    \<and> sint (hg_count h) < sint (last (cumulative 0 (hg_counts h)))"
proof -
  let ?n = "sum_list (map (at_most vs) bs)"
  have counts: "hg_counts h = map (\<lambda>b. of_nat (at_most vs b)) bs @ [of_nat (length vs)]" "hg_count h = of_nat (length vs)"
    unfolding assms(5) by (rule new_histogram_counts)+
  then have "last (cumulative 0 (hg_counts h)) = of_nat (?n + length vs)"
    by (simp add: last_cumulative sum_list_of_nat)
  moreover have le: "?n + length vs \<le> (length bs + 1) * length vs" using sum_at_most [of vs bs] by simp
  moreover have sint: "sint (of_nat k :: int64) = int k" if "k < 2 ^ 63" for k
    using that by (simp add: signed_of_nat signed_take_bit_int_eq_self)
  ultimately have last: "sint (last (cumulative 0 (hg_counts h))) = int (?n + length vs)"
    using assms(4) by (metis le_less_trans)
  have "1 \<le> at_most vs b" using assms(1,3) by (auto simp: at_most_def Suc_le_eq filter_empty_conv)
  also have "\<dots> \<le> ?n" using assms(2) by (intro member_le_sum_list) auto
  finally have "0 < ?n" by simp
  moreover have "sint (hg_count h) = int (length vs)"
    using counts(2) sint [of "length vs"] le assms(4) by simp
  ultimately have "sint (hg_count h) < sint (last (cumulative 0 (hg_counts h)))" using last by simp
  with counts(1) show ?thesis by blast
qed

text \<open>
  The gauge of open requests is balanced: whatever the handler does, panics included, the number of
  active connections is the same after a request, every request is counted once, and its duration is
  observed exactly when it was answered.
\<close>

theorem request_metrics_balanced:
  "hm_ActiveConnections (fst (snd (HTTPMetrics start end_time (beside h) r (m, s)))) = hm_ActiveConnections m
   \<and> ct_value (hm_HTTPRequestsTotal (fst (snd (HTTPMetrics start end_time (beside h) r (m, s)))))
       = ct_value (hm_HTTPRequestsTotal m) + 1
   \<and> hg_count (hm_HTTPRequestDuration (fst (snd (HTTPMetrics start end_time (beside h) r (m, s)))))
       = hg_count (hm_HTTPRequestDuration m) + (if fst (h r s) = None then 0 else 1)
   \<and> fst (HTTPMetrics start end_time (beside h) r (m, s)) = fst (h r s)
   \<and> snd (snd (HTTPMetrics start end_time (beside h) r (m, s))) = snd (h r s)"
  by (auto simp: HTTPMetrics_def beside_def Let_def gauge_Inc_def gauge_Dec_def counter_Inc_def counter_Add_def Observe_def
      split: prod.split option.split)

lemma export_counts_twice_witness:
  "sint (hg_count (observe_all [1/5] (new_histogram ''d'' [] DefaultHTTPBuckets)))
    < sint (last (cumulative 0 (hg_counts (observe_all [1/5] (new_histogram ''d'' [] DefaultHTTPBuckets)))))"
proof -
  have "(10 :: rat) \<in> set DefaultHTTPBuckets" "length DefaultHTTPBuckets = 11" by (simp_all add: DefaultHTTPBuckets_def)
  then show ?thesis
    by (intro export_counts_twice [of "1/5" "[1/5]" 10 DefaultHTTPBuckets, OF _ _ _ _ refl, THEN conjunct2]) simp_all
qed

end
