(* ===== verification/Middleware.thy ===== *)
theory Middleware
  imports Http
begin

text \<open>
  The stateless middleware of \<^verbatim>\<open>internal/middleware\<close>: CORS, security headers, the body limit, request
  logging with its sanitizer, and the recovery from panics.
\<close>

section \<open>CORS\<close>

record cors_config =
  cc_AllowedOrigins :: "string list"
  cc_AllowedMethods :: "string list"
  cc_AllowedHeaders :: "string list"
  cc_MaxAge :: int

definition DefaultCORSConfig :: cors_config where
  "DefaultCORSConfig =
     \<lparr>cc_AllowedOrigins = [], cc_AllowedMethods = [''GET'', ''POST'', ''PUT'', ''DELETE'', ''OPTIONS''],
      cc_AllowedHeaders = [''Authorization'', ''Content-Type'', ''X-Idempotency-Key'', ''X-Request-ID''],
      cc_MaxAge = 3600\<rparr>"

definition cors_headers :: "cors_config \<Rightarrow> (string \<times> string) list" where
  "cors_headers cfg =
     (let origins = join '', '' (cc_AllowedOrigins cfg) in
      (if origins \<noteq> [] then [(''Access-Control-Allow-Origin'', origins)] else []) @
      [(''Access-Control-Allow-Methods'', join '', '' (cc_AllowedMethods cfg)),
       (''Access-Control-Allow-Headers'', join '', '' (cc_AllowedHeaders cfg)),
       (''Access-Control-Max-Age'', show_int (cc_MaxAge cfg))])"

definition CORS :: "cors_config \<Rightarrow> ('d, 's) handler \<Rightarrow> ('d, 's) handler" where
  "CORS cfg next_handler r s =
     with_headers (cors_headers cfg)
       (if hq_Method r = ''OPTIONS'' then (Some \<lparr>hr_Status = 204, hr_Headers = [], hr_Body = NoBody\<rparr>, s)
        else next_handler r s)"

section \<open>Security headers\<close>

definition security_headers :: "(string \<times> string) list" where
  "security_headers =
     [(''Strict-Transport-Security'', ''max-age=31536000; includeSubDomains''),
      (''X-Content-Type-Options'', ''nosniff''),
      (''X-Frame-Options'', ''DENY''),
      (''Content-Security-Policy'', ''default-src '' @ [CHR 0x27] @ ''self'' @ [CHR 0x27] @ ''; script-src '' @ [CHR 0x27]
         @ ''self'' @ [CHR 0x27] @ ''; style-src '' @ [CHR 0x27] @ ''self'' @ [CHR 0x27] @ '' '' @ [CHR 0x27] @ ''unsafe-inline''
         @ [CHR 0x27] @ ''; img-src '' @ [CHR 0x27] @ ''self'' @ [CHR 0x27] @ '' data:; font-src '' @ [CHR 0x27] @ ''self'' @ [CHR 0x27]),
      (''Referrer-Policy'', ''strict-origin-when-cross-origin''),
      (''Permissions-Policy'', ''camera=(), microphone=(), geolocation=(), payment=()''),
      (''Cache-Control'', ''no-store, no-cache, must-revalidate''),
      (''Pragma'', ''no-cache'')]"

definition SecurityHeaders :: "('d, 's) handler \<Rightarrow> ('d, 's) handler" where
  "SecurityHeaders next_handler r s = with_headers security_headers (next_handler r s)"

section \<open>Body limit\<close>

text \<open>A second limit can only lower the first.\<close>

definition MaxBodySize :: "nat \<Rightarrow> ('d, 's) handler \<Rightarrow> ('d, 's) handler" where
  "MaxBodySize maxBytes next_handler r s =
     next_handler (r\<lparr>hq_MaxBytes := Some (case hq_MaxBytes r of None \<Rightarrow> maxBytes | Some n \<Rightarrow> min n maxBytes)\<rparr>) s"

section \<open>Sanitizing log values\<close>

text \<open>
  \<^verbatim>\<open>strings.Map\<close> walks over the runes of a string. \<open>rune_length\<close> is the length of the UTF-8 sequence a
  string begins with, 0 if there is no valid one; such a byte becomes U+FFFD.
\<close>

definition rune_classes :: "(nat \<times> nat) list list" where
  "rune_classes =
     [[(0, 0x7F)],
      [(0xC2, 0xDF), (0x80, 0xBF)],
      [(0xE0, 0xE0), (0xA0, 0xBF), (0x80, 0xBF)],
      [(0xE1, 0xEC), (0x80, 0xBF), (0x80, 0xBF)],
      [(0xED, 0xED), (0x80, 0x9F), (0x80, 0xBF)],
      [(0xEE, 0xEF), (0x80, 0xBF), (0x80, 0xBF)],
      [(0xF0, 0xF0), (0x90, 0xBF), (0x80, 0xBF), (0x80, 0xBF)],
      [(0xF1, 0xF3), (0x80, 0xBF), (0x80, 0xBF), (0x80, 0xBF)],
      [(0xF4, 0xF4), (0x80, 0x8F), (0x80, 0xBF), (0x80, 0xBF)]]"

fun fits :: "(nat \<times> nat) list \<Rightarrow> string \<Rightarrow> bool" where
  "fits [] s = True"
| "fits (p # ps) [] = False"
| "fits (p # ps) (c # s) = (fst p \<le> of_char c \<and> of_char c \<le> snd p \<and> fits ps s)"

definition rune_length :: "string \<Rightarrow> nat" where
  "rune_length s = (case find (\<lambda>ps. fits ps s) rune_classes of None \<Rightarrow> 0 | Some ps \<Rightarrow> length ps)"

definition replacement :: string where "replacement = [CHR 0xEF, CHR 0xBF, CHR 0xBD]"

definition control :: "char \<Rightarrow> bool" where
  "control c \<longleftrightarrow> (of_char c :: nat) < 0x20 \<or> (of_char c :: nat) = 0x7F"

function sanitizeLogValue :: "string \<Rightarrow> string" where
  "sanitizeLogValue s =
     (if s = [] then []
      else if rune_length s = 0 then replacement @ sanitizeLogValue (drop 1 s)
      else (if rune_length s = 1 \<and> control (hd s) then [] else take (rune_length s) s)
             @ sanitizeLogValue (drop (rune_length s) s))"
  by auto

termination by (relation "measure length") auto

declare sanitizeLogValue.simps [simp del]

section \<open>Logging\<close>

datatype log_level = LevelInfo | LevelWarn | LevelError

record log_record =
  lg_level :: log_level
  lg_msg :: string
  lg_request_id :: string
  lg_method :: string
  lg_path :: string
  lg_status :: int
  lg_duration :: duration
  lg_response_bytes :: int
  lg_remote_addr :: string
  lg_user_agent :: string
  lg_query :: "string option"

definition log_level_of :: "int \<Rightarrow> log_level \<times> string" where
  "log_level_of status =
     (if status \<ge> 500 then (LevelError, ''http request error'')
      else if status \<ge> 400 then (LevelWarn, ''http request warning'')
      else (LevelInfo, ''http request''))"

definition request_log :: "time \<Rightarrow> time \<Rightarrow> ('d http_body \<Rightarrow> string) \<Rightarrow> http_request \<Rightarrow> 'd http_response \<Rightarrow> log_record" where
  "request_log start end_time render r resp =
     \<lparr>lg_level = fst (log_level_of (hr_Status resp)), lg_msg = snd (log_level_of (hr_Status resp)),
      lg_request_id = hq_RequestID r, lg_method = hq_Method r, lg_path = sanitizeLogValue (hq_Path r),
      lg_status = hr_Status resp, lg_duration = end_time - start,
      lg_response_bytes = int (length (render (hr_Body resp))),
      lg_remote_addr = sanitizeLogValue (hq_RemoteAddr r),
      lg_user_agent = sanitizeLogValue (Header r ''User-Agent''),
      lg_query = (if hq_RawQuery r \<noteq> [] then Some (sanitizeLogValue (hq_RawQuery r)) else None)\<rparr>"

text \<open>A panic that reaches the logger passes it without a record.\<close>

definition Logger ::
  "time \<Rightarrow> time \<Rightarrow> ('d http_body \<Rightarrow> string) \<Rightarrow> ('d, 's) handler \<Rightarrow> ('d, log_record list \<times> 's) handler" where
  "Logger start end_time render next_handler r ls =
     (case ls of (l, s) \<Rightarrow>
      (case next_handler r s of
         (None, s') \<Rightarrow> (None, l, s')
       | (Some resp, s') \<Rightarrow> (Some resp, l @ [request_log start end_time render r resp], s')))"

section \<open>Recovery\<close>

definition Recoverer :: "('d, 's) handler \<Rightarrow> ('d, 's) handler" where
  "Recoverer next_handler r s =
     (case next_handler r s of
        (None, s') \<Rightarrow> (Some (plain_error 500 ''INTERNAL_ERROR'' ''internal server error''), s')
      | (Some resp, s') \<Rightarrow> (Some resp, s'))"

section \<open>What the sanitizer gives\<close>

lemma rune_length_one: "rune_length (c # s) = 1 \<longleftrightarrow> (of_char c :: nat) < 0x80"
  by (simp add: rune_length_def rune_classes_def)

text \<open>A sequence of several bytes has no byte below 0x80.\<close>

lemma fits_high: "fits ps s \<Longrightarrow> \<forall>p \<in> set ps. n \<le> fst p \<Longrightarrow> c \<in> set (take (length ps) s) \<Longrightarrow> n \<le> (of_char c :: nat)"
  by (induction ps s rule: fits.induct) auto

lemma rune_bytes_high:
  assumes "1 < rune_length s" and "c \<in> set (take (rune_length s) s)"
  shows "0x80 \<le> (of_char c :: nat)"
proof -
  from assms obtain ps where ps: "find (\<lambda>ps. fits ps s) rune_classes = Some ps" "rune_length s = length ps"
    by (auto simp: rune_length_def split: option.splits)
  then have "ps \<in> set rune_classes" "fits ps s" by (auto dest: find_SomeD)
  moreover from this assms(1) ps(2) have "\<forall>p \<in> set ps. 0x80 \<le> fst p" by (auto simp: rune_classes_def)
  ultimately show ?thesis using fits_high [of ps s "0x80" c] assms(2) ps(2) by simp
qed

lemma sanitize_no_control: "c \<in> set (sanitizeLogValue s) \<Longrightarrow> \<not> control c"
proof (induction s rule: sanitizeLogValue.induct)
  case (1 s)
  show ?case
  proof (cases s)
    case Nil
    with "1.prems" show ?thesis by (simp add: sanitizeLogValue.simps)
  next
    case s: (Cons a as)
    consider "rune_length s = 0" | "rune_length s = 1" | "1 < rune_length s" by linarith
    then show ?thesis
    proof cases
      case 1
      with s "1.prems" "1.IH"(1) show ?thesis
        by (subst (asm) sanitizeLogValue.simps) (auto simp: replacement_def control_def)
    next
      case 2
      with s "1.prems" "1.IH"(2) show ?thesis
        by (subst (asm) sanitizeLogValue.simps) (auto split: if_splits)
    next
      case 3
      with s "1.prems" "1.IH"(2) rune_bytes_high [OF 3, of c] show ?thesis
        by (subst (asm) sanitizeLogValue.simps) (auto simp: control_def)
    qed
  qed
qed

text \<open>Printable ASCII passes unchanged.\<close>

lemma sanitize_ascii:
  assumes "\<forall>c \<in> set s. (of_char c :: nat) < 0x80 \<and> \<not> control c"
  shows "sanitizeLogValue s = s"
  using assms
proof (induction s)
  case (Cons c s)
  then have "rune_length (c # s) = 1" by (simp only: rune_length_one) simp
  with Cons show ?case by (subst sanitizeLogValue.simps) simp
qed (simp add: sanitizeLogValue.simps)

lemma Recoverer_answers: "fst (Recoverer h r s) \<noteq> None"
  by (auto simp: Recoverer_def split: prod.split option.split)

end
