(* ===== verification/Rate_Limit.thy ===== *)
theory Rate_Limit
  imports Keyed "HOL-Library.Signed_Division"
begin

text \<open>
  The token bucket of \<^verbatim>\<open>internal/middleware/ratelimit.go\<close>, one bucket per address. Go's integer
  division truncates; the products stay far below 2^63 for the deployed rate, so they are integers.
  A locked section reads the clock once.
\<close>

section \<open>The limiter\<close>

record bucket =
  bk_tokens :: int
  bk_lastFill :: time

record rate_limiter =
  rl_visitors :: "string \<rightharpoonup> bucket"
  rl_rate :: int
  rl_interval :: duration
  rl_burst :: int

definition NewRateLimiter :: "int \<Rightarrow> duration \<Rightarrow> int \<Rightarrow> rate_limiter" where
  "NewRateLimiter rate interval burst =
     \<lparr>rl_visitors = Map.empty, rl_rate = rate, rl_interval = interval, rl_burst = burst\<rparr>"

definition refilled :: "int \<Rightarrow> duration \<Rightarrow> int \<Rightarrow> time \<Rightarrow> bucket \<Rightarrow> bucket" where
  "refilled rate interval burst now b =
     (let elapsed = now - bk_lastFill b; refill = (elapsed sdiv interval) * rate in
      if refill > 0
      then \<lparr>bk_tokens = (if bk_tokens b + refill > burst then burst else bk_tokens b + refill), bk_lastFill = now\<rparr>
      else b)"

definition allow :: "time \<Rightarrow> string \<Rightarrow> rate_limiter \<Rightarrow> bool \<times> rate_limiter" where
  "allow now key rl =
     (case rl_visitors rl key of
        None \<Rightarrow>
          (True, rl\<lparr>rl_visitors := (rl_visitors rl)(key \<mapsto> \<lparr>bk_tokens = rl_burst rl - 1, bk_lastFill = now\<rparr>)\<rparr>)
      | Some b \<Rightarrow>
          let b = refilled (rl_rate rl) (rl_interval rl) (rl_burst rl) now b in
          if bk_tokens b \<le> 0 then (False, rl\<lparr>rl_visitors := (rl_visitors rl)(key \<mapsto> b)\<rparr>)
          else (True, rl\<lparr>rl_visitors := (rl_visitors rl)(key \<mapsto> b\<lparr>bk_tokens := bk_tokens b - 1\<rparr>)\<rparr>))"

definition stale_bucket :: "time \<Rightarrow> bucket \<Rightarrow> bool" where
  "stale_bucket now b \<longleftrightarrow> bk_lastFill b < now - 10 * minute"

definition rl_cleanup :: "time \<Rightarrow> rate_limiter \<Rightarrow> rate_limiter" where
  "rl_cleanup now rl = rl\<lparr>rl_visitors := sweep stale_bucket now (rl_visitors rl)\<rparr>"

definition limit_exceeded :: "'d http_response" where
  "limit_exceeded = raw_error 429 [(''Retry-After'', ''1'')] ''RATE_LIMITED'' ''too many requests, please retry later''"

definition RateLimiter_Handler :: "time \<Rightarrow> ('d, 's) handler \<Rightarrow> ('d, rate_limiter \<times> 's) handler" where
  "RateLimiter_Handler now next_handler r st =
     (case st of (rl, s) \<Rightarrow>
      (case allow now (hq_RemoteAddr r) rl of
         (ok, rl') \<Rightarrow>
           if \<not> ok then (Some limit_exceeded, rl', s)
           else (case next_handler r s of (resp, s') \<Rightarrow> (resp, rl', s'))))"

section \<open>How many requests pass\<close>

fun passed :: "string \<Rightarrow> (time \<times> string) list \<Rightarrow> rate_limiter \<Rightarrow> int" where
  "passed key [] rl = 0"
| "passed key ((now, k) # reqs) rl =
     (case allow now k rl of (ok, rl') \<Rightarrow> (if ok \<and> k = key then 1 else 0) + passed key reqs rl')"

lemma allow_other:
  assumes "k \<noteq> key"
  shows "rl_visitors (snd (allow now k rl)) key = rl_visitors rl key"
  using assms by (simp add: allow_def Let_def split: option.split)

lemma allow_config [simp]:
  "rl_rate (snd (allow now k rl)) = rl_rate rl" "rl_interval (snd (allow now k rl)) = rl_interval rl"
  "rl_burst (snd (allow now k rl)) = rl_burst rl"
  by (simp_all add: allow_def Let_def split: option.split)

lemma div_add_le:
  fixes a b c :: int
  assumes "0 < c"
  shows "a div c + b div c \<le> (a + b) div c"
  using assms by (simp add: div_add1_eq [of a b c] pos_imp_zdiv_nonneg_iff)

lemma sdiv_nonneg: "0 \<le> a \<Longrightarrow> 0 < b \<Longrightarrow> a sdiv b = a div (b :: int)"
  by (cases "a = 0") (simp_all add: signed_divide_int_def)

text \<open>A bucket pays out at most what it holds and what flows in afterwards.\<close>

lemma refilled_credit:
  assumes "0 < interval" and "0 \<le> rate" and "bk_lastFill b \<le> now" and "now \<le> T"
  shows "bk_tokens (refilled rate interval burst now b) + rate * ((T - bk_lastFill (refilled rate interval burst now b)) div interval)
    \<le> bk_tokens b + rate * ((T - bk_lastFill b) div interval)"
    and "bk_lastFill (refilled rate interval burst now b) \<le> now"
proof -
  let ?q = "(now - bk_lastFill b) div interval"
  from div_add_le [OF assms(1), of "now - bk_lastFill b" "T - now"]
  have "?q + (T - now) div interval \<le> (T - bk_lastFill b) div interval" by simp
  from mult_left_mono [OF this assms(2)]
  have "rate * ?q + rate * ((T - now) div interval) \<le> rate * ((T - bk_lastFill b) div interval)"
    by (simp add: distrib_left)
  then show "bk_tokens (refilled rate interval burst now b) + rate * ((T - bk_lastFill (refilled rate interval burst now b)) div interval)
    \<le> bk_tokens b + rate * ((T - bk_lastFill b) div interval)"
    using assms by (simp add: refilled_def Let_def sdiv_nonneg mult.commute)
  show "bk_lastFill (refilled rate interval burst now b) \<le> now"
    using assms by (simp add: refilled_def Let_def)
qed

lemma refilled_nonneg:
  "0 \<le> bk_tokens b \<Longrightarrow> 0 \<le> burst \<Longrightarrow> 0 \<le> bk_tokens (refilled rate interval burst now b)"
  by (simp add: refilled_def Let_def)

lemma passed_known:
  assumes "0 < rl_interval rl" and "0 \<le> rl_rate rl"
    and "rl_visitors rl key = Some b" and "0 \<le> bk_tokens b" and "sorted (map fst reqs)"
    and "\<forall>(now, k) \<in> set reqs. bk_lastFill b \<le> now \<and> now \<le> T" and "bk_lastFill b \<le> T"
    and "0 \<le> rl_burst rl"
  shows "passed key reqs rl \<le> bk_tokens b + rl_rate rl * ((T - bk_lastFill b) div rl_interval rl)"
  using assms
proof (induction reqs arbitrary: rl b)
  case Nil
  then show ?case by (simp add: pos_imp_zdiv_nonneg_iff)
next
  case (Cons p reqs)
  obtain now k where p: "p = (now, k)" by (cases p)
  obtain ok rl' where al: "allow now k rl = (ok, rl')" by (cases "allow now k rl")
  note cfg = allow_config [of now k rl, unfolded al snd_conv]
  show ?case
  proof (cases "k = key")
    case False
    from allow_other [OF False, of now rl] al have "rl_visitors rl' key = Some b"
      using Cons.prems(3) by simp
    from Cons.IH [of rl' b] this Cons.prems cfg False show ?thesis by (simp add: p al)
  next
    case True
    note al' = al [unfolded True]
    let ?b = "refilled (rl_rate rl) (rl_interval rl) (rl_burst rl) now b"
    from Cons.prems have "bk_lastFill b \<le> now" "now \<le> T" by (auto simp: p)
    from refilled_credit [OF Cons.prems(1,2) this, of "rl_burst rl"]
    have credit: "bk_tokens ?b + rl_rate rl * ((T - bk_lastFill ?b) div rl_interval rl)
        \<le> bk_tokens b + rl_rate rl * ((T - bk_lastFill b) div rl_interval rl)"
      and fill: "bk_lastFill ?b \<le> now" .
    have times: "sorted (map fst reqs)" "\<forall>(t, k) \<in> set reqs. bk_lastFill ?b \<le> t \<and> t \<le> T" "bk_lastFill ?b \<le> T"
      using Cons.prems fill by (auto simp: p)
    show ?thesis
    proof (cases "bk_tokens ?b \<le> 0")
      case empty: True
      from refilled_nonneg [OF Cons.prems(4,8)] have nn: "0 \<le> bk_tokens ?b" .
      from True empty al Cons.prems(3) have "\<not> ok" "rl_visitors rl' key = Some ?b"
        by (auto simp: allow_def Let_def)
      with Cons.IH [of rl' ?b] nn times cfg Cons.prems(1,2,8) credit True show ?thesis by (simp add: p al')
    next
      case False
      from True False al Cons.prems(3) have ok: ok
        and new: "rl_visitors rl' key = Some (?b\<lparr>bk_tokens := bk_tokens ?b - 1\<rparr>)"
        by (auto simp: allow_def Let_def)
      have "passed key reqs rl' \<le> bk_tokens ?b - 1 + rl_rate rl * ((T - bk_lastFill ?b) div rl_interval rl)"
        using Cons.IH [of rl' "?b\<lparr>bk_tokens := bk_tokens ?b - 1\<rparr>"] new False times cfg Cons.prems(1,2,8) by simp
      with credit True ok show ?thesis by (simp add: p al')
    qed
  qed
qed

text \<open>
  C36: the limiter bounds what one address gets through: of all requests in order of time that
  fall between two instants, for an address not seen before, at most the burst and the rate times the
  whole intervals in between are let through, however many addresses compete.
\<close>

theorem rate_limit_bounds_requests:
  assumes "0 < rl_interval rl" and "0 \<le> rl_rate rl" and "1 \<le> rl_burst rl" and "rl_visitors rl key = None"
    and "sorted (map fst reqs)" and "\<forall>(now, k) \<in> set reqs. t0 \<le> now \<and> now \<le> T" and "t0 \<le> T"
  shows "passed key reqs rl \<le> rl_burst rl + rl_rate rl * ((T - t0) div rl_interval rl)"
  using assms
proof (induction reqs arbitrary: rl)
  case Nil
  then show ?case by (simp add: pos_imp_zdiv_nonneg_iff)
next
  case (Cons p reqs)
  obtain now k where p: "p = (now, k)" by (cases p)
  obtain ok rl' where al: "allow now k rl = (ok, rl')" by (cases "allow now k rl")
  note cfg = allow_config [of now k rl, unfolded al snd_conv]
  show ?case
  proof (cases "k = key")
    case False
    from allow_other [OF False, of now rl] al Cons.prems(4) have "rl_visitors rl' key = None" by simp
    from Cons.IH [of rl'] this Cons.prems cfg False show ?thesis by (simp add: p al)
  next
    case True
    note al' = al [unfolded True]
    let ?b = "\<lparr>bk_tokens = rl_burst rl - 1, bk_lastFill = now\<rparr>"
    from True al Cons.prems(4) have "ok" "rl_visitors rl' key = Some ?b" by (auto simp: allow_def)
    moreover have "passed key reqs rl' \<le> bk_tokens ?b + rl_rate rl' * ((T - bk_lastFill ?b) div rl_interval rl')"
      by (rule passed_known [where b = ?b]) (use Cons.prems cfg calculation in \<open>auto simp: p\<close>)
    moreover have "rl_rate rl * ((T - now) div rl_interval rl) \<le> rl_rate rl * ((T - t0) div rl_interval rl)"
      using Cons.prems by (intro mult_left_mono zdiv_mono1) (auto simp: p)
    ultimately show ?thesis using cfg True by (simp add: p al')
  qed
qed

section \<open>The table of visitors\<close>

definition bucket_react ::
  "int \<Rightarrow> duration \<Rightarrow> int \<Rightarrow> time \<Rightarrow> unit \<Rightarrow> bucket option \<Rightarrow> bool \<times> bucket option" where
  "bucket_react rate interval burst now i e =
     (case e of
        None \<Rightarrow> (True, Some \<lparr>bk_tokens = burst - 1, bk_lastFill = now\<rparr>)
      | Some b \<Rightarrow>
          let b = refilled rate interval burst now b in
          if bk_tokens b \<le> 0 then (False, Some b) else (True, Some (b\<lparr>bk_tokens := bk_tokens b - 1\<rparr>)))"

lemma allow_react:
  "allow now key rl =
     (case touch (bucket_react (rl_rate rl) (rl_interval rl) (rl_burst rl)) now key () (rl_visitors rl) of
        (ok, m) \<Rightarrow> (ok, rl\<lparr>rl_visitors := m\<rparr>))"
  by (cases "rl_visitors rl key") (simp_all add: allow_def touch_def bucket_react_def Let_def)

definition limited_respond :: "('d, 's) handler \<Rightarrow> bool \<times> http_request \<Rightarrow> 's \<Rightarrow> 'd http_response option \<times> 's" where
  "limited_respond h ar s = (if fst ar then h (snd ar) s else (Some limit_exceeded, s))"

text \<open>
  The limiter of the server: 100 requests a second, bursts of 200. After ten minutes a bucket is
  full again, so deleting it loses nothing.
\<close>

definition server_limiter :: rate_limiter where
  "server_limiter = NewRateLimiter 100 second 200"

interpretation limiter_mw: sweeping "bucket_react 100 second 200" stale_bucket "\<lambda>b. 0 \<le> bk_tokens b"
  "\<lambda>now. RateLimiter_Handler now h" rl_cleanup "\<lambda>m. server_limiter\<lparr>rl_visitors := m\<rparr>" "\<lambda>_. ()" "limited_respond h"
  for h :: "('d, 's) handler"
proof unfold_locales
  show "stale_bucket t v \<Longrightarrow> t \<le> t' \<Longrightarrow> stale_bucket t' v" for t t' v
    by (simp add: stale_bucket_def)
  show "bucket_react 100 second 200 t i (Some v) = bucket_react 100 second 200 t i None"
    if "stale_bucket t v" "0 \<le> bk_tokens v" for t v i
  proof -
    have "600 \<le> (t - bk_lastFill v) div second"
      using that(1) by (simp add: stale_bucket_def minute_def second_def)
    moreover have "(t - bk_lastFill v) sdiv second = (t - bk_lastFill v) div second"
      using that(1) by (intro sdiv_nonneg) (auto simp: stale_bucket_def minute_def second_def)
    ultimately show ?thesis
      using that(2) by (simp add: bucket_react_def refilled_def Let_def)
  qed
  show "0 \<le> bk_tokens w" if "snd (bucket_react 100 second 200 t i e) = Some w" "\<forall>u. e = Some u \<longrightarrow> 0 \<le> bk_tokens u"
    for t i e w
    using that refilled_nonneg [of "the e" 200 100 second t]
    by (cases e) (auto simp: bucket_react_def Let_def split: if_splits)
  show "RateLimiter_Handler now h r (server_limiter\<lparr>rl_visitors := m\<rparr>, s) =
      (case touch (bucket_react 100 second 200) now (hq_RemoteAddr r) () m of
         (a, m') \<Rightarrow> (case limited_respond h (a, r) s of (resp, s') \<Rightarrow> (resp, (server_limiter\<lparr>rl_visitors := m'\<rparr>, s'))))" for now r m s
    by (simp add: RateLimiter_Handler_def allow_react limited_respond_def server_limiter_def NewRateLimiter_def split: prod.split)
  show "rl_cleanup now (server_limiter\<lparr>rl_visitors := m\<rparr>) =
      server_limiter\<lparr>rl_visitors := sweep stale_bucket now m\<rparr>" for now m
    by (simp add: rl_cleanup_def)
qed

text \<open>
  Forgetting visitors is unobservable: with the limits of the server, a run of requests in
  order of time is answered as if the background cleanup never ran.
\<close>

theorem limiter_cleanup_unobservable:
  assumes "sorted (map fst evs)"
  shows "serve (\<lambda>now. RateLimiter_Handler now h) rl_cleanup evs (server_limiter, s) =
    serve (\<lambda>now. RateLimiter_Handler now h) rl_cleanup (filter is_request evs) (server_limiter, s)"
  using limiter_mw.cleanup_unobservable [OF assms, of Map.empty h s]
  by (simp add: server_limiter_def NewRateLimiter_def)

fun spaced :: "duration \<Rightarrow> string \<Rightarrow> time \<Rightarrow> (time \<times> string) list \<Rightarrow> bool" where
  "spaced gap key t [] = True"
| "spaced gap key t ((now, k) # reqs) =
     (if k = key then t + gap \<le> now \<and> spaced gap key now reqs else spaced gap key t reqs)"

text \<open>
  A client that keeps to the rate is never refused: when the first request finds at least one
  token and each following request of the address comes a whole interval after the one before, all pass,
  whatever other addresses send.
\<close>

theorem spaced_requests_pass:
  assumes "0 < rl_interval rl" and "1 \<le> rl_rate rl" and "1 \<le> rl_burst rl"
    and "rl_visitors rl key = None \<or> (\<exists>b. rl_visitors rl key = Some b \<and> 0 \<le> bk_tokens b \<and> bk_lastFill b \<le> t)"
    and "spaced (rl_interval rl) key t reqs"
  shows "passed key reqs rl = int (length (filter (\<lambda>p. snd p = key) reqs))"
  using assms
proof (induction reqs arbitrary: rl t)
  case (Cons p reqs)
  obtain now k where p: "p = (now, k)" by (cases p)
  obtain ok rl' where al: "allow now k rl = (ok, rl')" by (cases "allow now k rl")
  note cfg = allow_config [of now k rl, unfolded al snd_conv]
  show ?case
  proof (cases "k = key")
    case False
    from allow_other [OF False, of now rl] al have "rl_visitors rl' key = rl_visitors rl key" by simp
    with Cons.IH [of rl' t] Cons.prems cfg False show ?thesis by (simp add: p al)
  next
    case True
    note al' = al [unfolded True]
    from Cons.prems True have gap: "t + rl_interval rl \<le> now" "spaced (rl_interval rl) key now reqs" by (auto simp: p)
    have "ok \<and> (\<exists>b. rl_visitors rl' key = Some b \<and> 0 \<le> bk_tokens b \<and> bk_lastFill b \<le> now)"
    proof (cases "rl_visitors rl key")
      case None
      with al' Cons.prems(3) show ?thesis by (auto simp: allow_def)
    next
      case (Some b)
      with Cons.prems(4) have b: "0 \<le> bk_tokens b" "bk_lastFill b \<le> t" by auto
      have "1 \<le> (now - bk_lastFill b) div rl_interval rl"
        using b gap Cons.prems(1) by (simp add: int_one_le_iff_zero_less pos_imp_zdiv_pos_iff)
      then have "0 < (now - bk_lastFill b) sdiv rl_interval rl * rl_rate rl"
        using b gap Cons.prems(1,2) by (simp add: sdiv_nonneg)
      with b Cons.prems(3) have "1 \<le> bk_tokens (refilled (rl_rate rl) (rl_interval rl) (rl_burst rl) now b)"
          "bk_lastFill (refilled (rl_rate rl) (rl_interval rl) (rl_burst rl) now b) = now"
        by (simp_all add: refilled_def Let_def)
      with Some al' show ?thesis by (auto simp: allow_def Let_def)
    qed
    with Cons.IH [of rl' now] cfg gap Cons.prems(1-3) True show ?thesis by (simp add: p al')
  qed
qed simp

section \<open>Witnesses\<close>

definition counting_handler :: "(string, nat) handler" where
  "counting_handler r n = (Some (JSON 0 200 []), n + 1)"

lemma rate_limit_bounds_requests_witness:
  "passed ''a'' [(0, ''a''), (1, ''b''), (2, ''a''), (3 * second, ''a'')] (server_limiter\<lparr>rl_burst := 1\<rparr>) \<le> 1 + 100 * 3"
  using rate_limit_bounds_requests [of "server_limiter\<lparr>rl_burst := 1\<rparr>" "''a''"
      "[(0, ''a''), (1, ''b''), (2, ''a''), (3 * second, ''a'')]" 0 "3 * second"]
  by (simp add: server_limiter_def NewRateLimiter_def second_def)

lemma limiter_cleanup_unobservable_witness:
  "serve (\<lambda>now. RateLimiter_Handler now counting_handler) rl_cleanup
      [(0, Some (request_from ''a'' [])), (601 * second, None), (601 * second, Some (request_from ''a'' []))] (server_limiter, 0) =
   serve (\<lambda>now. RateLimiter_Handler now counting_handler) rl_cleanup
      [(0, Some (request_from ''a'' [])), (601 * second, Some (request_from ''a'' []))] (server_limiter, 0)"
  using limiter_cleanup_unobservable [of "[(0, Some (request_from ''a'' [])), (601 * second, None),
      (601 * second, Some (request_from ''a'' []))]" counting_handler 0]
  by (simp add: second_def is_request_def)

lemma spaced_requests_pass_witness:
  "passed ''a'' [(0, ''a''), (5, ''b''), (second, ''a''), (2 * second, ''a'')] (server_limiter\<lparr>rl_burst := 1\<rparr>) = 3"
  using spaced_requests_pass [of "server_limiter\<lparr>rl_burst := 1\<rparr>" "''a''" "- second"
      "[(0, ''a''), (5, ''b''), (second, ''a''), (2 * second, ''a'')]"]
  by (simp add: server_limiter_def NewRateLimiter_def second_def)

end
