(* ===== verification/Real_IP.thy ===== *)
theory Real_IP
  imports Http
begin

unbundle bit_operations_syntax

text \<open>
  The client address, \<^verbatim>\<open>internal/middleware/realip.go\<close>: \<^verbatim>\<open>net.ParseIP\<close>, \<^verbatim>\<open>net.SplitHostPort\<close>, the
  trusted networks, and the middleware that rewrites \<^verbatim>\<open>RemoteAddr\<close> from \<^verbatim>\<open>X-Forwarded-For\<close> or
  \<^verbatim>\<open>X-Real-IP\<close> when the peer is a trusted proxy. An address is a 128-bit word; an IPv4 address is
  its mapped form, as in Go.
\<close>

section \<open>Parsing addresses\<close>

type_synonym ip = "128 word"

definition mapped_prefix :: int where "mapped_prefix = 0xFFFF * 2 ^ 32"

definition ip_of_int :: "int \<Rightarrow> ip" where "ip_of_int n = word_of_int n"

text \<open>One decimal part of a dotted quad: one to three digits, no leading zero, at most 255.\<close>

definition octet :: "string \<Rightarrow> int option" where
  "octet s =
     (if s = [] \<or> length s > 3 \<or> (length s > 1 \<and> hd s = CHR ''0'') then None
      else case unsigned_of s of
        None \<Rightarrow> None
      | Some n \<Rightarrow> if n \<le> 255 then Some n else None)"

definition parse_ipv4 :: "string \<Rightarrow> int option" where
  "parse_ipv4 s =
     (case map octet (split_all (CHR ''.'') s) of
        [Some a, Some b, Some c, Some d] \<Rightarrow> Some (((a * 256 + b) * 256 + c) * 256 + d)
      | _ \<Rightarrow> None)"

definition hex_digit :: "char \<Rightarrow> nat option" where
  "hex_digit c =
     (let n = of_char c :: nat in
      if 48 \<le> n \<and> n \<le> 57 then Some (n - 48)
      else if 97 \<le> n \<and> n \<le> 102 then Some (n - 87)
      else if 65 \<le> n \<and> n \<le> 70 then Some (n - 55)
      else None)"

fun hex_value :: "int \<Rightarrow> string \<Rightarrow> int option" where
  "hex_value acc [] = Some acc"
| "hex_value acc (c # cs) =
     (case hex_digit c of None \<Rightarrow> None | Some d \<Rightarrow> hex_value (16 * acc + int d) cs)"

text \<open>A 16-bit group: one to four hexadecimal digits.\<close>

definition hex_group :: "string \<Rightarrow> int option" where
  "hex_group s = (if s = [] \<or> length s > 4 then None else hex_value 0 s)"

text \<open>
  Groups separated by single colons; a dotted quad may stand for the last two. The empty text is
  no group at all.
\<close>

fun hex_groups :: "string list \<Rightarrow> int list option" where
  "hex_groups [] = Some []"
| "hex_groups [g] =
     (if CHR ''.'' \<in> set g
      then (case parse_ipv4 g of None \<Rightarrow> None | Some n \<Rightarrow> Some [n div 65536, n mod 65536])
      else map_option (\<lambda>x. [x]) (hex_group g))"
| "hex_groups (g # h # gs) =
     (case hex_group g of None \<Rightarrow> None | Some x \<Rightarrow> map_option ((#) x) (hex_groups (h # gs)))"

definition groups_of :: "string \<Rightarrow> int list option" where
  "groups_of s = (if s = [] then Some [] else hex_groups (split_all (CHR '':'') s))"

text \<open>The parts before and after the first \<^verbatim>\<open>::\<close>.\<close>

fun split_ellipsis :: "string \<Rightarrow> (string \<times> string) option" where
  "split_ellipsis (a # b # s) =
     (if a = CHR '':'' \<and> b = CHR '':'' then Some ([], s)
      else map_option (\<lambda>(p, q). (a # p, q)) (split_ellipsis (b # s)))"
| "split_ellipsis _ = None"

text \<open>
  Before \<^verbatim>\<open>::\<close> only hexadecimal groups can stand, because a dotted quad ends the address. The
  ellipsis stands for at least one group of zeros.
\<close>

definition parse_ipv6 :: "string \<Rightarrow> int list option" where
  "parse_ipv6 s =
     (case split_ellipsis s of
        None \<Rightarrow>
          (case groups_of s of
             Some gs \<Rightarrow> if length gs = 8 then Some gs else None
           | None \<Rightarrow> None)
      | Some (p, q) \<Rightarrow>
          if CHR ''.'' \<in> set p then None
          else (case (groups_of p, groups_of q) of
             (Some gs, Some hs) \<Rightarrow>
               if length gs + length hs < 8
               then Some (gs @ replicate (8 - length gs - length hs) 0 @ hs) else None
           | _ \<Rightarrow> None))"

text \<open>\<^verbatim>\<open>net.ParseIP\<close>: the first dot, colon or percent sign decides the format.\<close>

definition ParseIP :: "string \<Rightarrow> ip option" where
  "ParseIP s =
     (case find (\<lambda>c. c = CHR ''.'' \<or> c = CHR '':'' \<or> c = CHR ''%'') s of
        None \<Rightarrow> None
      | Some c \<Rightarrow>
          if c = CHR ''.'' then map_option (\<lambda>n. ip_of_int (mapped_prefix + n)) (parse_ipv4 s)
          else if c = CHR '':''
          then map_option (\<lambda>gs. ip_of_int (foldl (\<lambda>acc g. acc * 65536 + g) 0 gs)) (parse_ipv6 s)
          else None)"

section \<open>Splitting host and port\<close>

fun last_colon :: "string \<Rightarrow> (string \<times> string) option" where
  "last_colon [] = None"
| "last_colon (c # s) =
     (case last_colon s of
        Some (a, b) \<Rightarrow> Some (c # a, b)
      | None \<Rightarrow> if c = CHR '':'' then Some ([], s) else None)"

text \<open>
  \<^verbatim>\<open>net.SplitHostPort\<close>, its errors being \<open>None\<close>. After a leading bracket the closing one must be
  followed by the last colon; otherwise the host has no colon; no other bracket is allowed.
\<close>

definition SplitHostPort :: "string \<Rightarrow> (string \<times> string) option" where
  "SplitHostPort hostport =
     (case last_colon hostport of
        None \<Rightarrow> None
      | Some (front, port) \<Rightarrow>
          (case hostport of
             [] \<Rightarrow> None
           | c # rest \<Rightarrow>
               if c = CHR 0x5B then
                 (case split_once (CHR 0x5D) rest of
                    None \<Rightarrow> None
                  | Some (host, after) \<Rightarrow>
                      if after = CHR '':'' # port \<and> \<not> CHR 0x5B \<in> set (host @ after)
                         \<and> \<not> CHR 0x5D \<in> set after
                      then Some (host, port) else None)
               else if CHR '':'' \<in> set front \<or> CHR 0x5B \<in> set hostport \<or> CHR 0x5D \<in> set hostport
               then None
               else Some (front, port)))"

section \<open>Trusted networks\<close>

text \<open>A network is an address and the length of its prefix in the 128-bit form.\<close>

definition cidr4 :: "int \<Rightarrow> int \<Rightarrow> int \<Rightarrow> int \<Rightarrow> nat \<Rightarrow> ip \<times> nat" where
  "cidr4 a b c d len = (ip_of_int (mapped_prefix + ((a * 256 + b) * 256 + c) * 256 + d), 96 + len)"

definition defaultTrustedProxies :: "(ip \<times> nat) list" where
  "defaultTrustedProxies =
     [cidr4 10 0 0 0 8, cidr4 172 16 0 0 12, cidr4 192 168 0 0 16, cidr4 127 0 0 0 8,
      (1, 128), cidr4 35 191 0 0 16, cidr4 130 211 0 0 22]"

definition Contains :: "ip \<times> nat \<Rightarrow> ip \<Rightarrow> bool" where
  "Contains net a = (case net of (base, len) \<Rightarrow> drop_bit (128 - len) a = drop_bit (128 - len) base)"

definition isTrustedProxy :: "string \<Rightarrow> (ip \<times> nat) list \<Rightarrow> bool" where
  "isTrustedProxy s nets =
     (case ParseIP s of None \<Rightarrow> False | Some a \<Rightarrow> list_ex (\<lambda>net. Contains net a) nets)"

section \<open>The middleware\<close>

definition extractIP :: "string \<Rightarrow> string" where
  "extractIP remoteAddr =
     (case SplitHostPort remoteAddr of
        Some (host, _) \<Rightarrow> host
      | None \<Rightarrow> if ParseIP remoteAddr \<noteq> None then remoteAddr else [])"

definition forwarded_client :: "string \<Rightarrow> string" where
  "forwarded_client xff =
     TrimSpace (case split_once (CHR '','') xff of Some (first, _) \<Rightarrow> first | None \<Rightarrow> xff)"

definition real_remote_addr :: "http_request \<Rightarrow> string" where
  "real_remote_addr r =
     (let peerIP = extractIP (hq_RemoteAddr r) in
      if peerIP = [] \<or> \<not> isTrustedProxy peerIP defaultTrustedProxies then hq_RemoteAddr r
      else let xff = Header r ''X-Forwarded-For''; xri = Header r ''X-Real-Ip'' in
        if xff \<noteq> [] then
          let clientIP = forwarded_client xff in
          if clientIP \<noteq> [] \<and> ParseIP clientIP \<noteq> None then clientIP else hq_RemoteAddr r
        else if xri \<noteq> [] \<and> ParseIP xri \<noteq> None then xri
        else hq_RemoteAddr r)"

definition RealIPFromTrustedProxy :: "('d, 's) handler \<Rightarrow> ('d, 's) handler" where
  "RealIPFromTrustedProxy next_handler r s = next_handler (r\<lparr>hq_RemoteAddr := real_remote_addr r\<rparr>) s"

text \<open>Without a trusted peer the request headers do not matter.\<close>

lemma untrusted_peer_address:
  "\<not> isTrustedProxy (extractIP (hq_RemoteAddr r)) defaultTrustedProxies \<Longrightarrow> real_remote_addr r = hq_RemoteAddr r"
  by (simp add: real_remote_addr_def Let_def)

lemma real_remote_addr_cases:
  "real_remote_addr r = hq_RemoteAddr r \<or> ParseIP (real_remote_addr r) \<noteq> None"
  by (auto simp: real_remote_addr_def Let_def)

end
