(* ===== verification/Idempotency.thy ===== *)
theory Idempotency
  imports Redis Auth
begin

text \<open>
  The idempotency middleware, \<^verbatim>\<open>internal/middleware/idempotency.go\<close>: the claim of a key in Redis before
  the handler, the caching or the release after it, and the replay. The two halves are separate
  functions because requests overlap between them: the middleware composes them around the next
  handler, the machine at the end interleaves them. The JSON text of a response body is a parameter.
\<close>

section \<open>The middleware\<close>

definition idempotencyTTL :: duration where "idempotencyTTL = 24 * 60 * minute"

definition processingMarker :: string where "processingMarker = ''__PROCESSING__''"

definition idem_applies :: "http_request \<Rightarrow> bool" where
  "idem_applies r \<longleftrightarrow> hq_Method r \<in> {''POST'', ''PUT'', ''PATCH''} \<and> Header r ''Idempotency-Key'' \<noteq> []"

definition redisKey :: "http_request \<Rightarrow> string" where
  "redisKey r =
     (let merchantID = (if MerchantIDFromContext r = [] then ''_anonymous'' else MerchantIDFromContext r) in
      ''idempotency:'' @ merchantID @ '':'' @ Header r ''Idempotency-Key'')"

definition cached_text :: "int \<Rightarrow> string \<Rightarrow> string" where
  "cached_text statusCode body = show_int statusCode @ '':'' @ body"

definition parseCachedResponse :: "string \<Rightarrow> int \<times> string" where
  "parseCachedResponse cached =
     (case split_once (CHR '':'') cached of
        Some (c # cs, body) \<Rightarrow>
          (case Atoi (c # cs) of (code, ok) \<Rightarrow> if ok then (code, body) else (200, cached))
      | _ \<Rightarrow> (200, cached))"

definition replayed :: "string \<Rightarrow> 'd http_response" where
  "replayed cached =
     (case parseCachedResponse cached of (statusCode, body) \<Rightarrow>
        \<lparr>hr_Status = statusCode, hr_Headers = json_header @ [(''X-Idempotent-Replayed'', ''true'')], hr_Body = Raw body\<rparr>)"

datatype 'd claim = Claimed | Answered "'d http_response"

definition idem_claim :: "'r redis_api \<Rightarrow> time \<Rightarrow> http_request \<Rightarrow> 'r \<Rightarrow> 'd claim \<times> 'r" where
  "idem_claim api now r rd =
     (case rd_SetNX api now (redisKey r) processingMarker idempotencyTTL rd of
        (Inl e, rd') \<Rightarrow>
          (Answered (raw_error 503 [] ''SERVICE_UNAVAILABLE''
             ''idempotency service temporarily unavailable, please retry''), rd')
      | (Inr True, rd') \<Rightarrow> (Claimed, rd')
      | (Inr False, rd') \<Rightarrow>
          (Answered (case rd_Get api now (redisKey r) rd' of
             Inl e \<Rightarrow> plain_error 500 ''IDEMPOTENCY_ERROR'' ''failed to read cached response''
           | Inr cached \<Rightarrow>
               if cached = processingMarker
               then raw_error 409 [] ''REQUEST_IN_PROGRESS'' ''a request with this idempotency key is already being processed''
               else replayed cached), rd'))"

definition cacheResponse :: "'r redis_api \<Rightarrow> time \<Rightarrow> string \<Rightarrow> int \<Rightarrow> string \<Rightarrow> 'r \<Rightarrow> 'r" where
  "cacheResponse api now key statusCode body rd =
     snd (rd_Set api now key (cached_text statusCode body) idempotencyTTL rd)"

definition idem_finish ::
  "'r redis_api \<Rightarrow> time \<Rightarrow> ('d http_body \<Rightarrow> string) \<Rightarrow> http_request \<Rightarrow> 'd http_response \<Rightarrow> 'r \<Rightarrow> 'r" where
  "idem_finish api now render r resp rd =
     (if 200 \<le> hr_Status resp \<and> hr_Status resp < 300
      then cacheResponse api now (redisKey r) (hr_Status resp) (render (hr_Body resp)) rd
      else snd (rd_Del api (redisKey r) rd))"

text \<open>
  A client that is not configured is \<open>None\<close>. A panic of the handler unwinds through the middleware,
  which neither caches nor releases.
\<close>

definition Idempotency ::
  "'r redis_api option \<Rightarrow> time \<Rightarrow> time \<Rightarrow> ('d http_body \<Rightarrow> string) \<Rightarrow> ('d, 's) handler \<Rightarrow> ('d, 'r \<times> 's) handler" where
  "Idempotency rdb now later render next_handler r rs =
     (case rs of (rd, s) \<Rightarrow>
      if \<not> idem_applies r then (case next_handler r s of (resp, s') \<Rightarrow> (resp, rd, s'))
      else case rdb of
        None \<Rightarrow> (case next_handler r s of (resp, s') \<Rightarrow> (resp, rd, s'))
      | Some api \<Rightarrow>
          (case idem_claim api now r rd of
             (Answered resp, rd') \<Rightarrow> (Some resp, rd', s)
           | (Claimed, rd') \<Rightarrow>
               (case next_handler r s of
                  (None, s') \<Rightarrow> (None, rd', s')
                | (Some resp, s') \<Rightarrow> (Some resp, idem_finish api later render r resp rd', s'))))"

section \<open>The cached text\<close>

lemma colon_not_in_show_int: "CHR '':'' \<notin> set (show_int n)"
  by (auto dest: show_int_bytes)

lemma parse_cached:
  assumes "- 9223372036854775808 \<le> code" and "code \<le> 9223372036854775807"
  shows "parseCachedResponse (cached_text code body) = (code, body)"
proof -
  have "split_once (CHR '':'') (cached_text code body) = Some (show_int code, body)"
    using split_once_append [OF colon_not_in_show_int, of code body] by (simp add: cached_text_def)
  moreover obtain c cs where "show_int code = c # cs" using show_int_neq [of code] by (cases "show_int code") auto
  moreover note Atoi_show_int [OF assms]
  ultimately show ?thesis by (simp add: parseCachedResponse_def)
qed

lemma cached_not_marker: "cached_text code body \<noteq> processingMarker"
proof -
  have "CHR '':'' \<in> set (cached_text code body)" by (simp add: cached_text_def)
  moreover have "CHR '':'' \<notin> set processingMarker" by (simp add: processingMarker_def)
  ultimately show ?thesis by metis
qed

text \<open>
  C39: what is cached can be read back: status and body survive the round trip through the text in
  Redis, whatever bytes the body has, and the text is never taken for the marker of a request in
  progress.
\<close>

theorem cached_response_roundtrip:
  assumes "- 9223372036854775808 \<le> code" and "code \<le> 9223372036854775807"
  shows "parseCachedResponse (cached_text code body) = (code, body) \<and> cached_text code body \<noteq> processingMarker"
  using parse_cached [OF assms] cached_not_marker by blast

section \<open>Merchants do not share keys\<close>

text \<open>
  Two merchants of the configuration never meet in Redis: requests that authentication let
  through for configured keys have the same Redis key only when merchant and idempotency key agree.
\<close>

theorem idempotency_keys_separate_merchants:
  assumes "k \<in> set (ParseMerchantKeys raw)" and "k' \<in> set (ParseMerchantKeys raw)"
    and "hq_Merchant r = Some (mk_MerchantID k)" and "hq_Merchant r' = Some (mk_MerchantID k')"
    and "redisKey r = redisKey r'"
  shows "mk_MerchantID k = mk_MerchantID k' \<and> Header r ''Idempotency-Key'' = Header r' ''Idempotency-Key''"
proof -
  let ?h = "\<lambda>r. Header r ''Idempotency-Key''"
  from parsed_identity [OF assms(1)] parsed_identity [OF assms(2)] assms(3-5)
  have "mk_MerchantID k @ CHR '':'' # ?h r = mk_MerchantID k' @ CHR '':'' # ?h r'"
    by (simp add: redisKey_def Let_def MerchantIDFromContext_def)
  then have "Some (mk_MerchantID k, ?h r) = Some (mk_MerchantID k', ?h r')"
    using split_once_append [OF parsed_identity(2) [OF assms(1)], of "?h r"]
      split_once_append [OF parsed_identity(2) [OF assms(2)], of "?h r'"] by metis
  then show ?thesis by simp
qed

section \<open>Replay\<close>

lemma idem_claim_new:
  assumes "redis_laws api view" and "redis_up api view" and "live now (view rd) (redisKey r) = None"
  obtains rd' where "idem_claim api now r rd = (Claimed, rd')"
    "view rd' = (view rd)(redisKey r \<mapsto> (processingMarker, now + idempotencyTTL))"
  using assms(1)
proof (cases rule: SetNX_cases [where now = now and k = "redisKey r" and v = processingMarker
      and ttl = idempotencyTTL and s = rd])
  case (claimed rd')
  from claimed that [of rd'] show thesis by (simp add: idem_claim_def)
next
  case (taken rd')
  with assms(3) show thesis by simp
next
  case (failed e rd')
  with redis_up_writes(1) [OF assms(2), of now "redisKey r" processingMarker idempotencyTTL rd] show thesis by simp
qed

lemma idem_claim_known:
  assumes "redis_laws api view" and "redis_up api view" and "live now (view rd) (redisKey r) = Some v"
    and "v \<noteq> processingMarker"
  obtains rd' where "idem_claim api now r rd = (Answered (replayed v), rd')" "view rd' = view rd"
  using assms(1)
proof (cases rule: SetNX_cases [where now = now and k = "redisKey r" and v = processingMarker
      and ttl = idempotencyTTL and s = rd])
  case (claimed rd')
  with assms(3) show thesis by simp
next
  case (taken rd')
  with assms(2,3) have "rd_Get api now (redisKey r) rd' = Inr v" by (simp add: redis_up_def)
  with taken assms(4) that [of rd'] show thesis by (simp add: idem_claim_def)
next
  case (failed e rd')
  with redis_up_writes(1) [OF assms(2), of now "redisKey r" processingMarker idempotencyTTL rd] show thesis by simp
qed

text \<open>
  C27: a repeated request is answered from the cache: with Redis reachable, after a first request
  under a key was handled with a 2xx status, every request with the same Redis key that comes
  before the 24 hours are over gets the same status and the same body, and the handler does not run.
  The path, the method and the body of the repeated request do not matter.
\<close>

theorem replay_returns_first_response:
  fixes h :: "('d, 's) handler"
  assumes "redis_laws api view" and "redis_up api view"
    and "idem_applies r" and "live now (view rd) (redisKey r) = None"
    and "h r s = (Some resp, s1)" and "200 \<le> hr_Status resp" and "hr_Status resp < 300"
    and "idem_applies r'" and "redisKey r' = redisKey r" and "now' < later + idempotencyTTL"
  shows "\<exists>rd1 rd2. Idempotency (Some api) now later render h r (rd, s) = (Some resp, rd1, s1)
    \<and> Idempotency (Some api) now' later' render h r' (rd1, s1) =
        (Some \<lparr>hr_Status = hr_Status resp,
               hr_Headers = [(''Content-Type'', ''application/json''), (''X-Idempotent-Replayed'', ''true'')],
               hr_Body = Raw (render (hr_Body resp))\<rparr>, rd2, s1)"
proof -
  let ?v = "cached_text (hr_Status resp) (render (hr_Body resp))"
  obtain rd' where c: "idem_claim api now r rd = (Claimed :: 'd claim, rd')"
    using idem_claim_new [OF assms(1,2,4)] .
  let ?rd1 = "idem_finish api later render r resp rd'"
  have "view ?rd1 = (view rd')(redisKey r \<mapsto> (?v, later + idempotencyTTL))"
    using assms(6,7) Set_up [OF assms(1,2)] by (simp add: idem_finish_def cacheResponse_def)
  then have live: "live now' (view ?rd1) (redisKey r') = Some ?v"
    using assms(9,10) by (simp add: live_def)
  from assms(6,7) have parse: "parseCachedResponse ?v = (hr_Status resp, render (hr_Body resp))"
    by (intro parse_cached) simp_all
  obtain rd2 where "idem_claim api now' r' ?rd1 = (Answered (replayed ?v :: 'd http_response), rd2)"
    using idem_claim_known [OF assms(1,2) live cached_not_marker] .
  with c parse assms(3,5,8) show ?thesis
    by (simp add: Idempotency_def replayed_def json_header_def)
qed

section \<open>Overlapping requests\<close>

text \<open>
  Requests under a key arrive, finish and crash in any order; \<open>im_running\<close> holds the requests whose
  handler runs, \<open>im_done\<close> the Redis keys of those that finished with a 2xx status.
\<close>

record 'r idem_state =
  im_redis :: 'r
  im_running :: "nat \<rightharpoonup> http_request"
  im_done :: "string list"

datatype 'd idem_event = Arrive nat time http_request | Finish nat time "'d http_response" | Crash nat

fun idem_step :: "'r redis_api \<Rightarrow> ('d http_body \<Rightarrow> string) \<Rightarrow> 'r idem_state \<Rightarrow> 'd idem_event \<Rightarrow> 'r idem_state" where
  "idem_step api render m (Arrive i now r) =
     (if im_running m i \<noteq> None then m
      else case idem_claim api now r (im_redis m) of
        (Claimed, rd) \<Rightarrow> m\<lparr>im_redis := rd, im_running := (im_running m)(i \<mapsto> r)\<rparr>
      | (Answered (resp :: 'd http_response), rd) \<Rightarrow> m\<lparr>im_redis := rd\<rparr>)"
| "idem_step api render m (Finish i now resp) =
     (case im_running m i of
        None \<Rightarrow> m
      | Some r \<Rightarrow>
          m\<lparr>im_redis := idem_finish api now render r resp (im_redis m),
            im_running := (im_running m)(i := None),
            im_done := (if 200 \<le> hr_Status resp \<and> hr_Status resp < 300 then redisKey r # im_done m else im_done m)\<rparr>)"
| "idem_step api render m (Crash i) = m\<lparr>im_running := (im_running m)(i := None)\<rparr>"

fun event_times :: "'d idem_event \<Rightarrow> time list" where
  "event_times (Arrive i now r) = [now]"
| "event_times (Finish i now resp) = [now]"
| "event_times (Crash i) = []"

definition held :: "keyspace \<Rightarrow> time \<Rightarrow> string \<Rightarrow> bool" where
  "held m horizon k \<longleftrightarrow> (\<exists>v e. m k = Some (v, e) \<and> horizon \<le> e)"

definition idem_inv :: "('r \<Rightarrow> keyspace) \<Rightarrow> time \<Rightarrow> 'r idem_state \<Rightarrow> bool" where
  "idem_inv view horizon m \<longleftrightarrow>
     (\<forall>i r. im_running m i = Some r \<longrightarrow> held (view (im_redis m)) horizon (redisKey r) \<and> redisKey r \<notin> set (im_done m))
   \<and> (\<forall>i j r r'. im_running m i = Some r \<longrightarrow> im_running m j = Some r' \<longrightarrow> redisKey r = redisKey r' \<longrightarrow> i = j)
   \<and> (\<forall>k \<in> set (im_done m). held (view (im_redis m)) horizon k) \<and> distinct (im_done m)"

lemma held_live: "held m horizon k \<Longrightarrow> now < horizon \<Longrightarrow> live now m k \<noteq> None"
  by (auto simp: held_def live_def)

lemma held_update: "held (m(k \<mapsto> (v, e))) horizon k' \<longleftrightarrow> (if k' = k then horizon \<le> e else held m horizon k')"
  by (auto simp: held_def)

lemma held_other: "k' \<noteq> k \<Longrightarrow> held (m(k := x)) horizon k' = held m horizon k'"
  by (simp add: held_def)

lemma idem_claim_outcome:
  assumes "redis_laws api view"
  shows "(\<exists>rd'. idem_claim api now r rd = (Claimed :: 'd claim, rd') \<and> live now (view rd) (redisKey r) = None
        \<and> view rd' = (view rd)(redisKey r \<mapsto> (processingMarker, now + idempotencyTTL)))
    \<or> (\<exists>resp rd'. idem_claim api now r rd = (Answered resp :: 'd claim, rd') \<and>
        (view rd' = view rd \<or> (live now (view rd) (redisKey r) = None
          \<and> view rd' = (view rd)(redisKey r \<mapsto> (processingMarker, now + idempotencyTTL)))))"
  using assms
proof (cases rule: SetNX_cases [where now = now and k = "redisKey r" and v = processingMarker
      and ttl = idempotencyTTL and s = rd])
  case (claimed rd')
  then show ?thesis by (simp add: idem_claim_def)
next
  case (taken rd')
  then show ?thesis by (simp add: idem_claim_def)
next
  case (failed e rd')
  then show ?thesis by (simp add: idem_claim_def)
qed

lemma idem_arrive_inv:
  fixes render :: "'d http_body \<Rightarrow> string"
  assumes laws: "redis_laws api view" and inv: "idem_inv view (t0 + idempotencyTTL) m"
    and time: "t0 \<le> now" "now < t0 + idempotencyTTL"
  shows "idem_inv view (t0 + idempotencyTTL) (idem_step api render m (Arrive i now r))"
proof (cases "im_running m i")
  case (Some x)
  with inv show ?thesis by simp
next
  case None
  let ?H = "t0 + idempotencyTTL" and ?k = "redisKey r"
  have kept: "held ((view (im_redis m))(?k \<mapsto> (processingMarker, now + idempotencyTTL))) ?H k"
    if "held (view (im_redis m)) ?H k" for k
    using that time by (simp add: held_update)
  have free: "\<forall>j r'. im_running m j = Some r' \<longrightarrow> redisKey r' \<noteq> ?k" "?k \<notin> set (im_done m)"
    if "live now (view (im_redis m)) ?k = None"
    using that inv held_live [OF _ time(2)] unfolding idem_inv_def by metis+
  from idem_claim_outcome [OF laws, of now r "im_redis m"] show ?thesis
  proof (elim disjE exE conjE)
    fix rd
    assume c: "idem_claim api now r (im_redis m) = (Claimed :: 'd claim, rd)"
      and dead: "live now (view (im_redis m)) ?k = None"
      and rd: "view rd = (view (im_redis m))(?k \<mapsto> (processingMarker, now + idempotencyTTL))"
    have "held (view rd) ?H ?k" using time by (simp add: rd held_update)
    moreover have "\<forall>j r'. im_running m j = Some r' \<longrightarrow> ?k \<noteq> redisKey r'" using free(1) [OF dead] by metis
    ultimately show ?thesis using inv free [OF dead] kept None
      by (auto simp: idem_inv_def c rd)
  next
    fix resp rd
    assume c: "idem_claim api now r (im_redis m) = (Answered resp :: 'd claim, rd)" and "view rd = view (im_redis m)"
    with inv None show ?thesis by (simp add: idem_inv_def)
  next
    fix resp rd
    assume c: "idem_claim api now r (im_redis m) = (Answered resp :: 'd claim, rd)"
      and "view rd = (view (im_redis m))(?k \<mapsto> (processingMarker, now + idempotencyTTL))"
    with inv None kept show ?thesis by (auto simp: idem_inv_def)
  qed
qed

lemma idem_finish_inv:
  fixes render :: "'d http_body \<Rightarrow> string"
  assumes laws: "redis_laws api view" and inv: "idem_inv view (t0 + idempotencyTTL) m" and time: "t0 \<le> now"
  shows "idem_inv view (t0 + idempotencyTTL) (idem_step api render m (Finish i now resp))"
proof (cases "im_running m i")
  case None
  with inv show ?thesis by simp
next
  case (Some r)
  let ?H = "t0 + idempotencyTTL" and ?k = "redisKey r"
  let ?rd = "idem_finish api now render r resp (im_redis m)"
  have other: "held (view ?rd) ?H k" if "held (view (im_redis m)) ?H k" "k \<noteq> ?k" for k
    using that Del_cases [OF laws, of ?k "im_redis m"]
      Set_cases [OF laws, of now ?k "cached_text (hr_Status resp) (render (hr_Body resp))" idempotencyTTL "im_redis m"]
    by (auto simp: idem_finish_def cacheResponse_def held_other)
  have own: "held (view ?rd) ?H ?k" if "200 \<le> hr_Status resp" "hr_Status resp < 300"
    using that Set_cases [OF laws, of now ?k "cached_text (hr_Status resp) (render (hr_Body resp))" idempotencyTTL "im_redis m"]
      inv Some time
    by (auto simp: idem_finish_def cacheResponse_def held_update idem_inv_def)
  from inv Some have alone: "\<forall>j r'. j \<noteq> i \<longrightarrow> im_running m j = Some r' \<longrightarrow> redisKey r' \<noteq> ?k" and new: "?k \<notin> set (im_done m)"
    unfolding idem_inv_def by metis+
  have "held (view ?rd) ?H k" if "k \<in> set (im_done m)" for k
    using that inv new by (intro other) (auto simp: idem_inv_def)
  with inv Some other own alone new show ?thesis unfolding idem_inv_def by auto
qed

lemma idem_run_inv:
  fixes render :: "'d http_body \<Rightarrow> string"
  assumes "redis_laws api view" and "idem_inv view (t0 + idempotencyTTL) m"
    and "\<forall>ev \<in> set evs. \<forall>t \<in> set (event_times ev). t0 \<le> t \<and> t < t0 + idempotencyTTL"
  shows "idem_inv view (t0 + idempotencyTTL) (foldl (idem_step api render) m evs)"
  using assms(2,3)
proof (induction evs arbitrary: m)
  case (Cons ev evs)
  have "idem_inv view (t0 + idempotencyTTL) (idem_step api render m ev)"
  proof (cases ev)
    case (Arrive i now r)
    with Cons.prems show ?thesis by (simp only: Arrive) (rule idem_arrive_inv [OF assms(1)], auto)
  next
    case (Finish i now resp)
    with Cons.prems show ?thesis by (simp only: Finish) (rule idem_finish_inv [OF assms(1)], auto)
  next
    case (Crash i)
    with Cons.prems(1) show ?thesis by (auto simp: idem_inv_def)
  qed
  with Cons show ?case by simp
qed simp

text \<open>
  C9: at most once: however requests overlap, crash and fail, and whatever commands of Redis fail, within
  24 hours at most one handler runs at a time under a Redis key, at most one request under a key
  is handled with success, and none runs after it.
\<close>

theorem handled_at_most_once:
  assumes "redis_laws api view"
    and "\<forall>ev \<in> set evs. \<forall>t \<in> set (event_times ev). t0 \<le> t \<and> t < t0 + idempotencyTTL"
    and "m = foldl (idem_step api render) \<lparr>im_redis = rd, im_running = Map.empty, im_done = []\<rparr> evs"
    and "im_running m i = Some r"
  shows "(\<exists>j r'. j \<noteq> i \<and> im_running m j = Some r' \<and> redisKey r' = redisKey r) = False
    \<and> redisKey r \<notin> set (im_done m) \<and> distinct (im_done m)"
proof -
  have "idem_inv view (t0 + idempotencyTTL) \<lparr>im_redis = rd, im_running = Map.empty, im_done = []\<rparr>"
    by (simp add: idem_inv_def)
  from idem_run_inv [OF assms(1) this assms(2)] assms(3,4) show ?thesis
    unfolding idem_inv_def by metis
qed

section \<open>Witnesses\<close>

definition keyed_request :: "string \<Rightarrow> string \<Rightarrow> string \<Rightarrow> http_request" where
  "keyed_request merchant path key =
     (request_from ''9.9.9.9:1'' [(''Idempotency-Key'', key)])\<lparr>hq_Method := ''POST'', hq_Path := path, hq_Merchant := Some merchant\<rparr>"

definition body_text :: "string http_body \<Rightarrow> string" where
  "body_text b = (case b of NoBody \<Rightarrow> [] | Raw s \<Rightarrow> s | Envelope e \<Rightarrow> (case ar_Data e of None \<Rightarrow> [] | Some d \<Rightarrow> d))"

lemma keyed_request_simps [simp]:
  "hq_Merchant (keyed_request m p k) = Some m" "hq_Method (keyed_request m p k) = ''POST''"
  "Header (keyed_request m p k) ''Idempotency-Key'' = k"
  by (simp_all add: keyed_request_def request_from_def Header_def value_of_def)

lemma keyed_request_key [simp]:
  "m \<noteq> [] \<Longrightarrow> redisKey (keyed_request m p k) = ''idempotency:'' @ m @ '':'' @ k"
  "k \<noteq> [] \<Longrightarrow> idem_applies (keyed_request m p k)"
  by (simp_all add: redisKey_def Let_def MerchantIDFromContext_def idem_applies_def)

lemma cached_response_roundtrip_witness:
  "parseCachedResponse (cached_text 201 ''{:}'') = (201, ''{:}'') \<and> cached_text 201 ''{:}'' \<noteq> processingMarker"
  by (rule cached_response_roundtrip) simp_all

lemma idempotency_keys_separate_merchants_witness:
  "mk_MerchantID (parse_key ''shop:k1'') = ''shop''
    \<and> Header (keyed_request ''shop'' ''/v1/payments'' ''x'') ''Idempotency-Key'' = ''x''"
proof -
  have "ParseMerchantKeys [''shop:k1''] = [parse_key ''shop:k1'']" by code_simp
  moreover have "mk_MerchantID (parse_key ''shop:k1'') = ''shop''" by code_simp
  ultimately show ?thesis
    using idempotency_keys_separate_merchants [of "parse_key ''shop:k1''" "[''shop:k1'']" "parse_key ''shop:k1''"
        "keyed_request ''shop'' ''/v1/payments'' ''x''" "keyed_request ''shop'' ''/v1/payments'' ''x''"] by simp
qed

lemma replay_returns_first_response_witness:
  "\<exists>rd1 rd2. Idempotency (Some mem_api) 0 1 body_text echo_handler (keyed_request ''shop'' ''/a'' ''x'') (mem_empty, 0)
      = (Some (JSON 0 200 ''shop''), rd1, 1)
    \<and> Idempotency (Some mem_api) 5 6 body_text echo_handler (keyed_request ''shop'' ''/b'' ''x'') (rd1, 1) =
        (Some \<lparr>hr_Status = 200,
               hr_Headers = [(''Content-Type'', ''application/json''), (''X-Idempotent-Replayed'', ''true'')],
               hr_Body = Raw ''shop''\<rparr>, rd2, 1)"
  using replay_returns_first_response [OF mem_laws, of "keyed_request ''shop'' ''/a'' ''x''" 0 mem_empty echo_handler 0
      "JSON 0 200 ''shop''" 1 "keyed_request ''shop'' ''/b'' ''x''" 5 1 body_text 6]
  by (simp add: mem_empty_def live_def echo_handler_def MerchantIDFromContext_def idempotencyTTL_def minute_def second_def
      JSON_def body_text_def)

lemma handled_at_most_once_witness:
  "redisKey (keyed_request ''shop'' ''/a'' ''x'') \<notin> set (im_done (foldl (idem_step mem_api body_text)
     \<lparr>im_redis = mem_empty, im_running = Map.empty, im_done = []\<rparr>
     [Arrive 1 0 (keyed_request ''shop'' ''/a'' ''x''), Arrive 2 1 (keyed_request ''shop'' ''/a'' ''x'')]))"
  using handled_at_most_once [OF mem_laws(1), of "[Arrive 1 0 (keyed_request ''shop'' ''/a'' ''x''),
      Arrive 2 1 (keyed_request ''shop'' ''/a'' ''x'')]" 0 _ body_text mem_empty 1 "keyed_request ''shop'' ''/a'' ''x''", OF _ refl]
  by (simp add: mem_empty_def mem_api_def live_def idem_claim_def idempotencyTTL_def minute_def second_def
      processingMarker_def)

end
