(* ===== verification/Server.thy ===== *)
theory Server
  imports Handler_Props Config Metrics Middleware Rate_Limit Real_IP Idempotency
begin

text \<open>
  The program as \<^verbatim>\<open>cmd/server/main.go\<close> puts it together: start-up from the configuration, the route
  table, the middleware chain and the handlers, over one state. Matching a path against the
  patterns is chi's, a function \<open>route_of\<close> of method and path; its documented behaviour is the interface
  \<open>mux\<close>. chi's time-out middleware acts through the context only: a request that runs into it is one
  whose later calls fail.
\<close>

section \<open>The state behind the handlers\<close>

text \<open>Every use of the authentication middleware has a tracker of failures of its own.\<close>

datatype auth_group = GroupMetrics | GroupPayments | GroupLedger | GroupAdmin

record ('w, 'r, 'p) backend =
  be_sys :: "'w sys"
  be_redis :: 'r
  be_pubsub :: 'p
  be_auth :: "auth_group \<Rightarrow> auth_tracker"

text \<open>A handler for a part of the state, put to work on the whole.\<close>

definition focus :: "('s \<Rightarrow> 'a) \<Rightarrow> ('a \<Rightarrow> 's \<Rightarrow> 's) \<Rightarrow> ('d, 'a) handler \<Rightarrow> ('d, 's) handler" where
  "focus get put h r s = (case h r (get s) of (resp, a) \<Rightarrow> (resp, put a s))"

locale part =
  fixes get :: "'s \<Rightarrow> 'a" and put :: "'a \<Rightarrow> 's \<Rightarrow> 's"
  assumes get_put: "get (put a s) = a"
    and put_get: "put (get s) s = s"
    and put_put: "put a (put b s) = put a s"
begin

lemma focus_fst: "fst (focus get put h r s) = fst (h r (get s))"
  by (simp add: focus_def split: prod.split)

lemma focus_get: "get (snd (focus get put h r s)) = snd (h r (get s))"
  by (simp add: focus_def get_put split: prod.split)

lemma focus_idle: "snd (h r (get s)) = get s \<Longrightarrow> snd (focus get put h r s) = s"
  by (cases "h r (get s)") (simp add: focus_def put_get)

lemma focus_focus: "focus get put (focus f p h) = focus (f \<circ> get) (\<lambda>a s. put (p a (get s)) s) h"
  by (intro ext) (simp add: focus_def split: prod.split)

end

text \<open>A part and something else that writing the part leaves alone.\<close>

locale part_beside = part get put for get :: "'s \<Rightarrow> 'a" and put :: "'a \<Rightarrow> 's \<Rightarrow> 's" +
  fixes other :: "'s \<Rightarrow> 'b"
  assumes other_put: "other (put a s) = other s"
begin

lemma focus_other: "other (snd (focus get put h r s)) = other s"
  by (simp add: focus_def other_put split: prod.split)

end

definition set_sys :: "'w sys \<Rightarrow> ('w, 'r, 'p) backend \<Rightarrow> ('w, 'r, 'p) backend" where
  "set_sys x b = b\<lparr>be_sys := x\<rparr>"

definition get_db :: "('w, 'r, 'p) backend \<Rightarrow> db" where "get_db b = sdb (be_sys b)"

definition set_db :: "db \<Rightarrow> ('w, 'r, 'p) backend \<Rightarrow> ('w, 'r, 'p) backend" where
  "set_db d b = b\<lparr>be_sys := (be_sys b)\<lparr>sdb := d\<rparr>\<rparr>"

definition get_queue :: "('w, 'r, 'p) backend \<Rightarrow> 'r \<times> db" where "get_queue b = (be_redis b, get_db b)"

definition set_queue :: "'r \<times> db \<Rightarrow> ('w, 'r, 'p) backend \<Rightarrow> ('w, 'r, 'p) backend" where
  "set_queue x b = (set_db (snd x) b)\<lparr>be_redis := fst x\<rparr>"

definition get_inbox :: "('w, 'r, 'p) backend \<Rightarrow> 'p \<times> db" where "get_inbox b = (be_pubsub b, get_db b)"

definition set_inbox :: "'p \<times> db \<Rightarrow> ('w, 'r, 'p) backend \<Rightarrow> ('w, 'r, 'p) backend" where
  "set_inbox x b = (set_db (snd x) b)\<lparr>be_pubsub := fst x\<rparr>"

definition get_recon :: "('w, 'r, 'p) backend \<Rightarrow> db \<times> 'w" where "get_recon b = (get_db b, world (be_sys b))"

definition set_recon :: "db \<times> 'w \<Rightarrow> ('w, 'r, 'p) backend \<Rightarrow> ('w, 'r, 'p) backend" where
  "set_recon x b = b\<lparr>be_sys := (be_sys b)\<lparr>sdb := fst x, world := snd x\<rparr>\<rparr>"

lemmas part_defs = set_sys_def get_db_def set_db_def get_queue_def set_queue_def get_inbox_def set_inbox_def
  get_recon_def set_recon_def

interpretation sys_part: part_beside be_sys set_sys "\<lambda>b. (be_redis b, be_pubsub b, be_auth b)"
  by unfold_locales (simp_all add: part_defs)

interpretation db_part: part_beside get_db set_db "\<lambda>b. (be_redis b, be_pubsub b, be_auth b)"
  by unfold_locales (simp_all add: part_defs)

interpretation queue_part: part_beside get_queue set_queue "\<lambda>b. (be_pubsub b, be_auth b)"
  by unfold_locales (simp_all add: part_defs)

interpretation inbox_part: part_beside get_inbox set_inbox "\<lambda>b. (be_redis b, be_auth b)"
  by unfold_locales (simp_all add: part_defs)

interpretation recon_part: part_beside get_recon set_recon "\<lambda>b. (be_redis b, be_pubsub b, be_auth b)"
  by unfold_locales (simp_all add: part_defs)

section \<open>Routes\<close>

datatype endpoint =
    EpHealthz
  | EpReadyz
  | EpMetrics
  | EpRoot
  | EpCreate
  | EpGet
  | EpCapture
  | EpRefund
  | EpCancel
  | EpBalance
  | EpEntries
  | EpWebhook
  | EpRecon
  | EpDiscrepancies
  | EpDLQList
  | EpDLQRetry
  | EpDLQPurge
  | EpStats
  | EpVolume
  | EpPSPHealth
  | EpRecent
  | EpActivity
  | EpStatic
  | EpUI

text \<open>Method, pattern and endpoint; a star is any method.\<close>

definition routes :: "(string \<times> string \<times> endpoint) list" where
  "routes =
     [(''GET'', ''/healthz'', EpHealthz), (''GET'', ''/readyz'', EpReadyz), (''GET'', ''/metrics'', EpMetrics),
      (''GET'', ''/v1/'', EpRoot),
      (''POST'', ''/v1/payments/'', EpCreate), (''GET'', ''/v1/payments/{id}'', EpGet),
      (''POST'', ''/v1/payments/{id}/capture'', EpCapture), (''POST'', ''/v1/payments/{id}/refund'', EpRefund),
      (''POST'', ''/v1/payments/{id}/cancel'', EpCancel),
      (''GET'', ''/v1/ledger/accounts/{code}/balance'', EpBalance), (''GET'', ''/v1/ledger/entries'', EpEntries),
      (''POST'', ''/v1/webhooks/{psp}'', EpWebhook),
      (''POST'', ''/v1/admin/reconciliation/{psp}'', EpRecon),
      (''GET'', ''/v1/admin/reconciliation/{id}/discrepancies'', EpDiscrepancies),
      (''GET'', ''/v1/admin/dlq/'', EpDLQList), (''POST'', ''/v1/admin/dlq/retry'', EpDLQRetry),
      (''DELETE'', ''/v1/admin/dlq/'', EpDLQPurge),
      (''GET'', ''/v1/admin/dashboard/stats'', EpStats), (''GET'', ''/v1/admin/dashboard/volume'', EpVolume),
      (''GET'', ''/v1/admin/dashboard/psp-health'', EpPSPHealth), (''GET'', ''/v1/admin/dashboard/payments'', EpRecent),
      (''GET'', ''/v1/admin/dashboard/activity'', EpActivity), (''*'', ''/v1/admin/dashboard/ui/*'', EpStatic),
      (''GET'', ''/v1/admin/dashboard/ui'', EpUI)]"

fun group_of :: "endpoint \<Rightarrow> auth_group option" where
  "group_of EpMetrics = Some GroupMetrics"
| "group_of EpCreate = Some GroupPayments"
| "group_of EpGet = Some GroupPayments"
| "group_of EpCapture = Some GroupPayments"
| "group_of EpRefund = Some GroupPayments"
| "group_of EpCancel = Some GroupPayments"
| "group_of EpBalance = Some GroupLedger"
| "group_of EpEntries = Some GroupLedger"
| "group_of EpHealthz = None"
| "group_of EpReadyz = None"
| "group_of EpRoot = None"
| "group_of EpWebhook = None"
| "group_of _ = Some GroupAdmin"

text \<open>
  What chi selects: an endpoint with its path parameters, or nothing, and then the answer it gives behind
  the middleware of the subrouter it had entered, if any.
\<close>

datatype selection = Selected endpoint "(string \<times> string) list" | Unmatched "auth_group option" reply

text \<open>chi's contract: only registered endpoints, with their method.\<close>

locale mux =
  fixes route_of :: "string \<Rightarrow> string \<Rightarrow> selection"
  assumes registered: "route_of m p = Selected ep ps \<Longrightarrow> \<exists>m' pat. (m', pat, ep) \<in> set routes \<and> (m' = m \<or> m' = ''*'')"
begin

lemma get_endpoints: "route_of ''GET'' p = Selected ep ps \<Longrightarrow>
    ep \<notin> {EpCreate, EpCapture, EpRefund, EpCancel, EpWebhook, EpRecon, EpDLQRetry, EpDLQPurge}"
  by (drule registered) (auto simp: routes_def)

end

section \<open>The application\<close>

record ('w, 'r, 'p) app =
  ap_keys :: "merchant_key list"
  ap_adapters :: "string \<rightharpoonup> 'w psp_adapter"
  ap_redis :: "'r redis_api option"
  ap_pubsub :: "'p pubsub_client option"
  ap_addr :: string

text \<open>The codecs, and what is new with every request: readings of clocks and of other components.\<close>

record app_lib =
  al_requests :: request_lib
  al_web :: web_lib
  al_dlq :: dlq_codec
  al_render :: "payload http_body \<Rightarrow> string"

record moment =
  mo_now :: time
  mo_end :: time
  mo_lookup :: env
  mo_env :: env
  mo_request_id :: string
  mo_trace :: "string option"
  mo_db_up :: bool
  mo_redis_up :: bool
  mo_runtime :: runtime_stats
  mo_static :: "string \<Rightarrow> reply"

definition root_reply :: reply where
  "root_reply =
     \<lparr>hr_Status = 200, hr_Headers = json_header,
      hr_Body = Raw (''{'' @ quoted ''service'' @ '':'' @ quoted ''payment-orchestrator'' @ '','' @ quoted ''version'' @ '':''
        @ quoted ''v1'' @ ''}'')\<rparr>"

definition ui_redirect :: reply where
  "ui_redirect =
     \<lparr>hr_Status = 301, hr_Headers = [(''Location'', ''/v1/admin/dashboard/ui/index.html'')], hr_Body = NoBody\<rparr>"

definition reply_with :: "reply \<Rightarrow> (payload, 's) handler" where
  "reply_with resp r s = (Some resp, s)"

definition endpoint_handler ::
  "('w, 'r, 'p) app \<Rightarrow> app_lib \<Rightarrow> moment \<Rightarrow> endpoint \<Rightarrow> (payload, http_metrics \<times> ('w, 'r, 'p) backend) handler" where
  "endpoint_handler ap lib mo ep =
     (let now = mo_now mo; look = mo_lookup mo; env = mo_env mo in
      case ep of
        EpHealthz \<Rightarrow> beside (Health now)
      | EpReadyz \<Rightarrow> beside (Ready (Some (mo_db_up mo)) (map_option (\<lambda>_. mo_redis_up mo) (ap_redis ap)) now)
      | EpMetrics \<Rightarrow> MetricsHandler (mo_runtime mo)
      | EpRoot \<Rightarrow> beside (reply_with root_reply)
      | EpCreate \<Rightarrow> beside (focus be_sys set_sys (CreatePaymentHandler (al_requests lib) env now))
      | EpGet \<Rightarrow> beside (focus be_sys set_sys (GetPaymentHandler look now))
      | EpCapture \<Rightarrow> beside (focus be_sys set_sys (CapturePaymentHandler look env now))
      | EpRefund \<Rightarrow> beside (focus be_sys set_sys (RefundPaymentHandler (al_requests lib) look env now))
      | EpCancel \<Rightarrow> beside (focus be_sys set_sys (CancelPaymentHandler look env now))
      | EpBalance \<Rightarrow> beside (focus get_db set_db (GetAccountBalanceHandler env now))
      | EpEntries \<Rightarrow> beside (focus get_db set_db (GetRecentEntriesHandler env now))
      | EpWebhook \<Rightarrow> beside (focus get_inbox set_inbox (HandleWebhook (al_web lib) (ap_adapters ap) (ap_pubsub ap) env now))
      | EpRecon \<Rightarrow> beside (focus get_recon set_recon (TriggerReconciliation (ap_adapters ap) env now))
      | EpDiscrepancies \<Rightarrow> beside (focus get_db set_db (GetDiscrepanciesHandler env now))
      | EpDLQList \<Rightarrow> beside (focus get_queue set_queue (ListEntriesHandler (ap_redis ap) (al_dlq lib) now))
      | EpDLQRetry \<Rightarrow> beside (focus get_queue set_queue
            (RetryEntryHandler (al_requests lib) (ap_redis ap) (al_dlq lib) (al_web lib) (ap_adapters ap) env now))
      | EpDLQPurge \<Rightarrow> beside (focus get_queue set_queue (PurgeQueueHandler (ap_redis ap) now))
      | EpStats \<Rightarrow> beside (focus be_sys set_sys (GetStatsHandler env now))
      | EpVolume \<Rightarrow> beside (focus be_sys set_sys (GetDailyVolumeHandler env now))
      | EpPSPHealth \<Rightarrow> beside (focus be_sys set_sys (GetPSPHealthHandler env now))
      | EpRecent \<Rightarrow> beside (focus be_sys set_sys (GetRecentPaymentsHandler env now))
      | EpActivity \<Rightarrow> beside (focus be_sys set_sys (GetActivityFeedHandler env now))
      | EpStatic \<Rightarrow> beside (\<lambda>r. reply_with (mo_static mo (hq_Path r)) r)
      | EpUI \<Rightarrow> beside (reply_with ui_redirect))"

text \<open>The middleware of a group, on its own part of the state.\<close>

definition authenticated ::
  "merchant_key list \<Rightarrow> time \<Rightarrow> auth_group \<Rightarrow> ('d, 'm \<times> ('w, 'r, 'p) backend) handler \<Rightarrow> ('d, 'm \<times> ('w, 'r, 'p) backend) handler" where
  "authenticated keys now g h r mb =
     (case APIKeyAuth keys now h r (be_auth (snd mb) g, mb) of
        (resp, t, m, b) \<Rightarrow> (resp, m, b\<lparr>be_auth := (be_auth b)(g := t)\<rparr>))"

definition idempotent ::
  "'r redis_api option \<Rightarrow> time \<Rightarrow> time \<Rightarrow> ('d http_body \<Rightarrow> string) \<Rightarrow> ('d, 'm \<times> ('w, 'r, 'p) backend) handler \<Rightarrow>
   ('d, 'm \<times> ('w, 'r, 'p) backend) handler" where
  "idempotent rdb now later render h r mb =
     (case Idempotency rdb now later render h r (be_redis (snd mb), mb) of
        (resp, rd, m, b) \<Rightarrow> (resp, m, b\<lparr>be_redis := rd\<rparr>))"

definition group_middleware ::
  "('w, 'r, 'p) app \<Rightarrow> app_lib \<Rightarrow> moment \<Rightarrow> auth_group option \<Rightarrow>
   (payload, 'm \<times> ('w, 'r, 'p) backend) handler \<Rightarrow> (payload, 'm \<times> ('w, 'r, 'p) backend) handler" where
  "group_middleware ap lib mo g h =
     (case g of
        None \<Rightarrow> h
      | Some GroupPayments \<Rightarrow>
          authenticated (ap_keys ap) (mo_now mo) GroupPayments
            (idempotent (ap_redis ap) (mo_now mo) (mo_end mo) (al_render lib) h)
      | Some g' \<Rightarrow> authenticated (ap_keys ap) (mo_now mo) g' h)"

definition routed ::
  "(string \<Rightarrow> string \<Rightarrow> selection) \<Rightarrow> ('w, 'r, 'p) app \<Rightarrow> app_lib \<Rightarrow> moment \<Rightarrow>
   (payload, http_metrics \<times> ('w, 'r, 'p) backend) handler" where
  "routed route_of ap lib mo r =
     (case route_of (hq_Method r) (hq_Path r) of
        Selected ep ps \<Rightarrow> group_middleware ap lib mo (group_of ep) (endpoint_handler ap lib mo ep) (r\<lparr>hq_Params := ps\<rparr>)
      | Unmatched g resp \<Rightarrow> group_middleware ap lib mo g (reply_with resp) r)"

text \<open>The trace id is announced before the next handler runs.\<close>

definition Tracing :: "string option \<Rightarrow> ('d, 's) handler \<Rightarrow> ('d, 's) handler" where
  "Tracing trace next_handler r s =
     with_headers (case trace of None \<Rightarrow> [] | Some t \<Rightarrow> [(''X-Trace-ID'', t)]) (next_handler r s)"

definition RequestID :: "string \<Rightarrow> ('d, 's) handler \<Rightarrow> ('d, 's) handler" where
  "RequestID i next_handler r s = next_handler (r\<lparr>hq_RequestID := i\<rparr>) s"

definition serve_request ::
  "(string \<Rightarrow> string \<Rightarrow> selection) \<Rightarrow> ('w, 'r, 'p) app \<Rightarrow> app_lib \<Rightarrow> moment \<Rightarrow>
   (payload, rate_limiter \<times> log_record list \<times> http_metrics \<times> ('w, 'r, 'p) backend) handler" where
  "serve_request route_of ap lib mo =
     RequestID (mo_request_id mo)
       (Tracing (mo_trace mo)
         (RealIPFromTrustedProxy
           (CORS DefaultCORSConfig
             (SecurityHeaders
               (MaxBodySize 1048576
                 (RateLimiter_Handler (mo_now mo)
                   (Logger (mo_now mo) (mo_end mo) (al_render lib)
                     (Recoverer
                       (HTTPMetrics (mo_now mo) (mo_end mo) (routed route_of ap lib mo))))))))))"

section \<open>Start-up\<close>

text \<open>What the outside answers while the program starts.\<close>

record ('r, 'p) outside =
  ou_parseFloat :: "string \<Rightarrow> rat option"
  ou_migrate_new :: "string \<Rightarrow> string \<Rightarrow> err option"
  ou_migrate_up :: migrate_result
  ou_pool :: pool_driver
  ou_redis_ping :: "string \<Rightarrow> string \<Rightarrow> int \<Rightarrow> err option"
  ou_redis :: "'r redis_api"
  ou_pubsub :: "'p pubsub_api"
  ou_codec :: wm_codec
  ou_hmac :: "string \<Rightarrow> string \<Rightarrow> string"

datatype 'a start = Panicked string | Exited | Running 'a

definition default_mock_rule :: routing_rule where
  "default_mock_rule =
     \<lparr>ru_Name = ''default_mock_rule'',
      ru_Conditions = \<lparr>MinAmount = None, MaxAmount = None, rc_Currency = [], rc_Country = [], rc_CountryNe = []\<rparr>,
      ru_PrimaryPSP = PSPMock, ru_FallbackPSP = [], ru_Priority = 100\<rparr>"

definition initial_router :: "(string \<Rightarrow> string \<Rightarrow> string) \<Rightarrow> string \<Rightarrow> mock_world router" where
  "initial_router hmac server_env =
     (if server_env \<noteq> ''production''
      then LoadRules [default_mock_rule]
             (RegisterAdapter PSPMock (NewMockPSP hmac DefaultMockConfig) NewPaymentRouter)
      else NewPaymentRouter)"

definition pubsub_config_of :: "pubsub_settings \<Rightarrow> pubsub_config" where
  "pubsub_config_of px =
     \<lparr>pc_ProjectID = px_ProjectID px, pc_WebhookTopicID = px_WebhookTopicID px, pc_EventTopicID = px_EventTopicID px,
      pc_SubscriptionID = px_SubscriptionID px, pc_DLQTopicID = px_DLQTopicID px, pc_DLQSubID = px_DLQSubID px,
      pc_MaxRetries = px_MaxRetries px, pc_Enabled = px_Enabled px\<rparr>"

definition connect_pubsub ::
  "'p pubsub_api \<Rightarrow> wm_codec \<Rightarrow> pubsub_settings \<Rightarrow> 'p \<Rightarrow> (err + 'p pubsub_client option) \<times> 'p" where
  "connect_pubsub api codec px p =
     (if px_Enabled px
      then (case NewClient api (pubsub_config_of px) p of
              (Inl e, p') \<Rightarrow> (Inl e, p')
            | (Inr cfg, p') \<Rightarrow> (Inr (Some (api, cfg, codec)), p'))
      else (Inr None, p))"

text \<open>A failure to set up tracing or to reach Redis is only logged.\<close>

definition start_server ::
  "('r, 'p) outside \<Rightarrow> variables \<Rightarrow> 'p \<Rightarrow> ((mock_world, 'r, 'p) app \<times> mock_world router) start \<times> 'p" where
  "start_server ou vars p =
     (case Load (ou_parseFloat ou) vars of
        Inl msg \<Rightarrow> (Panicked msg, p)
      | Inr cfg \<Rightarrow>
        (case RunMigrations (ou_migrate_new ou) (ou_migrate_up ou) (cf_Database cfg) ''migrations'' of
           Inl e \<Rightarrow> (Exited, p)
         | Inr _ \<Rightarrow>
           (case NewPool (ou_pool ou) (cf_Database cfg) of
              Inl e \<Rightarrow> (Exited, p)
            | Inr _ \<Rightarrow>
              let rdb = (case NewRedisClient (ou_redis_ping ou) (cf_Redis cfg) of
                           Inl e \<Rightarrow> None | Inr _ \<Rightarrow> Some (ou_redis ou));
                  rt = initial_router (ou_hmac ou) (sc_Env (cf_Server cfg)) in
              (case connect_pubsub (ou_pubsub ou) (ou_codec ou) (cf_PubSub cfg) p of
                 (Inl e, p') \<Rightarrow> (Exited, p')
               | (Inr client, p') \<Rightarrow>
                   let keys = ParseMerchantKeys (cf_APIKeys cfg) in
                   if keys = [] \<and> sc_Env (cf_Server cfg) = ''production'' then (Exited, p')
                   else (Running (\<lparr>ap_keys = keys, ap_adapters = GetAdapters rt, ap_redis = rdb, ap_pubsub = client,
                                   ap_addr = '':'' @ show_int (sc_Port (cf_Server cfg))\<rparr>, rt), p')))))"

end
