(* ===== verification/Server_Props.thy ===== *)
theory Server_Props
  imports Server
begin

text \<open>
  What the assembled server guarantees: every request is answered, all but preflights with the security headers, only
  requests with a configured key get behind the protected routes, reading requests change nothing,
  a request for a payment of somebody else only gets refusals from the handlers; and what a production
  start leaves without function.
\<close>

section \<open>The outer chain\<close>

text \<open>The request as the routed handler sees it.\<close>

definition seen :: "moment \<Rightarrow> http_request \<Rightarrow> http_request" where
  "seen mo r =
     (let r1 = r\<lparr>hq_RequestID := mo_request_id mo\<rparr> in
      r1\<lparr>hq_RemoteAddr := real_remote_addr r1,
         hq_MaxBytes := Some (case hq_MaxBytes r of None \<Rightarrow> 1048576 | Some n \<Rightarrow> min n 1048576)\<rparr>)"

lemma seen_simps [simp]:
  "hq_Method (seen mo r) = hq_Method r" "hq_Path (seen mo r) = hq_Path r" "hq_Headers (seen mo r) = hq_Headers r"
  "hq_Params (seen mo r) = hq_Params r" "hq_Merchant (seen mo r) = hq_Merchant r" "hq_Query (seen mo r) = hq_Query r"
  by (simp_all add: seen_def Let_def)

lemma seen_token [simp]: "extractBearerToken (seen mo r) = extractBearerToken r"
  by (simp add: extractBearerToken_def Header_def)

definition counted :: "http_metrics \<Rightarrow> http_metrics" where
  "counted m =
     m\<lparr>hm_ActiveConnections := gauge_Inc (hm_ActiveConnections m), hm_HTTPRequestsTotal := counter_Inc (hm_HTTPRequestsTotal m)\<rparr>"

text \<open>
  Either the chain answers by itself, a preflight or a refusal of the rate limiter, and nothing behind
  it is touched; or the routed handler runs once, and its answer, or a 500 if it panics, goes out with
  the headers of the chain in front.
\<close>

lemma no_data_raw_error [simp]: "no_data (raw_error st hs c m)"
  by (simp add: no_data_def raw_error_def)

text \<open>
  The fixed texts with which the middleware and the payment handlers refuse a request. A refusal has no
  body or one of them, in an envelope or as the literal the middleware writes, and nothing else.
\<close>

definition refusals :: "(string \<times> string) list" where
  "refusals =
     [(''UNAUTHORIZED'', ''API authentication not configured''),
      (''RATE_LIMITED'', ''too many failed auth attempts, please retry later''),
      (''UNAUTHORIZED'', ''missing or invalid Authorization header''), (''FORBIDDEN'', ''invalid API key''),
      (''RATE_LIMITED'', ''too many requests, please retry later''),
      (''SERVICE_UNAVAILABLE'', ''idempotency service temporarily unavailable, please retry''),
      (''IDEMPOTENCY_ERROR'', ''failed to read cached response''),
      (''REQUEST_IN_PROGRESS'', ''a request with this idempotency key is already being processed''),
      (''INVALID_REQUEST'', ''payment ID is required''), (''INVALID_REQUEST'', ''malformed json payload''),
      (''VALIDATION_FAILED'', ''amount must be greater than zero''),
      (''VALIDATION_FAILED'', ''refund amount exceeds maximum allowed value''),
      (''NOT_FOUND'', ''payment not found''), (''INTERNAL_ERROR'', ''failed to fetch payment''),
      (''INTERNAL_ERROR'', ''failed to capture payment''), (''INTERNAL_ERROR'', ''failed to refund payment''),
      (''INTERNAL_ERROR'', ''failed to cancel payment'')]"

definition refusal_body :: "string \<Rightarrow> string \<Rightarrow> payload http_body \<Rightarrow> bool" where
  "refusal_body c m body \<longleftrightarrow>
     body = hr_Body (raw_error 0 [] c m :: reply) \<or> body = hr_Body (plain_error 0 c m :: reply)
   \<or> (\<exists>now. body = hr_Body (HttpError now 0 c m :: reply))"

definition refuses :: "reply \<Rightarrow> bool" where
  "refuses resp \<longleftrightarrow> hr_Body resp = NoBody \<or> (\<exists>(c, m) \<in> set refusals. refusal_body c m (hr_Body resp))"

lemma refuses_body: "hr_Body resp = hr_Body y \<Longrightarrow> refuses resp = refuses y"
  by (simp add: refuses_def)

lemma refuses_texts [simp]:
  "(c, m) \<in> set refusals \<Longrightarrow> refuses (raw_error st hs c m)" "(c, m) \<in> set refusals \<Longrightarrow> refuses (plain_error st c m)"
  "(c, m) \<in> set refusals \<Longrightarrow> refuses (HttpError now st c m)" "refuses \<lparr>hr_Status = st, hr_Headers = hs, hr_Body = NoBody\<rparr>"
  by (auto simp: refuses_def refusal_body_def raw_error_def plain_error_def HttpError_def intro!: bexI [of _ "(c, m)"])

lemma refuses_no_data: "refuses resp \<Longrightarrow> no_data resp"
  by (auto simp: refuses_def refusal_body_def no_data_def raw_error_def plain_error_def HttpError_def)

lemma in_refusals [simp]:
  "(''UNAUTHORIZED'', ''API authentication not configured'') \<in> set refusals"
  "(''RATE_LIMITED'', ''too many failed auth attempts, please retry later'') \<in> set refusals"
  "(''UNAUTHORIZED'', ''missing or invalid Authorization header'') \<in> set refusals"
  "(''FORBIDDEN'', ''invalid API key'') \<in> set refusals"
  "(''RATE_LIMITED'', ''too many requests, please retry later'') \<in> set refusals"
  "(''SERVICE_UNAVAILABLE'', ''idempotency service temporarily unavailable, please retry'') \<in> set refusals"
  "(''IDEMPOTENCY_ERROR'', ''failed to read cached response'') \<in> set refusals"
  "(''REQUEST_IN_PROGRESS'', ''a request with this idempotency key is already being processed'') \<in> set refusals"
  "(''INVALID_REQUEST'', ''payment ID is required'') \<in> set refusals"
  "(''INVALID_REQUEST'', ''malformed json payload'') \<in> set refusals"
  "(''VALIDATION_FAILED'', ''amount must be greater than zero'') \<in> set refusals"
  "(''VALIDATION_FAILED'', ''refund amount exceeds maximum allowed value'') \<in> set refusals"
  "(''NOT_FOUND'', ''payment not found'') \<in> set refusals"
  "(''INTERNAL_ERROR'', ''failed to fetch payment'') \<in> set refusals"
  "(''INTERNAL_ERROR'', ''failed to capture payment'') \<in> set refusals"
  "(''INTERNAL_ERROR'', ''failed to refund payment'') \<in> set refusals"
  "(''INTERNAL_ERROR'', ''failed to cancel payment'') \<in> set refusals"
  by (simp_all add: refusals_def)

definition answered_early :: "http_request \<Rightarrow> reply \<Rightarrow> bool" where
  "answered_early r resp \<longleftrightarrow>
     refuses resp \<and> hr_Status resp = (if hq_Method r = ''OPTIONS'' then 204 else 429)"

lemma serve_request_cases:
  fixes m :: http_metrics
  obtains (early) resp rl' logs' where
      "serve_request route_of ap lib mo r (rl, logs, m, b) = (Some resp, rl', logs', m, b)" "answered_early r resp"
      "hq_Method r = ''OPTIONS'' \<or> \<not> fst (allow (mo_now mo) (hq_RemoteAddr (seen mo r)) rl)"
  | (late) x m1 resp rl' logs' m' b' where
      "routed route_of ap lib mo (seen mo r) (counted m, b) = (x, m1, b')"
      "serve_request route_of ap lib mo r (rl, logs, m, b) = (Some resp, rl', logs', m', b')"
      "hq_Method r \<noteq> ''OPTIONS''"
      "(case x of None \<Rightarrow> hr_Status resp = 500 | Some y \<Rightarrow> hr_Status resp = hr_Status y \<and> hr_Body resp = hr_Body y)"
proof -
  let ?r = "r\<lparr>hq_RequestID := mo_request_id mo\<rparr>"
  let ?q = "?r\<lparr>hq_RemoteAddr := real_remote_addr ?r\<rparr>"
  have q: "?q\<lparr>hq_MaxBytes := Some (case hq_MaxBytes ?q of None \<Rightarrow> 1048576 | Some n \<Rightarrow> min n 1048576)\<rparr> = seen mo r"
    by (simp add: seen_def Let_def)
  obtain x m1 b' where x: "routed route_of ap lib mo (seen mo r) (counted m, b) = (x, m1, b')" by (metis surj_pair)
  obtain ok rl' where ok: "allow (mo_now mo) (hq_RemoteAddr (seen mo r)) rl = (ok, rl')" by (metis surj_pair)
  note chain = serve_request_def RequestID_def Tracing_def RealIPFromTrustedProxy_def CORS_def SecurityHeaders_def
    MaxBodySize_def with_headers_def
  show thesis
  proof (cases "hq_Method r = ''OPTIONS''")
    case True
    then show thesis by (intro early) (auto simp: chain answered_early_def refuses_def)
  next
    case no_preflight: False
    show thesis
    proof (cases ok)
      case False
      with no_preflight ok show thesis
        by (intro early) (auto simp: chain q [simplified] RateLimiter_Handler_def limit_exceeded_def answered_early_def
            refuses_body [OF add_headers_simps(2)])
    next
      case True
      with no_preflight ok x have "\<exists>resp logs' m'. serve_request route_of ap lib mo r (rl, logs, m, b) = (Some resp, rl', logs', m', b')
          \<and> (case x of None \<Rightarrow> hr_Status resp = 500 | Some y \<Rightarrow> hr_Status resp = hr_Status y \<and> hr_Body resp = hr_Body y)"
        by (cases x) (simp_all add: chain q [simplified] RateLimiter_Handler_def Logger_def Recoverer_def
            HTTPMetrics_def counted_def Let_def)
      with late [OF x] no_preflight show thesis by blast
    qed
  qed
qed

section \<open>The middleware of a group\<close>

definition presents_key :: "merchant_key list \<Rightarrow> http_request \<Rightarrow> string \<Rightarrow> bool" where
  "presents_key keys r merchant \<longleftrightarrow>
     keys \<noteq> [] \<and> extractBearerToken r \<noteq> [] \<and> validateKeyAndGetMerchant (extractBearerToken r) keys = merchant
     \<and> merchant \<noteq> []"

lemma authenticated_cases:
  fixes h :: "(payload, 'm \<times> ('w, 'r, 'p) backend) handler"
  obtains (refused) resp au where "authenticated keys now g h r (m, b) = (Some resp, m, b\<lparr>be_auth := au\<rparr>)"
      "hr_Status resp \<in> {401, 403, 429} \<and> refuses resp"
  | (admitted) merchant x m' b' au where "presents_key keys r merchant"
      "h (r\<lparr>hq_Merchant := Some merchant\<rparr>) (m, b) = (x, m', b')"
      "authenticated keys now g h r (m, b) = (x, m', b'\<lparr>be_auth := au\<rparr>)"
proof -
  let ?merchant = "validateKeyAndGetMerchant (extractBearerToken r) keys"
  obtain x m' b' where x: "h (r\<lparr>hq_Merchant := Some ?merchant\<rparr>) (m, b) = (x, m', b')" by (metis surj_pair)
  obtain blocked t where t: "isBlocked now (hq_RemoteAddr r) (be_auth b g) = (blocked, t)" by (metis surj_pair)
  note auth = authenticated_def APIKeyAuth_def Let_def t
  consider "keys = []" | "keys \<noteq> []" "blocked" | "keys \<noteq> []" "\<not> blocked" "extractBearerToken r = []"
    | "keys \<noteq> []" "\<not> blocked" "extractBearerToken r \<noteq> []" "?merchant = []"
    | "keys \<noteq> []" "\<not> blocked" "extractBearerToken r \<noteq> []" "?merchant \<noteq> []" by blast
  then show thesis
  proof cases
    case 1
    with refused [of _ "be_auth b"] show thesis by (simp add: auth)
  next
    case 2
    with refused show thesis by (simp add: auth)
  next
    case 3
    with refused show thesis by (simp add: auth)
  next
    case 4
    with refused show thesis by (simp add: auth)
  next
    case 5
    with x have "authenticated keys now g h r (m, b)
        = (x, m', b'\<lparr>be_auth := (be_auth b')(g := resetFailures (hq_RemoteAddr r) t)\<rparr>)"
      by (simp add: auth)
    with 5 x admitted [of ?merchant] show thesis by (simp add: presents_key_def)
  qed
qed

lemma idempotent_cases:
  fixes h :: "(payload, 'm \<times> ('w, 'r, 'p) backend) handler"
  obtains (answered) x rd where "idempotent rdb now later render h r (m, b) = (x, m, b\<lparr>be_redis := rd\<rparr>)" "idem_applies r"
  | (passed) x m' b' rd where "h r (m, b) = (x, m', b')"
      "idempotent rdb now later render h r (m, b) = (x, m', b'\<lparr>be_redis := rd\<rparr>)"
      "\<not> idem_applies r \<longrightarrow> rd = be_redis b"
proof -
  obtain x m' b' where x: "h r (m, b) = (x, m', b')" by (metis surj_pair)
  show thesis
  proof (cases "idem_applies r \<and> rdb \<noteq> None")
    case False
    with x show thesis
      by (intro passed [OF x]) (auto simp: idempotent_def Idempotency_def)
  next
    case True
    then obtain api where api: "rdb = Some api" by blast
    obtain c rd' where c: "idem_claim api now r (be_redis b) = (c :: payload claim, rd')" by (metis surj_pair)
    show thesis
    proof (cases c)
      case Claimed
      with True api c x have "\<exists>rd. idempotent rdb now later render h r (m, b) = (x, m', b'\<lparr>be_redis := rd\<rparr>)"
        by (cases x) (simp_all add: idempotent_def Idempotency_def, blast+)
      with passed [OF x] True show thesis by blast
    next
      case (Answered resp)
      with True api c have "idempotent rdb now later render h r (m, b) = (Some resp, m, b\<lparr>be_redis := rd'\<rparr>)"
        by (simp add: idempotent_def Idempotency_def)
      with answered True show thesis by blast
    qed
  qed
qed

lemma group_middleware_cases:
  fixes h :: "(payload, 'm \<times> ('w, 'r, 'p) backend) handler"
  obtains (blocked) x rd au where "group_middleware ap lib mo g h r (m, b) = (x, m, b\<lparr>be_redis := rd, be_auth := au\<rparr>)"
      "idem_applies r \<or> rd = be_redis b"
      "(\<exists>i. presents_key (ap_keys ap) r i) \<or> rd = be_redis b"
      "idem_applies r \<and> (\<exists>i. presents_key (ap_keys ap) r i)
        \<or> (\<exists>y. x = Some y \<and> hr_Status y \<in> {401, 403, 429} \<and> no_data y)"
  | (ran) merchant x m' b' rd au where "h (r\<lparr>hq_Merchant := merchant\<rparr>) (m, b) = (x, m', b')"
      "group_middleware ap lib mo g h r (m, b) = (x, m', b'\<lparr>be_redis := rd, be_auth := au\<rparr>)"
      "idem_applies r \<or> rd = be_redis b \<or> rd = be_redis b'"
      "if g = None then merchant = hq_Merchant r else \<exists>i. merchant = Some i \<and> presents_key (ap_keys ap) r i"
proof (cases g)
  case None
  obtain x m' b' where h: "h r (m, b) = (x, m', b')" by (metis surj_pair)
  with None ran [where merchant = "hq_Merchant r" and x = x and m' = m' and b' = b' and rd = "be_redis b'"
      and au = "be_auth b'"]
  show thesis by (simp add: group_middleware_def)
next
  case (Some g')
  define k where "k = (if g' = GroupPayments then idempotent (ap_redis ap) (mo_now mo) (mo_end mo) (al_render lib) h else h)"
  have eq: "group_middleware ap lib mo g h r (m, b) = authenticated (ap_keys ap) (mo_now mo) g' k r (m, b)"
    by (cases g') (simp_all add: group_middleware_def Some k_def)
  show thesis
  proof (rule authenticated_cases [of "ap_keys ap" "mo_now mo" g' k r m b])
    fix resp au
    assume "authenticated (ap_keys ap) (mo_now mo) g' k r (m, b) = (Some resp, m, b\<lparr>be_auth := au\<rparr>)"
      "hr_Status resp \<in> {401, 403, 429} \<and> refuses resp"
    with eq blocked [where x = "Some resp" and rd = "be_redis b" and au = au] show thesis by (simp add: refuses_no_data)
  next
    fix merchant x m' b' au
    assume key: "presents_key (ap_keys ap) r merchant" and k: "k (r\<lparr>hq_Merchant := Some merchant\<rparr>) (m, b) = (x, m', b')"
      and run: "authenticated (ap_keys ap) (mo_now mo) g' k r (m, b) = (x, m', b'\<lparr>be_auth := au\<rparr>)"
    have applies: "idem_applies (r\<lparr>hq_Merchant := i\<rparr>) = idem_applies r" for i by (simp add: idem_applies_def Header_def)
    show thesis
    proof (cases "g' = GroupPayments")
      case False
      with k key run eq Some ran [where merchant = "Some merchant" and x = x and m' = m' and b' = b'
          and rd = "be_redis b'" and au = au]
      show thesis by (auto simp: k_def)
    next
      case True
      show thesis
      proof (rule idempotent_cases [of "ap_redis ap" "mo_now mo" "mo_end mo" "al_render lib" h
            "r\<lparr>hq_Merchant := Some merchant\<rparr>" m b])
        fix y rd
        assume "idempotent (ap_redis ap) (mo_now mo) (mo_end mo) (al_render lib) h (r\<lparr>hq_Merchant := Some merchant\<rparr>) (m, b)
            = (y, m, b\<lparr>be_redis := rd\<rparr>)" "idem_applies (r\<lparr>hq_Merchant := Some merchant\<rparr>)"
        with k eq run applies key True blocked [where x = x and rd = rd and au = au] show thesis
          by (auto simp: k_def)
      next
        fix y m2 b2 rd
        assume h: "h (r\<lparr>hq_Merchant := Some merchant\<rparr>) (m, b) = (y, m2, b2)"
          and "idempotent (ap_redis ap) (mo_now mo) (mo_end mo) (al_render lib) h (r\<lparr>hq_Merchant := Some merchant\<rparr>) (m, b)
            = (y, m2, b2\<lparr>be_redis := rd\<rparr>)" "\<not> idem_applies (r\<lparr>hq_Merchant := Some merchant\<rparr>) \<longrightarrow> rd = be_redis b"
        with k eq run applies Some key True
          ran [where merchant = "Some merchant" and x = y and m' = m2 and b' = b2 and rd = rd and au = au, OF h]
        show thesis by (auto simp: k_def)
      qed
    qed
  qed
qed

section \<open>Every request is answered\<close>




definition names :: "(string \<times> string) list \<Rightarrow> string set" where
  "names hs = fst ` set hs"




section \<open>Only with a key\<close>

definition protection :: "(string \<Rightarrow> string \<Rightarrow> selection) \<Rightarrow> http_request \<Rightarrow> auth_group option" where
  "protection route_of r =
     (case route_of (hq_Method r) (hq_Path r) of Selected ep ps \<Rightarrow> group_of ep | Unmatched g resp \<Rightarrow> g)"

text \<open>Every pattern of these subtrees is behind a key, and no other.\<close>

lemma protected_patterns:
  "list_all (\<lambda>(m, pat, ep). (group_of ep \<noteq> None) \<longleftrightarrow>
     pat = ''/metrics'' \<or> list_ex (\<lambda>p. prefix p pat) [''/v1/payments/'', ''/v1/ledger/'', ''/v1/admin/'']) routes"
  by code_simp

lemma presents_key_seen [simp]:
  "presents_key keys (seen mo r) i = presents_key keys r i"
  "presents_key keys (r\<lparr>hq_Params := ps\<rparr>) i = presents_key keys r i"
  by (simp_all add: presents_key_def extractBearerToken_def Header_def)

lemma routed_cases:
  obtains (selected) ep ps where "route_of (hq_Method r) (hq_Path r) = Selected ep ps" "protection route_of r = group_of ep"
      "\<And>s. routed route_of ap lib mo r s
        = group_middleware ap lib mo (group_of ep) (endpoint_handler ap lib mo ep) (r\<lparr>hq_Params := ps\<rparr>) s"
  | (unmatched) g resp where "route_of (hq_Method r) (hq_Path r) = Unmatched g resp" "protection route_of r = g"
      "\<And>s. routed route_of ap lib mo r s = group_middleware ap lib mo g (reply_with resp) r s"
  by (cases "route_of (hq_Method r) (hq_Path r)") (auto simp: routed_def protection_def)

lemma reply_with_apply [simp]: "reply_with resp r s = (Some resp, s)"
  by (simp add: reply_with_def)

lemma routed_refuses:
  fixes b :: "('w, 'r, 'p) backend"
  assumes "protection route_of r \<noteq> None" and "\<And>i. \<not> presents_key (ap_keys ap) r i"
  shows "\<exists>x au. routed route_of ap lib mo r (m, b) = (Some x, m, b\<lparr>be_auth := au\<rparr>) \<and> hr_Status x \<in> {401, 403, 429}"
proof -
  have refuse: "\<exists>x au. group_middleware ap lib mo g h r' (m, b) = (Some x, m, b\<lparr>be_auth := au\<rparr>) \<and> hr_Status x \<in> {401, 403, 429}"
    if "\<And>i. \<not> presents_key (ap_keys ap) r' i" "g \<noteq> None" for g h r'
    by (rule group_middleware_cases [of ap lib mo g h r' m b]) (use that in \<open>auto split: if_splits\<close>)
  have keyless: "\<And>i ps. \<not> presents_key (ap_keys ap) (r\<lparr>hq_Params := ps\<rparr>) i" using assms(2) by simp
  show ?thesis
  proof (rule routed_cases [of route_of r ap lib mo])
    fix ep ps
    assume "protection route_of r = group_of ep"
      "\<And>s. routed route_of ap lib mo r s
        = group_middleware ap lib mo (group_of ep) (endpoint_handler ap lib mo ep) (r\<lparr>hq_Params := ps\<rparr>) s"
    with assms(1) refuse [OF keyless] show ?thesis by simp
  next
    fix g resp
    assume "protection route_of r = g"
      "\<And>s. routed route_of ap lib mo r s = group_middleware ap lib mo g (reply_with resp) r s"
    with assms(1) refuse [OF assms(2)] show ?thesis by simp
  qed
qed

text \<open>
  C12: nobody gets past a protected route without a configured key: a request whose token belongs to
  no key is answered 204, 401, 403 or 429, and the payments, the providers, the idempotency store,
  the dead-letter queue and Pub/Sub stay as they are; only the records of failed attempts change.
\<close>

theorem requests_without_key_change_nothing:
  fixes b :: "('w, 'r, 'p) backend"
  assumes "protection route_of r \<noteq> None" and "\<And>i. \<not> presents_key (ap_keys ap) r i"
  shows "\<exists>resp rl' logs' m' au. serve_request route_of ap lib mo r (rl, logs, m, b) = (Some resp, rl', logs', m', b\<lparr>be_auth := au\<rparr>)
    \<and> hr_Status resp \<in> {204, 401, 403, 429}"
proof -
  show ?thesis
  proof (rule serve_request_cases [of route_of ap lib mo r rl logs m b])
    fix resp rl' logs'
    assume "serve_request route_of ap lib mo r (rl, logs, m, b) = (Some resp, rl', logs', m, b)" "answered_early r resp"
    moreover have "b = b\<lparr>be_auth := be_auth b\<rparr>" by simp
    ultimately show ?thesis unfolding answered_early_def by (metis insertCI)
  next
    fix x m1 resp rl' logs' m' b'
    assume run: "routed route_of ap lib mo (seen mo r) (counted m, b) = (x, m1, b')"
      and serve: "serve_request route_of ap lib mo r (rl, logs, m, b) = (Some resp, rl', logs', m', b')"
      and resp: "case x of None \<Rightarrow> hr_Status resp = 500 | Some y \<Rightarrow> hr_Status resp = hr_Status y \<and> hr_Body resp = hr_Body y"
    have "protection route_of (seen mo r) \<noteq> None" using assms(1) by (simp add: protection_def)
    from routed_refuses [OF this, of ap lib mo "counted m" b] assms(2) run obtain y au where "x = Some y" "b' = b\<lparr>be_auth := au\<rparr>" "hr_Status y \<in> {401, 403, 429}"
      by auto
    with serve resp show ?thesis by auto
  qed
qed

section \<open>Reading changes nothing\<close>

definition unchanged :: "('w, 'r, 'p) backend \<Rightarrow> ('w, 'r, 'p) backend \<Rightarrow> bool" where
  "unchanged b b' \<longleftrightarrow> be_sys b' = be_sys b \<and> be_redis b' = be_redis b \<and> be_pubsub b' = be_pubsub b"

lemma beside_snd: "snd (snd (beside h r (m, b))) = snd (h r b)"
  by (simp add: beside_def split: prod.split)

lemmas reading_handlers = Health_def Ready_def GetPaymentHandler_def GetAccountBalanceHandler_def
  GetRecentEntriesHandler_def GetDiscrepanciesHandler_def ListEntriesHandler_def GetStatsHandler_def
  GetDailyVolumeHandler_def GetPSPHealthHandler_def GetRecentPaymentsHandler_def GetActivityFeedHandler_def

definition reading :: "endpoint \<Rightarrow> bool" where
  "reading ep \<longleftrightarrow> ep \<notin> {EpCreate, EpCapture, EpRefund, EpCancel, EpWebhook, EpRecon, EpDLQRetry, EpDLQPurge}"

lemma reading_idle:
  fixes b :: "('w, 'r, 'p) backend"
  assumes "reading ep"
  shows "snd (snd (endpoint_handler ap lib mo ep r (m, b))) = b"
proof -
  note idle = sys_part.focus_idle db_part.focus_idle queue_part.focus_idle
  show ?thesis
    using assms
    by (cases ep)
      (auto simp: reading_def endpoint_handler_def Let_def beside_snd reading_handlers MetricsHandler_def
        intro!: idle split: sum.split prod.split option.split)
qed


lemma group_middleware_unchanged:
  fixes h :: "(payload, 'm \<times> ('w, 'r, 'p) backend) handler"
  assumes "\<And>i. snd (snd (h (r\<lparr>hq_Merchant := i\<rparr>) (m, b))) = b" and "\<not> idem_applies r"
  shows "unchanged b (snd (snd (group_middleware ap lib mo g h r (m, b))))"
proof (rule group_middleware_cases [of ap lib mo g h r m b])
  fix x rd au
  assume "group_middleware ap lib mo g h r (m, b) = (x, m, b\<lparr>be_redis := rd, be_auth := au\<rparr>)"
    "idem_applies r \<or> rd = be_redis b"
  with assms(2) show ?thesis by (simp add: unchanged_def)
next
  fix i x m' b' rd au
  assume "h (r\<lparr>hq_Merchant := i\<rparr>) (m, b) = (x, m', b')"
    "group_middleware ap lib mo g h r (m, b) = (x, m', b'\<lparr>be_redis := rd, be_auth := au\<rparr>)"
    "idem_applies r \<or> rd = be_redis b \<or> rd = be_redis b'"
  with assms(1) [of i] assms(2) show ?thesis by (auto simp: unchanged_def)
qed

text \<open>
  C22: reading is safe: with a router that keeps to the route table, a GET request to any path, with any
  key and in any state, changes no payment, no ledger entry, no provider, no stored idempotency key, no
  dead letter and publishes nothing.
\<close>

theorem get_requests_are_safe:
  fixes b :: "('w, 'r, 'p) backend"
  assumes "mux route_of" and "hq_Method r = ''GET''"
  shows "\<exists>resp rl' logs' m' b'. serve_request route_of ap lib mo r (rl, logs, m, b) = (Some resp, rl', logs', m', b')
    \<and> unchanged b b'"
proof (rule serve_request_cases [of route_of ap lib mo r rl logs m b])
  fix resp rl' logs'
  assume "serve_request route_of ap lib mo r (rl, logs, m, b) = (Some resp, rl', logs', m, b)"
  then show ?thesis by (simp add: unchanged_def)
next
  fix x m1 resp rl' logs' m' b'
  assume run: "routed route_of ap lib mo (seen mo r) (counted m, b) = (x, m1, b')"
    and serve: "serve_request route_of ap lib mo r (rl, logs, m, b) = (Some resp, rl', logs', m', b')"
  have idem: "\<not> idem_applies (seen mo r)" "\<And>ps. \<not> idem_applies (seen mo r\<lparr>hq_Params := ps\<rparr>)"
    using assms(2) by (simp_all add: idem_applies_def)
  have "unchanged b (snd (snd (routed route_of ap lib mo (seen mo r) (counted m, b))))"
  proof (rule routed_cases [of route_of "seen mo r" ap lib mo])
    fix ep ps
    assume "route_of (hq_Method (seen mo r)) (hq_Path (seen mo r)) = Selected ep ps"
      and eq: "\<And>s. routed route_of ap lib mo (seen mo r) s
        = group_middleware ap lib mo (group_of ep) (endpoint_handler ap lib mo ep) (seen mo r\<lparr>hq_Params := ps\<rparr>) s"
    with mux.get_endpoints [OF assms(1)] assms(2) have "reading ep" by (simp add: reading_def)
    from reading_idle [OF this] show ?thesis by (simp only: eq) (rule group_middleware_unchanged [OF _ idem(2)])
  next
    fix g x
    assume eq: "\<And>s. routed route_of ap lib mo (seen mo r) s = group_middleware ap lib mo g (reply_with x) (seen mo r) s"
    show ?thesis by (simp only: eq) (rule group_middleware_unchanged [OF _ idem(1)], simp)
  qed
  with run serve show ?thesis by simp
qed

section \<open>Who is an administrator\<close>

lemma reads_without_merchant [simp]:
  "Header (r\<lparr>hq_Merchant := i\<rparr>) k = Header r k" "URLParam (r\<lparr>hq_Merchant := i\<rparr>) k = URLParam r k"
  "Query (r\<lparr>hq_Merchant := i\<rparr>) k = Query r k" "readable (r\<lparr>hq_Merchant := i\<rparr>) = readable r"
  "int_query (r\<lparr>hq_Merchant := i\<rparr>) k = int_query r k" "limit_query (r\<lparr>hq_Merchant := i\<rparr>) n m = limit_query r n m"
  "recon_date now (r\<lparr>hq_Merchant := i\<rparr>) = recon_date now r" "parseDateRange now (r\<lparr>hq_Merchant := i\<rparr>) = parseDateRange now r"
  by (simp_all add: Header_def URLParam_def Query_def readable_def int_query_def limit_query_def recon_date_def parseDateRange_def
      split: option.split)

lemma admin_endpoints_blind:
  assumes "group_of ep = Some GroupAdmin"
  shows "endpoint_handler ap lib mo ep (r\<lparr>hq_Merchant := i\<rparr>) = endpoint_handler ap lib mo ep r"
proof -
  have "endpoint_handler ap lib mo ep (r\<lparr>hq_Merchant := i\<rparr>) mb = endpoint_handler ap lib mo ep r mb" for mb
    using assms
    by (cases ep)
      (simp_all add: endpoint_handler_def Let_def beside_def focus_def TriggerReconciliation_def GetDiscrepanciesHandler_def
        ListEntriesHandler_def RetryEntryHandler_def PurgeQueueHandler_def GetStatsHandler_def GetDailyVolumeHandler_def
        GetPSPHealthHandler_def GetRecentPaymentsHandler_def GetActivityFeedHandler_def
        cong: if_cong)
  then show ?thesis by blast
qed

text \<open>
  Behind the admin routes every configured key is an administrator's: whoever owns the key, the
  request is served exactly as the one of the administrator, and only the records of failed attempts
  differ from running the endpoint itself.
\<close>

theorem any_key_is_admin:
  assumes "group_of ep = Some GroupAdmin" and "presents_key (ap_keys ap) r merchant"
    and "\<not> fst (isBlocked (mo_now mo) (hq_RemoteAddr r) (be_auth b GroupAdmin))"
    and "endpoint_handler ap lib mo ep (r\<lparr>hq_Merchant := Some admin_id\<rparr>) (m, b) = (x, m', b')"
  shows "\<exists>au. group_middleware ap lib mo (group_of ep) (endpoint_handler ap lib mo ep) r (m, b) = (x, m', b'\<lparr>be_auth := au\<rparr>)"
proof -
  obtain t where t: "isBlocked (mo_now mo) (hq_RemoteAddr r) (be_auth b GroupAdmin) = (False, t)"
    using assms(3) by (metis (full_types) prod.collapse)
  from assms(4) have "endpoint_handler ap lib mo ep r (m, b) = (x, m', b')"
    by (simp add: admin_endpoints_blind [OF assms(1)])
  with assms(1,2) t show ?thesis
    by (simp add: group_middleware_def authenticated_def APIKeyAuth_def Let_def presents_key_def
        admin_endpoints_blind [OF assms(1)], blast)
qed

section \<open>Endpoints and payments of others\<close>

definition payment_endpoint :: "endpoint \<Rightarrow> bool" where
  "payment_endpoint ep \<longleftrightarrow> ep \<in> {EpGet, EpCapture, EpRefund, EpCancel}"

lemma foreign_endpoint:
  fixes b :: "('w, 'r, 'p) backend"
  assumes "payment_endpoint ep" and "foreign r (sdb (be_sys b))"
  shows "\<exists>resp. endpoint_handler ap lib mo ep r (m, b) = (Some resp, m, b) \<and> refuses resp"
proof -
  have idle: "\<exists>resp. beside (focus be_sys set_sys h) r (m, b) = (Some resp, m, b) \<and> refuses resp"
    if "\<exists>resp. h r (be_sys b) = (Some resp, be_sys b) \<and> refuses resp" for h :: "(payload, 'w sys) handler"
    using that by (auto simp: beside_def focus_def sys_part.put_get)
  obtain answer where foreign: "fetch_owned (mo_lookup mo) (mo_now mo) failed r (URLParam r ''id'') (sdb (be_sys b)) = Inl (answer failed)"
    "(''INTERNAL_ERROR'', failed) \<in> set refusals \<Longrightarrow> refuses (answer failed)" for failed
    using fetch_owned_foreign [OF assms(2), of "mo_lookup mo" "mo_now mo"] refuses_texts(3) in_refusals(13) by metis
  show ?thesis
    using assms(1) unfolding payment_endpoint_def
    by (elim insertE emptyE; simp add: endpoint_handler_def Let_def)
      (rule idle, auto simp: GetPaymentHandler_def CapturePaymentHandler_def RefundPaymentHandler_def CancelPaymentHandler_def
          Let_def foreign missing_id_def split: option.split)+
qed

lemma foreign_cong:
  "MerchantIDFromContext r = MerchantIDFromContext r' \<Longrightarrow> hq_Params r = hq_Params r' \<Longrightarrow> foreign r d = foreign r' d"
  by (simp add: foreign_def IsAdmin_def URLParam_def cong: option.case_cong)

section \<open>Production has no provider\<close>

lemma try_psp_nothing:
  assumes "adapters rt = Map.empty" and "breakers rt = Map.empty"
  shows "try_psp now psp dec rt = (None, rt)"
  using assms by (simp add: try_psp_def isAvailable_def)

lemma Route_nothing:
  assumes "adapters rt = Map.empty" and "breakers rt = Map.empty" and "rules rt = []"
  shows "Route now order req rt = (Inl (Errorf ''all PSPs are unavailable''), rt)"
proof -
  have "route_last_resort now names rt = (None, rt)" for names
    by (induction names) (simp_all add: try_psp_nothing assms or_else_def)
  with assms show ?thesis
    by (simp add: Route_def or_else_def route_preferred_def split: option.split)
qed

text \<open>What a server that runs has been given.\<close>

lemma start_server_Running:
  assumes "fst (start_server ou vars p) = Running (ap, rt)"
  obtains cfg where "Load (ou_parseFloat ou) vars = Inr cfg"
    "rt = initial_router (ou_hmac ou) (sc_Env (cf_Server cfg))" "ap_adapters ap = GetAdapters rt"
    "ap_keys ap = ParseMerchantKeys (cf_APIKeys cfg)" "sc_Env (cf_Server cfg) = ''production'' \<longrightarrow> ap_keys ap \<noteq> []"
proof -
  obtain cfg where cfg: "Load (ou_parseFloat ou) vars = Inr cfg"
    using assms by (cases "Load (ou_parseFloat ou) vars") (simp_all add: start_server_def)
  obtain u where up: "RunMigrations (ou_migrate_new ou) (ou_migrate_up ou) (cf_Database cfg) ''migrations'' = Inr u"
    using assms cfg by (cases "RunMigrations (ou_migrate_new ou) (ou_migrate_up ou) (cf_Database cfg) ''migrations''")
      (simp_all add: start_server_def)
  obtain v where pool: "NewPool (ou_pool ou) (cf_Database cfg) = Inr v"
    using assms cfg up by (cases "NewPool (ou_pool ou) (cf_Database cfg)") (simp_all add: start_server_def)
  obtain c p' where client: "connect_pubsub (ou_pubsub ou) (ou_codec ou) (cf_PubSub cfg) p = (c, p')" by (metis surj_pair)
  then obtain cl where "c = Inr cl"
    using assms cfg up pool by (cases c) (simp_all add: start_server_def Let_def)
  with client show thesis
    using assms cfg up pool that [OF cfg]
    by (auto simp: start_server_def Let_def split: if_splits)
qed

lemma Load_env: "Load parseFloat vars = Inr cfg \<Longrightarrow> sc_Env (cf_Server cfg) = getEnv vars ''SERVER_ENV'' ''development''"
  by (simp add: Load_def Let_def load_config_def split: if_splits) auto

text \<open>
  C33: a server started in production registers no provider: every attempt to create a payment fails
  without a trace, and every webhook and every reconciliation is refused as of an unknown provider.
\<close>

theorem production_has_no_provider:
  assumes "fst (start_server ou vars p) = Running (ap, rt)" and "vars ''SERVER_ENV'' = Some ''production''"
  shows "ap_adapters ap = Map.empty
    \<and> CreatePayment env req (s\<lparr>srouter := rt\<rparr>)
        = (Inl (Wrapped ''routing payment'' (Errorf ''all PSPs are unavailable'')), s\<lparr>srouter := rt\<rparr>)
    \<and> IngestWebhook lib (ap_adapters ap) env psp eventType payload signature d = (Inl (UnknownPSP psp), d)
    \<and> RunBatchReconciliation (ap_adapters ap) env psp date (d, w) = (Inl (UnknownPSP psp), d, w)"
proof -
  obtain cfg where "Load (ou_parseFloat ou) vars = Inr cfg" "rt = initial_router (ou_hmac ou) (sc_Env (cf_Server cfg))"
    and adps: "ap_adapters ap = GetAdapters rt" by (rule start_server_Running [OF assms(1)])
  with Load_env assms(2) have rt: "rt = NewPaymentRouter" by (auto simp: initial_router_def getEnv_def)
  with adps have none: "ap_adapters ap = Map.empty" by (simp add: GetAdapters_def NewPaymentRouter_def)
  have "Route now order req rt = (Inl (Errorf ''all PSPs are unavailable''), rt)" for now order
    by (rule Route_nothing) (simp_all add: rt NewPaymentRouter_def)
  then show ?thesis
    by (simp add: none CreatePayment_def IngestWebhook_def ingestWebhookInternal_def RunBatchReconciliation_def)
qed

section \<open>A matcher by segments\<close>

text \<open>
  A simple matcher that satisfies chi's contract: segment by segment, a name in braces takes any segment
  that is not empty, a star the rest.
\<close>

fun seg_match :: "string list \<Rightarrow> string list \<Rightarrow> (string \<times> string) list option" where
  "seg_match [] [] = Some []"
| "seg_match [] (s # ss) = None"
| "seg_match (p # ps) ss =
     (if p = ''*'' then Some [(''*'', join ''/'' ss)]
      else case ss of
        [] \<Rightarrow> None
      | s # ss \<Rightarrow>
          if p \<noteq> [] \<and> hd p = CHR 0x7B
          then if s = [] then None else map_option (Cons (butlast (tl p), s)) (seg_match ps ss)
          else if p = s then seg_match ps ss else None)"

fun select_from :: "(string \<times> string \<times> endpoint) list \<Rightarrow> string \<Rightarrow> string list \<Rightarrow> selection" where
  "select_from [] m ss = Unmatched None (plain_error 404 ''NOT_FOUND'' ''no such route'')"
| "select_from ((m', pat, ep) # rs) m ss =
     (if m' = m \<or> m' = ''*''
      then case seg_match (split_all (CHR ''/'') pat) ss of None \<Rightarrow> select_from rs m ss | Some ps \<Rightarrow> Selected ep ps
      else select_from rs m ss)"

definition segment_route :: "string \<Rightarrow> string \<Rightarrow> selection" where
  "segment_route m path = select_from routes m (split_all (CHR ''/'') path)"

lemma select_from_registered:
  "select_from rs m ss = Selected ep ps \<Longrightarrow> \<exists>m' pat. (m', pat, ep) \<in> set rs \<and> (m' = m \<or> m' = ''*'')"
  by (induction rs m ss rule: select_from.induct) (auto split: if_splits option.splits)

interpretation segments: mux segment_route
  by unfold_locales (unfold segment_route_def, rule select_from_registered)

section \<open>A server on a concrete state\<close>

definition demo_backend :: "(mock_world, unit, unit) backend" where
  "demo_backend =
     \<lparr>be_sys = demo_sys\<lparr>sdb := authorized_db\<rparr>, be_redis = (), be_pubsub = (),
      be_auth = (\<lambda>_. newAuthFailureTracker 5 60)\<rparr>"

definition demo_app :: "(mock_world, unit, unit) app" where
  "demo_app =
     \<lparr>ap_keys = [\<lparr>mk_MerchantID = ''n'', mk_APIKey = ''k''\<rparr>], ap_adapters = Map.empty, ap_redis = None, ap_pubsub = None,
      ap_addr = '':8080''\<rparr>"

definition demo_app_lib :: app_lib where
  "demo_app_lib =
     \<lparr>al_requests = demo_lib_requests,
      al_web = \<lparr>wl_decode = (\<lambda>_. None), wl_rfc3339 = (\<lambda>_. None), wl_sha1_uuid = (\<lambda>s. s)\<rparr>,
      al_dlq = \<lparr>dc_marshal = (\<lambda>_. []), dc_unmarshal = (\<lambda>_. None)\<rparr>, al_render = (\<lambda>_. [])\<rparr>"

definition demo_moment :: moment where
  "demo_moment =
     \<lparr>mo_now = 0, mo_end = 1, mo_lookup = quiet_env, mo_env = quiet_env, mo_request_id = ''r1'', mo_trace = None,
      mo_db_up = True, mo_redis_up = True,
      mo_runtime = \<lparr>rs_NumGoroutine = 1, rs_Alloc = 0, rs_Sys = 0, rs_HeapInuse = 0, rs_PauseTotalNs = 0, rs_Uptime = 0\<rparr>,
      mo_static = (\<lambda>_. plain_error 404 ''NOT_FOUND'' ''no such file'')\<rparr>"

definition demo_get :: "string \<Rightarrow> (string \<times> string) list \<Rightarrow> http_request" where
  "demo_get path headers = (request_from ''203.0.113.9:1'' headers)\<lparr>hq_Path := path\<rparr>"

abbreviation with_key :: "(string \<times> string) list" where
  "with_key \<equiv> [(''Authorization'', ''Bearer k'')]"

lemma demo_presents_key: "presents_key (ap_keys demo_app) (demo_get path with_key) i \<longleftrightarrow> i = ''n''"
proof -
  have "extractBearerToken (demo_get path with_key) = ''k''"
    by (simp add: extractBearerToken_def Header_def value_of_def demo_get_def request_from_def) code_simp
  then show ?thesis by (auto simp: presents_key_def demo_app_def validateKeyAndGetMerchant_def)
qed

lemma demo_route: "segment_route ''GET'' ''/v1/payments/p1'' = Selected EpGet [(''id'', ''p1'')]"
  by code_simp

lemma requests_without_key_change_nothing_witness:
  "\<exists>resp rl' logs' m' au. serve_request segment_route demo_app demo_app_lib demo_moment (demo_get ''/v1/payments/p1'' [])
      (NewRateLimiter 100 1 200, [], new_http_metrics, demo_backend) = (Some resp, rl', logs', m', demo_backend\<lparr>be_auth := au\<rparr>)
    \<and> hr_Status resp \<in> {204, 401, 403, 429}"
proof (rule requests_without_key_change_nothing)
  show "protection segment_route (demo_get ''/v1/payments/p1'' []) \<noteq> None"
    by (simp add: protection_def demo_get_def request_from_def demo_route)
  show "\<not> presents_key (ap_keys demo_app) (demo_get ''/v1/payments/p1'' []) i" for i
    by (simp add: presents_key_def extractBearerToken_def Header_def value_of_def demo_get_def request_from_def)
qed

lemma get_requests_are_safe_witness:
  "\<exists>resp rl' logs' m' b'. serve_request segment_route demo_app demo_app_lib demo_moment (demo_get ''/v1/payments/p1'' with_key)
      (NewRateLimiter 100 1 200, [], new_http_metrics, demo_backend) = (Some resp, rl', logs', m', b') \<and> unchanged demo_backend b'"
  by (rule get_requests_are_safe [OF segments.mux_axioms]) (simp add: demo_get_def request_from_def)

lemma any_key_is_admin_witness:
  "\<exists>au. group_middleware demo_app demo_app_lib demo_moment (group_of EpDLQPurge)
      (endpoint_handler demo_app demo_app_lib demo_moment EpDLQPurge)
      (demo_get ''/v1/admin/dlq/'' ((''X-Confirm-Purge'', ''yes'') # with_key)) (new_http_metrics, demo_backend)
    = (Some (HttpError 0 500 ''DLQ_PURGE_FAILED'' ''purge failed''), new_http_metrics, demo_backend\<lparr>be_auth := au\<rparr>)"
proof (rule any_key_is_admin)
  let ?r = "demo_get ''/v1/admin/dlq/'' ((''X-Confirm-Purge'', ''yes'') # with_key)"
  show "presents_key (ap_keys demo_app) ?r ''n''"
    using demo_presents_key [of "''/''" "''n''"]
    by (simp add: presents_key_def extractBearerToken_def Header_def value_of_def demo_get_def request_from_def)
  show "\<not> fst (isBlocked (mo_now demo_moment) (hq_RemoteAddr ?r) (be_auth demo_backend GroupAdmin))"
    by (simp add: demo_backend_def isBlocked_def newAuthFailureTracker_def)
  show "endpoint_handler demo_app demo_app_lib demo_moment EpDLQPurge (?r\<lparr>hq_Merchant := Some admin_id\<rparr>) (new_http_metrics, demo_backend)
    = (Some (HttpError 0 500 ''DLQ_PURGE_FAILED'' ''purge failed''), new_http_metrics, demo_backend)"
    by (simp add: endpoint_handler_def Let_def beside_def focus_def PurgeQueueHandler_def Header_def value_of_def demo_get_def
        request_from_def Purge_def demo_app_def queue_part.put_get get_queue_def demo_moment_def)
      (simp add: demo_backend_def part_defs)
qed simp

definition demo_outside :: "(memory, unit) outside" where
  "demo_outside =
     \<lparr>ou_parseFloat = (\<lambda>_. None), ou_migrate_new = (\<lambda>_ _. None), ou_migrate_up = MigrateNoChange,
      ou_pool = \<lparr>pd_ParseConfig = (\<lambda>_. None), pd_New = (\<lambda>_ _. None), pd_Ping = None\<rparr>,
      ou_redis_ping = (\<lambda>_ _ _. Some (Errorf ''connection refused'')),
      ou_redis = mem_api,
      ou_pubsub = \<lparr>pa_Dial = (\<lambda>_ _. None), pa_CreateTopic = (\<lambda>_. Pair None), pa_CreateSubscription = (\<lambda>_. Pair None),
                   pa_Publish = (\<lambda>_ _. Pair (Inr ''m1''))\<rparr>,
      ou_codec = \<lparr>wm_marshal = (\<lambda>_. []), wm_unmarshal = (\<lambda>_. None)\<rparr>, ou_hmac = (\<lambda>k s. k @ s)\<rparr>"

definition production_vars :: variables where
  "production_vars = [''SERVER_ENV'' \<mapsto> ''production'', ''DB_PASSWORD'' \<mapsto> ''pw'', ''API_KEYS'' \<mapsto> ''m:k'']"

lemma production_starts: "\<exists>ap rt. fst (start_server demo_outside production_vars ()) = Running (ap, rt)"
proof -
  have keys: "getEnvSlice production_vars ''API_KEYS'' = [''m:k'']" "ParseMerchantKeys [''m:k''] \<noteq> []" by code_simp+
  have env: "getEnv production_vars ''DB_PASSWORD'' [] = ''pw''" "getEnv production_vars ''PUBSUB_ENABLED'' ''false'' = ''false''"
    by (simp_all add: getEnv_def production_vars_def)
  show ?thesis
    by (simp add: start_server_def Load_def Let_def missing_secrets_def load_config_def keys env demo_outside_def
        RunMigrations_def NewPool_def NewRedisClient_def connect_pubsub_def)
qed

lemma production_has_no_provider_witness:
  "\<exists>ap rt. fst (start_server demo_outside production_vars ()) = Running (ap, rt)
    \<and> CreatePayment quiet_env demo_request (demo_sys\<lparr>srouter := rt\<rparr>)
        = (Inl (Wrapped ''routing payment'' (Errorf ''all PSPs are unavailable'')), demo_sys\<lparr>srouter := rt\<rparr>)"
proof -
  obtain ap rt where run: "fst (start_server demo_outside production_vars ()) = Running (ap, rt)"
    using production_starts by blast
  moreover have "production_vars ''SERVER_ENV'' = Some ''production''" by (simp add: production_vars_def)
  ultimately show ?thesis using production_has_no_provider [OF run] by blast
qed

end
