(* ===== verification/Lifecycle.thy ===== *)
theory Lifecycle
  imports Webhook_Service
begin

text \<open>
  What a payment goes through, as an abstract machine without tables, transactions or statements: a
  payment is opened, pends, is authorized, captured, refunded, cancelled or fails. Everything that
  writes the payment tables refines it. \<open>tables_property\<close> and, for what the books alone decide,
  \<open>books_property\<close> are the interfaces of what holds of the tables and survives all steps; the theories of the server and of overlapping operations prove their
  preservation lemmas once inside it.
\<close>

section \<open>The life of a payment\<close>

record life =
  lf_merchant :: string
  lf_order :: string
  lf_amount :: int
  lf_currency :: string
  lf_provider :: string
  lf_status :: payment_status
  lf_refunded :: int

type_synonym lives = "string \<rightharpoonup> life"

inductive life_step :: "lives \<Rightarrow> lives \<Rightarrow> bool" where
  opened: "\<lbrakk>L pid = None; lf_status p = PaymentStatusCreated; lf_refunded p = 0; 0 \<le> lf_amount p\<rbrakk>
    \<Longrightarrow> life_step L (L(pid \<mapsto> p))"
| pended: "\<lbrakk>L pid = Some p; lf_status p = PaymentStatusCreated\<rbrakk>
    \<Longrightarrow> life_step L (L(pid \<mapsto> p\<lparr>lf_status := PaymentStatusPending\<rparr>))"
| authorized: "\<lbrakk>L pid = Some p; lf_status p \<in> {PaymentStatusCreated, PaymentStatusPending}\<rbrakk>
    \<Longrightarrow> life_step L (L(pid \<mapsto> p\<lparr>lf_status := PaymentStatusAuthorized\<rparr>))"
| captured: "\<lbrakk>L pid = Some p; lf_status p \<in> {PaymentStatusPending, PaymentStatusAuthorized}\<rbrakk>
    \<Longrightarrow> life_step L (L(pid \<mapsto> p\<lparr>lf_status := PaymentStatusCaptured\<rparr>))"
| refunded: "\<lbrakk>L pid = Some p; lf_status p \<in> {PaymentStatusCaptured, PaymentStatusPartiallyRefunded};
      st \<in> {PaymentStatusRefunded, PaymentStatusPartiallyRefunded}; 0 \<le> n; n \<le> lf_amount p\<rbrakk>
    \<Longrightarrow> life_step L (L(pid \<mapsto> p\<lparr>lf_status := st, lf_refunded := n\<rparr>))"
| cancelled: "\<lbrakk>L pid = Some p; lf_status p = PaymentStatusAuthorized\<rbrakk>
    \<Longrightarrow> life_step L (L(pid \<mapsto> p\<lparr>lf_status := PaymentStatusCancelled\<rparr>))"
| failed: "\<lbrakk>L pid = Some p;
      lf_status p \<in> {PaymentStatusCreated, PaymentStatusPending, PaymentStatusAuthorized}\<rbrakk>
    \<Longrightarrow> life_step L (L(pid \<mapsto> p\<lparr>lf_status := PaymentStatusFailed\<rparr>))"

inductive_cases life_stepE: "life_step L L'"

text \<open>What an abstract step leaves of a payment.\<close>

definition grown :: "life \<Rightarrow> life \<Rightarrow> bool" where
  "grown p p' \<longleftrightarrow>
     lf_merchant p' = lf_merchant p \<and> lf_order p' = lf_order p \<and> lf_amount p' = lf_amount p
   \<and> lf_currency p' = lf_currency p \<and> lf_provider p' = lf_provider p
   \<and> status_rank (lf_status p) \<le> status_rank (lf_status p')
   \<and> (IsTerminal (lf_status p) \<longrightarrow> p' = p)"

lemma grown_trans: "grown p q \<Longrightarrow> grown q r \<Longrightarrow> grown p r"
  by (auto simp: grown_def)

lemma life_step_grown: "life_step L L' \<Longrightarrow> L pid = Some p \<Longrightarrow> \<exists>p'. L' pid = Some p' \<and> grown p p'"
  by (erule life_stepE) (auto simp: grown_def)

lemma life_steps_grown: "life_step\<^sup>*\<^sup>* L L' \<Longrightarrow> L pid = Some p \<Longrightarrow> \<exists>p'. L' pid = Some p' \<and> grown p p'"
proof (induction rule: rtranclp_induct)
  case base
  then show ?case by (simp add: grown_def)
next
  case (step L1 L2)
  then obtain p1 where "L1 pid = Some p1" "grown p p1" by blast
  with life_step_grown [OF step.hyps(2)] grown_trans show ?case by blast
qed

section \<open>The tables refine it\<close>

definition life_of :: "payment_row \<Rightarrow> life" where
  "life_of r = \<lparr>lf_merchant = pay_merchant_id r, lf_order = pay_order_id r, lf_amount = sint (pay_amount r),
     lf_currency = pay_currency r, lf_provider = pay_psp r, lf_status = pay_status r,
     lf_refunded = sint (pay_total_refunded r)\<rparr>"

definition lives_of :: "db \<Rightarrow> lives" where
  "lives_of d pid = map_option life_of (payment_by_id d pid)"

lemma lives_migrated: "lives_of migrated_db = Map.empty"
  by (rule ext) (simp add: lives_of_def payment_by_id_def migrated_db_def)

lemma legal_change_step:
  assumes "legal_change r r'" and "L pid = Some (life_of r)"
  shows "life_step L (L(pid \<mapsto> life_of r'))"
proof -
  let ?p = "life_of r"
  have same: "life_of r' = ?p\<lparr>lf_status := pay_status r', lf_refunded := sint (pay_total_refunded r')\<rparr>"
    and fits: "0 \<le> sint (pay_total_refunded r')" "sint (pay_total_refunded r') \<le> lf_amount ?p"
    and legal: "CanTransition (lf_status ?p) (pay_status r')"
    using assms(1) by (auto simp: legal_change_def life_of_def chk_refund_cap_def int64_order)
  show ?thesis
  proof (cases "is_refund_status (pay_status r')")
    case True
    then have st: "pay_status r' \<in> {PaymentStatusRefunded, PaymentStatusPartiallyRefunded}"
      by (auto simp: is_refund_status_def)
    with legal have "lf_status ?p \<in> {PaymentStatusCaptured, PaymentStatusPartiallyRefunded}"
      by (cases "lf_status ?p") auto
    from refunded [where L = L, OF assms(2) this st fits] show ?thesis by (simp add: same)
  next
    case False
    with assms(1) have "life_of r' = ?p\<lparr>lf_status := pay_status r'\<rparr>" by (auto simp: legal_change_def life_of_def)
    with False legal show ?thesis
      using pended [where L = L, OF assms(2)] authorized [where L = L, OF assms(2)] captured [where L = L, OF assms(2)]
        cancelled [where L = L, OF assms(2)] failed [where L = L, OF assms(2)]
      by (cases "lf_status ?p"; cases "pay_status r'") (simp_all add: is_refund_status_def)
  qed
qed

lemma pay_step_refines:
  assumes "pay_step d d'" and inv: "payments_inv d"
  shows "life_step (lives_of d) (lives_of d')"
  using assms(1)
proof cases
  case (pay_created r u d1 t v)
  then have new: "payment_by_id d (pay_id r) = None" "chk_refund_cap r"
    and rows: "payments d' = payments d @ [r]" by (auto simp: tx_defs split: if_splits)
  have "lives_of d' = (lives_of d)(pay_id r \<mapsto> life_of r)"
    using new by (auto simp: lives_of_def payment_by_id_def rows find_append fun_eq_iff split: option.split)
  with new pay_created show ?thesis
    by (auto intro!: opened simp: life_of_def chk_refund_cap_def int64_order lives_of_def)
next
  case 2: (pay_changed pid r f t)
  from 2(1) have r: "pay_id r = pid" by (auto dest: payment_by_id_SomeD)
  have ids: "pay_id (f x) = pid" if "x \<in> set (payments d)" "pay_id x = pid" for x
    using payment_by_id_eq [OF inv that(1)] that(2) 2(1,2) r by (auto simp: legal_change_def)
  have "lives_of d' = (lives_of d)(pid \<mapsto> life_of (f r))"
    using find_update_where_key [of "payments d" pay_id pid f, OF ids] 2
    by (auto simp: lives_of_def payment_by_id_def fun_eq_iff)
  with legal_change_step [OF 2(2), of "lives_of d" pid] 2 show ?thesis
    by (simp add: lives_of_def legal_change_def)
qed

section \<open>What holds of the books\<close>

text \<open>
  The interface: a property of the tables that comes with the invariant of the payment tables and that
  everything keeps which writes to them, the steps of the books, the recording and finishing of a
  webhook event, and reconciliation.
\<close>

locale tables_property =
  fixes P :: "db \<Rightarrow> bool"
  assumes core_kept: "core_step d d' \<Longrightarrow> P d \<Longrightarrow> P d'"
    and has_payments_inv: "P d \<Longrightarrow> payments_inv d"
    and event_recorded: "P d \<Longrightarrow> P (d\<lparr>webhook_events := webhook_events d @ [w]\<rparr>)"
    and event_finished: "P d \<Longrightarrow> P (finish_webhook env r d)"
    and recon_free: "P d \<Longrightarrow> P (d\<lparr>reconciliation_records := rs, reconciliation_discrepancies := ds\<rparr>)"
begin

lemma core_steps_keep: "core_step\<^sup>*\<^sup>* d d' \<Longrightarrow> P d \<Longrightarrow> P d'"
  by (induction rule: rtranclp_induct) (auto intro: core_kept)

lemma pay_steps_keep: "pay_step\<^sup>*\<^sup>* d d' \<Longrightarrow> P d \<Longrightarrow> P d'"
  by (induction rule: rtranclp_induct) (auto intro: core_kept core_pay)

lemma ingest_keeps:
  assumes "ingestWebhookInternal lib adps env psp ty payload sig skip d = (res, d')" and "P d"
  shows "P d'"
  using ingest_outcome [OF assms(1)]
proof (elim disjE exE conjE)
  fix w pid d2
  assume "process_event lib env ty pid payload (d\<lparr>webhook_events := webhook_events d @ [w]\<rparr>) = (res, d2)"
    and "d' = finish_webhook env res d2"
  with process_event_steps core_steps_keep event_recorded [OF assms(2), of w] show ?thesis
    by (blast intro: event_finished)
qed (use assms(2) in simp_all)

end

text \<open>
  The usual case: a property that does not look beyond payments, their trail and the ledger at all.
\<close>

locale books_property =
  fixes P :: "db \<Rightarrow> bool"
  assumes books_step: "core_step d d' \<Longrightarrow> P d \<Longrightarrow> P d'"
    and books_payments_inv: "P d \<Longrightarrow> payments_inv d"
    and core_only: "\<lbrakk>payments d' = payments d; payment_state_transitions d' = payment_state_transitions d;
      ledger_accounts d' = ledger_accounts d; ledger_entries d' = ledger_entries d;
      ledger_transactions d' = ledger_transactions d\<rbrakk> \<Longrightarrow> P d' = P d"
begin

lemma webhook_rows_free [simp]: "P (d\<lparr>webhook_events := ws\<rparr>) = P d"
  by (rule core_only) simp_all

lemma finish_webhook_keeps [simp]: "P (finish_webhook env r d) = P d"
  by (rule core_only) simp_all

lemma recon_rows_free: "P (d\<lparr>reconciliation_records := rs, reconciliation_discrepancies := ds\<rparr>) = P d"
  by (rule core_only) simp_all

end

sublocale books_property \<subseteq> tables_property
  by unfold_locales (auto intro: books_step books_payments_inv simp: recon_rows_free)

text \<open>The books are in order.\<close>

interpretation in_order: books_property core_inv
proof unfold_locales
  show "core_inv d'" if "core_step d d'" "core_inv d" for d d'
    using that by (rule core_step_inv)
  show "payments_inv d" if "core_inv d" for d
    using that by (simp add: core_inv_def)
qed (rule core_inv_cong)

text \<open>They are, and all that happened since \<open>d0\<close> is a course of lives.\<close>

definition refined_since :: "db \<Rightarrow> db \<Rightarrow> bool" where
  "refined_since d0 d \<longleftrightarrow> core_inv d \<and> life_step\<^sup>*\<^sup>* (lives_of d0) (lives_of d)"

lemma lives_of_cong: "payments d' = payments d \<Longrightarrow> lives_of d' = lives_of d"
  by (rule ext) (simp add: lives_of_def payment_by_id_def)

lemma core_step_refines:
  assumes "core_step d d'" and "core_inv d"
  shows "life_step\<^sup>*\<^sup>* (lives_of d) (lives_of d')"
  using assms(1)
proof cases
  case core_pay
  with assms(2) show ?thesis by (auto simp: core_inv_def dest: pay_step_refines)
next
  case core_ledger
  then show ?thesis using ledger_step_frame lives_of_cong by (metis rtranclp.rtrancl_refl)
qed

interpretation refining: books_property "refined_since d0" for d0
proof unfold_locales
  show "refined_since d0 d'" if "core_step d d'" "refined_since d0 d" for d d'
    using that core_step_refines [OF that(1)] in_order.core_kept [OF that(1)]
    by (auto simp: refined_since_def intro: rtranclp_trans)
  show "payments_inv d" if "refined_since d0 d" for d
    using that by (simp add: refined_since_def in_order.has_payments_inv)
  show "refined_since d0 d' = refined_since d0 d"
    if "payments d' = payments d" "payment_state_transitions d' = payment_state_transitions d"
      "ledger_accounts d' = ledger_accounts d" "ledger_entries d' = ledger_entries d"
      "ledger_transactions d' = ledger_transactions d" for d d'
    by (simp only: refined_since_def in_order.core_only [OF that] lives_of_cong [OF that(1)])
qed

text \<open>They are, and the settled payment \<open>r\<close> is on record.\<close>

definition settled :: "payment_row \<Rightarrow> db \<Rightarrow> bool" where
  "settled r d \<longleftrightarrow> core_inv d \<and> IsTerminal (pay_status r) \<and> payment_by_id d (pay_id r) = Some r"

lemma payment_by_id_cong: "payments d' = payments d \<Longrightarrow> payment_by_id d' pid = payment_by_id d pid"
  by (simp add: payment_by_id_def)

lemma core_step_settled:
  assumes "core_step d d'" and "settled r d"
  shows "settled r d'"
proof -
  have "payment_by_id d' (pay_id r) = Some r"
    using assms(1)
  proof cases
    case core_pay
    with assms(2) pay_step_payment [of d d' "pay_id r" r] show ?thesis
      by (auto simp: settled_def legal_change_def in_order.has_payments_inv CanTransition_iff IsTerminal_agrees_with_table)
  next
    case core_ledger
    with assms(2) ledger_step_frame [of d d'] show ?thesis by (simp add: settled_def payment_by_id_def)
  qed
  with assms in_order.core_kept [OF assms(1)] show ?thesis by (simp add: settled_def)
qed

interpretation staying: books_property "settled r" for r
proof unfold_locales
  show "settled r d'" if "core_step d d'" "settled r d" for d d'
    using that by (rule core_step_settled)
  show "payments_inv d" if "settled r d" for d
    using that by (simp add: settled_def in_order.has_payments_inv)
  show "settled r d' = settled r d"
    if "payments d' = payments d" "payment_state_transitions d' = payment_state_transitions d"
      "ledger_accounts d' = ledger_accounts d" "ledger_entries d' = ledger_entries d"
      "ledger_transactions d' = ledger_transactions d" for d d'
    by (simp only: settled_def in_order.core_only [OF that] payment_by_id_cong [OF that(1)])
qed

text \<open>They are, and a webhook event with the key is on record, processed or not.\<close>

definition recorded :: "string \<Rightarrow> db \<Rightarrow> bool" where
  "recorded key d \<longleftrightarrow> core_inv d \<and> webhook_by_key d key \<noteq> None"

interpretation recording: tables_property "recorded key" for key
proof unfold_locales
  show "recorded key d'" if "core_step d d'" "recorded key d" for d d'
    using that in_order.core_kept [OF that(1)] core_step_webhooks [OF that(1)] by (simp add: recorded_def webhook_by_key_None)
  show "payments_inv d" if "recorded key d" for d
    using that by (simp add: recorded_def in_order.has_payments_inv)
  show "recorded key (d\<lparr>webhook_events := webhook_events d @ [w]\<rparr>)" if "recorded key d" for d w
    using that by (auto simp: recorded_def webhook_by_key_None)
  show "recorded key (finish_webhook env r d)" if "recorded key d" for d env r
    using that by (simp add: recorded_def webhook_by_key_None finish_webhook_keys)
  show "recorded key (d\<lparr>reconciliation_records := rs, reconciliation_discrepancies := ds\<rparr>)" if "recorded key d" for d rs ds
    using that by (simp add: recorded_def in_order.recon_rows_free webhook_by_key_def)
qed

end
