(* ===== verification/System.thy ===== *)
theory System
  imports Server_Props Lifecycle
begin

text \<open>
  The running server as a machine: requests, deliveries of queued webhooks and the sweeps of the
  background loops, in any order. One event runs to its end before the next one starts; what overlaps
  within a request is treated where it matters, in \<^verbatim>\<open>Idempotency\<close>.
\<close>

section \<open>Events\<close>

datatype system_event = Served moment http_request | Received env pubsub_message | Swept time

type_synonym ('w, 'r, 'p) system = "rate_limiter \<times> log_record list \<times> http_metrics \<times> ('w, 'r, 'p) backend"

fun system_step ::
  "(string \<Rightarrow> string \<Rightarrow> selection) \<Rightarrow> ('w, 'r, 'p) app \<Rightarrow> app_lib \<Rightarrow> wm_codec \<Rightarrow> ('w, 'r, 'p) system \<Rightarrow> system_event \<Rightarrow>
   ('w, 'r, 'p) system" where
  "system_step route_of ap lib codec s (Served mo r) = snd (serve_request route_of ap lib mo r s)"
| "system_step route_of ap lib codec (rl, logs, m, b) (Received env msg) =
     (rl, logs, m, set_db (snd (receive_webhook (al_web lib) (ap_adapters ap) codec env msg (get_db b))) b)"
| "system_step route_of ap lib codec (rl, logs, m, b) (Swept now) =
     (rl_cleanup now rl, logs, m, b\<lparr>be_auth := auth_cleanup now \<circ> be_auth b\<rparr>)"

definition system_db :: "('w, 'r, 'p) system \<Rightarrow> db" where
  "system_db s = (case s of (rl, logs, m, b) \<Rightarrow> get_db b)"

section \<open>The books through every handler\<close>

lemma PurgeQueue_keeps_db: "snd (snd (PurgeQueueHandler rdb now r s)) = snd s"
  by (simp add: PurgeQueueHandler_def split: prod.split sum.split)

lemma group_middleware_keeps:
  fixes h :: "(payload, 'm \<times> ('w, 'r, 'p) backend) handler"
  assumes "\<And>i. Q (be_sys (snd (snd (h (r\<lparr>hq_Merchant := i\<rparr>) (m, b)))))" and "Q (be_sys b)"
  shows "Q (be_sys (snd (snd (group_middleware ap lib mo g h r (m, b)))))"
proof (rule group_middleware_cases [of ap lib mo g h r m b])
  fix i x m' b' rd au
  assume "h (r\<lparr>hq_Merchant := i\<rparr>) (m, b) = (x, m', b')"
    "group_middleware ap lib mo g h r (m, b) = (x, m', b'\<lparr>be_redis := rd, be_auth := au\<rparr>)"
  with assms(1) [of i] show ?thesis by simp
qed (use assms(2) in auto)

context tables_property begin

lemma payment_run_keeps: "P (sdb s) \<Longrightarrow> P (sdb (foldl payment_api s cs))"
  using pay_steps_keep [OF payment_run_steps [OF has_payments_inv]] by blast

lemma services_keep:
  assumes "P (sdb s)"
  shows "P (sdb (snd (CreatePayment env req s)))" "P (sdb (snd (CapturePayment env pid s)))"
    "P (sdb (snd (RefundPayment env pid amount s)))" "P (sdb (snd (CancelPayment env pid s)))"
proof -
  from assms have "payments_inv (sdb s)" by (rule has_payments_inv)
  note steps = CreatePayment_steps [OF this] CapturePayment_steps RefundPayment_steps CancelPayment_steps [OF this]
  show "P (sdb (snd (CreatePayment env req s)))" "P (sdb (snd (CapturePayment env pid s)))"
    "P (sdb (snd (RefundPayment env pid amount s)))" "P (sdb (snd (CancelPayment env pid s)))"
    by (rule pay_steps_keep [OF _ assms], rule steps)+
qed

lemma payment_handlers_keep:
  assumes "P (sdb s)"
  shows "P (sdb (snd (CreatePaymentHandler rl env now r s)))"
    "P (sdb (snd (CapturePaymentHandler look env now r s)))"
    "P (sdb (snd (RefundPaymentHandler rl look env now r s)))"
    "P (sdb (snd (CancelPaymentHandler look env now r s)))"
proof -
  note keep = services_keep [OF assms]
  show "P (sdb (snd (CreatePaymentHandler rl env now r s)))"
    by (simp add: CreatePaymentHandler_def assms keep split: option.split)
  show "P (sdb (snd (CapturePaymentHandler look env now r s)))"
    by (simp add: CapturePaymentHandler_def Let_def assms keep split: sum.split)
  show "P (sdb (snd (RefundPaymentHandler rl look env now r s)))"
    by (simp add: RefundPaymentHandler_def Let_def assms keep split: sum.split option.split)
  show "P (sdb (snd (CancelPaymentHandler look env now r s)))"
    by (simp add: CancelPaymentHandler_def Let_def assms keep split: sum.split)
qed

lemma ingests_keep:
  "IngestWebhook lib adps env psp ty payload sig d = (res, d') \<Longrightarrow> P d \<Longrightarrow> P d'"
  "IngestWebhookRetry lib adps env psp ty payload d = (res, d') \<Longrightarrow> P d \<Longrightarrow> P d'"
  by (auto simp: IngestWebhook_def IngestWebhookRetry_def dest: ingest_keeps split: option.splits)

lemma receive_keeps: "P d \<Longrightarrow> P (snd (receive_webhook lib adps codec env msg d))"
  by (auto simp: receive_webhook_def dest: ingests_keep(1) split: option.split prod.split sum.split)

lemma HandleWebhook_keeps:
  "P (snd s) \<Longrightarrow> P (snd (snd (HandleWebhook lib adps client env now r s)))"
  by (auto simp: HandleWebhook_def Let_def dest: ingests_keep(1) split: option.split prod.split sum.split)

lemma RetryEntry_keeps:
  "P (snd s) \<Longrightarrow> P (snd (snd (RetryEntryHandler rl rdb codec lib adps env now r s)))"
  by (auto simp: RetryEntryHandler_def Retry_def dest: ingests_keep(2) split: option.split prod.splits sum.splits option.splits)

lemma RunBatch_keeps:
  assumes "RunBatchReconciliation adps env psp date s = (res, d', w')" and "P (fst s)"
  shows "P d'"
proof -
  have "batch_step (fst s) d'" using RunBatch_step [of "fst s" adps env psp date "snd s"] assms(1) by simp
  then have "recon_only (fst s) d'" by (simp add: batch_step_def)
  with assms(2) recon_free [where rs = "reconciliation_records d'" and ds = "reconciliation_discrepancies d'"] show ?thesis
    unfolding recon_only_def by metis
qed

lemma Trigger_keeps:
  "P (fst s) \<Longrightarrow> P (fst (snd (TriggerReconciliation adps env now r s)))"
  by (auto simp: TriggerReconciliation_def Let_def dest: RunBatch_keeps split: option.split prod.split sum.split)

text \<open>The server.\<close>

lemma endpoint_keeps:
  fixes b :: "('w, 'r, 'p) backend"
  assumes "P (get_db b)"
  shows "P (get_db (snd (snd (endpoint_handler ap lib mo ep r (m, b)))))"
proof (cases "reading ep")
  case True
  with assms show ?thesis by (simp add: reading_idle)
next
  case False
  have db: "get_db x = sdb (be_sys x)" "get_db x = snd (get_queue x)" "get_db x = snd (get_inbox x)" "get_db x = fst (get_recon x)"
    for x :: "('w, 'r, 'p) backend" by (simp_all add: part_defs)
  note given = assms [unfolded db(1)] assms [unfolded db(2)] assms [unfolded db(3)] assms [unfolded db(4)]
  have sys: "P (get_db (snd (focus be_sys set_sys h r b)))"
    if "P (sdb (snd (h r (be_sys b))))" for h :: "(payload, 'w sys) handler"
    using that by (simp only: db(1) sys_part.focus_get)
  have queue: "P (get_db (snd (focus get_queue set_queue h r b)))"
    if "P (snd (snd (h r (get_queue b))))" for h :: "(payload, 'r \<times> db) handler"
    using that by (simp only: db(2) queue_part.focus_get)
  have inbox: "P (get_db (snd (focus get_inbox set_inbox h r b)))"
    if "P (snd (snd (h r (get_inbox b))))" for h :: "(payload, 'p \<times> db) handler"
    using that by (simp only: db(3) inbox_part.focus_get)
  have recon: "P (get_db (snd (focus get_recon set_recon h r b)))"
    if "P (fst (snd (h r (get_recon b))))" for h :: "(payload, db \<times> 'w) handler"
    using that by (simp only: db(4) recon_part.focus_get)
  show ?thesis
    using False
    by (cases ep)
      (simp_all add: reading_def endpoint_handler_def Let_def beside_snd sys queue inbox recon payment_handlers_keep
        HandleWebhook_keeps RetryEntry_keeps PurgeQueue_keeps_db Trigger_keeps given)
qed

lemma routed_keeps:
  assumes "P (get_db b)"
  shows "P (get_db (snd (snd (routed route_of ap lib mo r (m, b)))))"
proof (cases "route_of (hq_Method r) (hq_Path r)")
  case (Selected ep ps)
  then show ?thesis unfolding get_db_def routed_def
    by (simp, intro group_middleware_keeps [where Q = "\<lambda>x. P (sdb x)"] endpoint_keeps [unfolded get_db_def]
        assms [unfolded get_db_def])
next
  case (Unmatched g resp)
  then show ?thesis unfolding get_db_def routed_def
    by (simp, intro group_middleware_keeps [where Q = "\<lambda>x. P (sdb x)"])
      (simp_all add: assms [unfolded get_db_def])
qed

lemma serve_keeps:
  assumes "P (system_db s)"
  shows "P (system_db (snd (serve_request route_of ap lib mo r s)))"
proof -
  obtain rl logs m b where s: "s = (rl, logs, m, b)" by (cases s) auto
  show ?thesis
  proof (rule serve_request_cases [of route_of ap lib mo r rl logs m b])
    fix x m1 resp rl' logs' m' b'
    assume "routed route_of ap lib mo (seen mo r) (counted m, b) = (x, m1, b')"
      "serve_request route_of ap lib mo r (rl, logs, m, b) = (Some resp, rl', logs', m', b')"
    with routed_keeps [of b route_of ap lib mo "seen mo r" "counted m"] assms show ?thesis
      by (simp add: s system_db_def)
  qed (use assms in \<open>simp add: s system_db_def\<close>)
qed

lemma system_step_keeps: "P (system_db s) \<Longrightarrow> P (system_db (system_step route_of ap lib codec s e))"
  by (cases e; cases s)
    (simp_all add: serve_keeps, simp_all add: system_db_def part_defs receive_keeps)

end

text \<open>Hence every such property is an invariant of the running server.\<close>

sublocale tables_property \<subseteq> serving: machine "system_step route_of ap lib codec" "\<lambda>s. P (system_db s)"
  for route_of ap lib codec
  by unfold_locales (rule system_step_keeps)

text \<open>
  C1: whatever a server goes through from an empty database on, any requests by anyone, deliveries of
  queued webhooks and sweeps, in any order and with any failures of database, providers, Redis and
  Pub/Sub: payment identifiers stay unique; every payment's audit trail replays, along the transition
  table, to its status; refunds stay within the amount and come with a refund status; every account balance is the fold of its entries, every ledger transaction balances
  and so does the whole ledger.
\<close>

theorem system_keeps_books:
  "let d = system_db (foldl (system_step route_of ap lib codec) (rl, logs, m, set_db migrated_db b) es)
   in distinct (map pay_id (payments d))
    \<and> list_all (\<lambda>r. replay (trail d (pay_id r)) = Some (pay_status r)
        \<and> 0 \<le> sint (pay_total_refunded r) \<and> sint (pay_total_refunded r) \<le> sint (pay_amount r)
        \<and> (pay_total_refunded r = 0 \<or> is_refund_status (pay_status r))) (payments d)
    \<and> list_all (\<lambda>a. running (la_AccountType a) 0 (entries_of d (la_ID a)) = Some (la_CurrentBalance a)) (ledger_accounts d)
    \<and> list_all (\<lambda>t. tx_balanced d (lt_ID t)) (ledger_transactions d)
    \<and> trial (ledger_accounts d) = 0"
proof -
  let ?s = "(rl, logs, m, set_db migrated_db b)"
  have "core_inv (system_db ?s)"
    by (simp add: system_db_def db_part.get_put core_inv_def payments_inv_migrated ledger_inv_migrated)
  then have "core_inv (system_db (foldl (system_step route_of ap lib codec) ?s es))"
    by (rule in_order.serving.run_keeps_inv)
  then show ?thesis
    by (auto simp: core_inv_def payments_inv_def ledger_inv_def books_inv_def chk_refund_cap_def int64_order list_all_iff Let_def)
qed

text \<open>
  The server refines the abstract machine of payments: from an empty database on, everything a server
  goes through is a course of openings, authorizations, captures, refunds, cancellations and failures of
  payments, and whatever it goes through next continues that course.
\<close>

theorem server_refines_lifecycle:
  "let s = foldl (system_step route_of ap lib codec) (rl, logs, m, set_db migrated_db b) es;
       s' = foldl (system_step route_of ap lib codec) s fs
   in life_step\<^sup>*\<^sup>* Map.empty (lives_of (system_db s)) \<and> life_step\<^sup>*\<^sup>* (lives_of (system_db s)) (lives_of (system_db s'))"
proof -
  let ?run = "foldl (system_step route_of ap lib codec)"
  have start: "refined_since migrated_db (system_db (rl, logs, m, set_db migrated_db b))"
    by (simp add: refined_since_def system_db_def db_part.get_put core_inv_def payments_inv_migrated ledger_inv_migrated)
  then have first: "refined_since migrated_db (system_db (?run (rl, logs, m, set_db migrated_db b) es))"
    by (rule refining.serving.run_keeps_inv)
  define s where "s = ?run (rl, logs, m, set_db migrated_db b) es"
  from first have "refined_since (system_db s) (system_db s)" by (simp add: refined_since_def s_def)
  then have "refined_since (system_db s) (system_db (?run s fs))" by (rule refining.serving.run_keeps_inv)
  with first show ?thesis by (simp add: refined_since_def lives_migrated s_def Let_def)
qed

text \<open>
  C19: a settled payment stays as it is: once a payment is refunded, cancelled or failed, no request, webhook,
  redelivery or sweep changes anything in its row again.
\<close>

theorem settled_payments_stay:
  assumes "core_inv (system_db s)" and "payment_by_id (system_db s) pid = Some r" and "IsTerminal (pay_status r)"
  shows "payment_by_id (system_db (foldl (system_step route_of ap lib codec) s es)) pid = Some r"
proof -
  from assms(2) have "pay_id r = pid" by (auto dest: payment_by_id_SomeD)
  with assms staying.serving.run_keeps_inv [of r s route_of ap lib codec es] show ?thesis by (simp add: settled_def)
qed

lemma settled_payments_stay_witness:
  "\<exists>r. pay_status r = PaymentStatusRefunded
    \<and> (\<forall>rl logs m (b :: (mock_world, unit, unit) backend) es.
        payment_by_id (system_db (foldl (system_step segment_route demo_app demo_app_lib demo_message_codec)
          (rl, logs, m, set_db (sdb demo_refunded) b) es)) ''-'' = Some r)"
proof -
  from demo_refunded_status obtain r where r: "payment_by_id (sdb demo_refunded) ''-'' = Some r"
    "pay_status r = PaymentStatusRefunded" by auto
  have "core_inv (sdb demo_sys)" by (simp add: demo_sys_def core_inv_def payments_inv_migrated ledger_inv_migrated)
  then have "core_inv (sdb demo_refunded)"
    unfolding demo_refunded_def demo_created_def by (intro in_order.payment_run_keeps)
  then have "core_inv (system_db (rl, logs, m, set_db (sdb demo_refunded) b))"
    and "payment_by_id (system_db (rl, logs, m, set_db (sdb demo_refunded) b)) ''-'' = Some r"
    for rl logs m and b :: "(mock_world, unit, unit) backend"
    using r by (simp_all add: system_db_def db_part.get_put)
  from settled_payments_stay [OF this] r show ?thesis by fastforce
qed

end
