(* ===== verification/Exactly_Once.thy ===== *)
theory Exactly_Once
  imports System
begin

text \<open>
  Idempotency through the whole server: a payment request that succeeded is not executed again while its
  key lives, whatever the server goes through in between. The marker in Redis is followed through
  requests, sweeps and deliveries; of Redis only the laws are used, so commands may fail.
\<close>

section \<open>A claimed key\<close>

text \<open>Commands on lists leave the string keys alone.\<close>

definition keys_apart :: "'r redis_api \<Rightarrow> ('r \<Rightarrow> keyspace) \<Rightarrow> bool" where
  "keys_apart api view \<longleftrightarrow>
     (\<forall>k i v s. view (snd (rd_LSet api k i v s)) = view s) \<and> (\<forall>k v s. view (snd (rd_LRem api k v s)) = view s)"

definition holds_key :: "string \<Rightarrow> time \<Rightarrow> keyspace \<Rightarrow> bool" where
  "holds_key k T ks \<longleftrightarrow> (\<exists>v expiry. ks k = Some (v, expiry) \<and> T \<le> expiry)"

lemma holds_key_live: "holds_key k T ks \<Longrightarrow> now < T \<Longrightarrow> live now ks k \<noteq> None"
  by (auto simp: holds_key_def live_def)

lemma holds_key_cong: "ks' k = ks k \<Longrightarrow> holds_key k T ks' = holds_key k T ks"
  by (simp add: holds_key_def)

lemma claim_keeps:
  assumes "redis_laws api view" and "holds_key k T (view rd)" and "now < T" and "idem_claim api now r rd = (c, rd')"
  shows "view rd' k = view rd k" and "redisKey r = k \<Longrightarrow> c \<noteq> Claimed"
proof -
  note live = holds_key_live [OF assms(2,3)]
  have "view rd' k = view rd k \<and> (redisKey r = k \<longrightarrow> c \<noteq> Claimed)"
    using assms(1)
  proof (cases rule: SetNX_cases [where now = now and k = "redisKey r" and v = processingMarker and ttl = idempotencyTTL and s = rd])
    case (claimed s')
    with assms(4) live show ?thesis by (auto simp: idem_claim_def)
  next
    case (taken s')
    with assms(4) show ?thesis by (auto simp: idem_claim_def)
  next
    case (failed e s')
    with assms(4) live show ?thesis by (auto simp: idem_claim_def)
  qed
  then show "view rd' k = view rd k" and "redisKey r = k \<Longrightarrow> c \<noteq> Claimed" by auto
qed

lemma finish_view:
  assumes "redis_laws api view"
  shows "view (idem_finish api now render r resp rd) = view rd
    \<or> (\<exists>v. view (idem_finish api now render r resp rd) = (view rd)(redisKey r \<mapsto> (v, now + idempotencyTTL)))
    \<or> \<not> (200 \<le> hr_Status resp \<and> hr_Status resp < 300) \<and> view (idem_finish api now render r resp rd) = (view rd)(redisKey r := None)"
  using Set_cases [OF assms, where now = now and k = "redisKey r" and v = "cached_text (hr_Status resp) (render (hr_Body resp))"
      and ttl = idempotencyTTL and s = rd] Del_cases [OF assms, where k = "redisKey r" and s = rd]
  by (auto simp: idem_finish_def cacheResponse_def)

lemma finish_keeps:
  assumes "redis_laws api view" and "redisKey r \<noteq> k"
  shows "view (idem_finish api now render r resp rd) k = view rd k"
  using finish_view [OF assms(1), of now render r resp rd] assms(2) by auto

section \<open>The key through one request\<close>

definition key_in :: "('r \<Rightarrow> keyspace) \<Rightarrow> string \<Rightarrow> time \<Rightarrow> ('w, 'r, 'p) backend \<Rightarrow> bool" where
  "key_in view k T b \<longleftrightarrow> holds_key k T (view (be_redis b))"

lemma key_in_auth [simp]: "key_in view k T (b\<lparr>be_auth := au\<rparr>) = key_in view k T b"
  by (simp add: key_in_def)

text \<open>Behind a key that lives the handler does not run.\<close>

lemma idempotent_keeps_key:
  fixes b :: "('w, 'r, 'p) backend" and h :: "(payload, 'm \<times> ('w, 'r, 'p) backend) handler"
  assumes "redis_laws api view" and "key_in view k T b" and "now < T"
  shows "key_in view k T (snd (snd (idempotent (Some api) now later render h r (m, b))))"
    and "idem_applies r \<Longrightarrow> redisKey r = k \<Longrightarrow> be_sys (snd (snd (idempotent (Some api) now later render h r (m, b)))) = be_sys b"
proof -
  obtain x m' b' where h: "h r (m, b) = (x, m', b')" by (metis surj_pair)
  obtain c rd' where c: "idem_claim api now r (be_redis b) = (c :: payload claim, rd')" by (metis surj_pair)
  have "holds_key k T (view (be_redis b))" using assms(2) by (simp add: key_in_def)
  note claim = claim_keeps [OF assms(1) this assms(3) c]
  have held: "holds_key k T (view rd')"
    using claim(1) assms(2) holds_key_cong [of "view rd'" k "view (be_redis b)" T] by (simp add: key_in_def)
  show "key_in view k T (snd (snd (idempotent (Some api) now later render h r (m, b))))"
  proof (cases "idem_applies r \<and> c = Claimed")
    case True
    then have "holds_key k T (view (idem_finish api later render r y rd'))" for y
      using claim(2) held finish_keeps [OF assms(1)] holds_key_cong [of _ k "view rd'" T] by blast
    with True c h held show ?thesis by (cases x) (simp_all add: idempotent_def Idempotency_def key_in_def)
  next
    case False
    with c h held assms(2) show ?thesis
      by (cases c) (auto simp: idempotent_def Idempotency_def key_in_def)
  qed
  show "be_sys (snd (snd (idempotent (Some api) now later render h r (m, b)))) = be_sys b"
    if "idem_applies r" "redisKey r = k"
    using that c claim(2) by (cases c) (simp_all add: idempotent_def Idempotency_def)
qed

text \<open>No endpoint touches an idempotency key; only the administration of the queue writes to Redis at all.\<close>

definition redis_contract :: "'r redis_api option \<Rightarrow> ('r \<Rightarrow> keyspace) \<Rightarrow> bool" where
  "redis_contract rdb view \<longleftrightarrow> (case rdb of None \<Rightarrow> True | Some api \<Rightarrow> redis_laws api view \<and> keys_apart api view)"

lemma queue_admin_keeps_view:
  assumes "redis_contract rdb view" and "k \<noteq> dlqKey"
  shows "view (fst (snd (RetryEntryHandler rl rdb codec lib adps env now r (rd, d)))) k = view rd k"
    and "view (fst (snd (PurgeQueueHandler rdb now r (rd, d)))) k = view rd k"
proof -
  have "view (retry_remove api index rd) = view rd" if "rdb = Some api" for api index rd
    using assms(1) that by (simp add: redis_contract_def retry_remove_def keys_apart_def)
  then show "view (fst (snd (RetryEntryHandler rl rdb codec lib adps env now r (rd, d)))) k = view rd k"
    by (auto simp: RetryEntryHandler_def Retry_def split: option.split prod.split sum.split)
  have "view (snd (rd_Del api dlqKey rd)) k = view rd k" if "rdb = Some api" for api rd
    using Del_cases [where api = api and view = view and k = dlqKey and s = rd] assms that
    by (auto simp: redis_contract_def)
  then show "view (fst (snd (PurgeQueueHandler rdb now r (rd, d)))) k = view rd k"
    by (auto simp: PurgeQueueHandler_def Purge_def split: option.split prod.split sum.split) (metis snd_conv)+
qed

lemma endpoint_keeps_view:
  fixes b :: "('w, 'r, 'p) backend"
  assumes "redis_contract (ap_redis ap) view" and "k \<noteq> dlqKey"
  shows "view (be_redis (snd (snd (endpoint_handler ap lib mo ep r (m, b))))) k = view (be_redis b) k"
proof (cases "reading ep")
  case True
  then show ?thesis by (simp add: reading_idle)
next
  case False
  have queue: "be_redis (snd (focus get_queue set_queue h r b)) = fst (snd (h r (get_queue b)))" for h :: "(payload, 'r \<times> db) handler"
    by (simp add: focus_def set_queue_def split: prod.split)
  have other: "be_redis (snd (focus be_sys set_sys h r b)) = be_redis b" "be_redis (snd (focus get_inbox set_inbox h' r b)) = be_redis b"
    "be_redis (snd (focus get_recon set_recon h'' r b)) = be_redis b"
    for h :: "(payload, 'w sys) handler" and h' :: "(payload, 'p \<times> db) handler" and h'' :: "(payload, db \<times> 'w) handler"
    using sys_part.focus_other [of h r b] inbox_part.focus_other [of h' r b] recon_part.focus_other [of h'' r b] by simp_all
  show ?thesis
    using False
    by (cases ep) (simp_all add: reading_def endpoint_handler_def Let_def beside_snd other queue get_queue_def
        queue_admin_keeps_view [OF assms])
qed

lemma endpoint_keeps_key:
  fixes b :: "('w, 'r, 'p) backend"
  assumes "redis_laws api view" and "keys_apart api view" and "ap_redis ap = Some api" and "k \<noteq> dlqKey" and "key_in view k T b"
  shows "key_in view k T (snd (snd (endpoint_handler ap lib mo ep r (m, b))))"
  using assms endpoint_keeps_view [of ap view k lib mo ep r m b] by (simp add: redis_contract_def key_in_def holds_key_def)

section \<open>The key through the server\<close>

lemma authenticated_result:
  fixes h :: "(payload, 'm \<times> ('w, 'r, 'p) backend) handler"
  assumes "Q b" and "\<And>i. presents_key keys r i \<Longrightarrow> Q (snd (snd (h (r\<lparr>hq_Merchant := Some i\<rparr>) (m, b))))"
    and "\<And>x au. Q (x\<lparr>be_auth := au\<rparr>) = Q x"
  shows "Q (snd (snd (authenticated keys now g h r (m, b))))"
proof (rule authenticated_cases [of keys now g h r m b])
  fix i x m' b' au
  assume "presents_key keys r i" "h (r\<lparr>hq_Merchant := Some i\<rparr>) (m, b) = (x, m', b')"
    "authenticated keys now g h r (m, b) = (x, m', b'\<lparr>be_auth := au\<rparr>)"
  with assms(2) [of i] assms(3) show ?thesis by simp
qed (use assms(1,3) in simp)

lemma group_keeps_key:
  fixes b :: "('w, 'r, 'p) backend" and h :: "(payload, 'm \<times> ('w, 'r, 'p) backend) handler"
  assumes "redis_laws api view" and "ap_redis ap = Some api" and "key_in view k T b" and "mo_now mo < T"
    and "\<And>i. key_in view k T (snd (snd (h (r\<lparr>hq_Merchant := i\<rparr>) (m, b))))"
  shows "key_in view k T (snd (snd (group_middleware ap lib mo g h r (m, b))))"
proof (cases g)
  case None
  with assms(5) [of "hq_Merchant r"] show ?thesis by (simp add: group_middleware_def)
next
  case (Some g')
  note auth = authenticated_result [where Q = "key_in view k T", OF assms(3)]
  show ?thesis
    by (cases g')
      (simp_all add: group_middleware_def Some assms(2,5) auth idempotent_keeps_key(1) [OF assms(1,3,4)])
qed

lemma routed_keeps_key:
  fixes b :: "('w, 'r, 'p) backend"
  assumes "redis_laws api view" and "keys_apart api view" and "ap_redis ap = Some api" and "k \<noteq> dlqKey"
    and "key_in view k T b" and "mo_now mo < T"
  shows "key_in view k T (snd (snd (routed route_of ap lib mo r (m, b))))"
  by (cases "route_of (hq_Method r) (hq_Path r)")
    (simp_all add: routed_def group_keeps_key [OF assms(1,3,5,6)] endpoint_keeps_key [OF assms(1-5)] assms(5))

definition system_backend :: "('w, 'r, 'p) system \<Rightarrow> ('w, 'r, 'p) backend" where
  "system_backend s = snd (snd (snd s))"

fun comes_before :: "time \<Rightarrow> system_event \<Rightarrow> bool" where
  "comes_before T (Served mo r) = (mo_now mo < T)"
| "comes_before T (Received env msg) = True"
| "comes_before T (Swept now) = True"

lemma serve_backend:
  fixes s :: "('w, 'r, 'p) system"
  obtains (early) "system_backend (snd (serve_request route_of ap lib mo r s)) = system_backend s"
    "hq_Method r = ''OPTIONS'' \<or> (\<forall>resp. fst (serve_request route_of ap lib mo r s) = Some resp \<longrightarrow> hr_Status resp = 429)"
  | (late) x m1 resp where "routed route_of ap lib mo (seen mo r) (counted (fst (snd (snd s))), system_backend s)
        = (x, m1, system_backend (snd (serve_request route_of ap lib mo r s)))"
    "fst (serve_request route_of ap lib mo r s) = Some resp"
    "case x of None \<Rightarrow> hr_Status resp = 500 | Some y \<Rightarrow> hr_Status resp = hr_Status y"
proof -
  obtain rl logs m b where s: "s = (rl, logs, m, b)" by (cases s) auto
  show thesis
  proof (rule serve_request_cases [of route_of ap lib mo r rl logs m b])
    fix resp rl' logs'
    assume "serve_request route_of ap lib mo r (rl, logs, m, b) = (Some resp, rl', logs', m, b)" "answered_early r resp"
    then show thesis by (intro early) (auto simp: s system_backend_def answered_early_def)
  next
    fix x m1 resp rl' logs' m' b'
    assume run: "routed route_of ap lib mo (seen mo r) (counted m, b) = (x, m1, b')"
      and serve: "serve_request route_of ap lib mo r (rl, logs, m, b) = (Some resp, rl', logs', m', b')"
      and resp: "case x of None \<Rightarrow> hr_Status resp = 500 | Some y \<Rightarrow> hr_Status resp = hr_Status y \<and> hr_Body resp = hr_Body y"
    then show thesis by (intro late [of x m1 resp]) (auto simp: s system_backend_def split: option.splits)
  qed
qed

lemma step_keeps_key:
  fixes s :: "('w, 'r, 'p) system"
  assumes "redis_laws api view" and "keys_apart api view" and "ap_redis ap = Some api" and "k \<noteq> dlqKey"
    and "key_in view k T (system_backend s)" and "comes_before T e"
  shows "key_in view k T (system_backend (system_step route_of ap lib codec s e))"
proof (cases e)
  case (Served mo r)
  with assms(6) have "mo_now mo < T" by simp
  note routed = routed_keeps_key [OF assms(1-5) this, of route_of lib]
  show ?thesis
  proof (rule serve_backend [of route_of ap lib mo r s])
    fix x m1
    assume "routed route_of ap lib mo (seen mo r) (counted (fst (snd (snd s))), system_backend s)
        = (x, m1, system_backend (snd (serve_request route_of ap lib mo r s)))"
    with routed [of "seen mo r" "counted (fst (snd (snd s)))"] show ?thesis by (simp add: Served)
  qed (use assms(5) in \<open>simp add: Served\<close>)
qed (use assms(5) in \<open>cases s, simp add: system_backend_def key_in_def part_defs\<close>)+

lemma run_keeps_key:
  assumes "redis_laws api view" and "keys_apart api view" and "ap_redis ap = Some api" and "k \<noteq> dlqKey"
    and "key_in view k T (system_backend s)" and "list_all (comes_before T) es"
  shows "key_in view k T (system_backend (foldl (system_step route_of ap lib codec) s es))"
  using assms(5,6)
proof (induction es arbitrary: s)
  case (Cons e es)
  then show ?case using step_keeps_key [OF assms(1-4)] by simp
qed simp

section \<open>A success is final\<close>

definition payment_key :: "string \<Rightarrow> http_request \<Rightarrow> string" where
  "payment_key merchant r = ''idempotency:'' @ merchant @ '':'' @ Header r ''Idempotency-Key''"

lemma redisKey_merchant: "i \<noteq> [] \<Longrightarrow> redisKey (r\<lparr>hq_Merchant := Some i\<rparr>) = payment_key i r"
  by (simp add: redisKey_def payment_key_def MerchantIDFromContext_def)

lemma payment_key_apart: "payment_key i r \<noteq> dlqKey"
  by (simp add: payment_key_def dlqKey_def)

lemma key_reads [simp]:
  "payment_key i (seen mo r) = payment_key i r" "payment_key i (r\<lparr>hq_Params := ps\<rparr>) = payment_key i r"
  "idem_applies (seen mo r) = idem_applies r" "idem_applies (r\<lparr>hq_Params := ps\<rparr>) = idem_applies r"
  "idem_applies (r\<lparr>hq_Merchant := j\<rparr>) = idem_applies r" "protection route_of (seen mo r) = protection route_of r"
  by (simp_all add: payment_key_def Header_def idem_applies_def protection_def)

lemma presents_key_unique: "presents_key keys r i \<Longrightarrow> presents_key keys r j \<Longrightarrow> i = j"
  by (simp add: presents_key_def)

text \<open>How a request under the payment routes is served.\<close>

lemma routed_payments:
  assumes "protection route_of r = Some GroupPayments" and "ap_redis ap = Some api"
  obtains h r' where "r' = r \<or> (\<exists>ps. r' = r\<lparr>hq_Params := ps\<rparr>)"
    "\<And>s. routed route_of ap lib mo r s = authenticated (ap_keys ap) (mo_now mo) GroupPayments
        (idempotent (Some api) (mo_now mo) (mo_end mo) (al_render lib) h) r' s"
proof (rule routed_cases [of route_of r ap lib mo])
  fix ep ps
  assume "protection route_of r = group_of ep" and eq: "\<And>s. routed route_of ap lib mo r s
      = group_middleware ap lib mo (group_of ep) (endpoint_handler ap lib mo ep) (r\<lparr>hq_Params := ps\<rparr>) s"
  with assms show thesis
    by (intro that [of "r\<lparr>hq_Params := ps\<rparr>" "endpoint_handler ap lib mo ep"]) (auto simp: group_middleware_def)
next
  fix g resp
  assume "protection route_of r = g" and eq: "\<And>s. routed route_of ap lib mo r s = group_middleware ap lib mo g (reply_with resp) r s"
  with assms that [of r "reply_with resp"] show thesis by (simp add: group_middleware_def)
qed

lemma idempotent_sets_key:
  fixes b :: "('w, 'r, 'p) backend" and h :: "(payload, 'm \<times> ('w, 'r, 'p) backend) handler"
  assumes "redis_laws api view" and "idem_applies r" and "live now (view (be_redis b)) (redisKey r) = None"
    and "idempotent (Some api) now later render h r (m, b) = (Some y, m', b')" and "200 \<le> hr_Status y" and "hr_Status y < 300"
  shows "key_in view (redisKey r) (min now later + idempotencyTTL) b'"
  using assms(1)
proof (cases rule: SetNX_cases [where now = now and k = "redisKey r" and v = processingMarker and ttl = idempotencyTTL
      and s = "be_redis b"])
  case (claimed rd)
  then have "idem_claim api now r (be_redis b) = (Claimed :: payload claim, rd)" by (simp add: idem_claim_def)
  moreover obtain x m1 b1 where "h r (m, b) = (x, m1, b1)" by (metis surj_pair)
  ultimately have "be_redis b' = idem_finish api later render r y rd"
    using assms(2,4) by (cases x) (auto simp: idempotent_def Idempotency_def)
  with finish_view [OF assms(1), of later render r y rd] assms(5,6) claimed show ?thesis
    by (auto simp: key_in_def holds_key_def)
next
  case (taken rd)
  with assms(3) show ?thesis by simp
next
  case (failed e rd)
  then have "fst (idempotent (Some api) now later render h r (m, b)) = Some (raw_error 503 [] ''SERVICE_UNAVAILABLE''
      ''idempotency service temporarily unavailable, please retry'')"
    using assms(2) by (simp add: idempotent_def Idempotency_def idem_claim_def split: prod.split)
  with assms(4) have "hr_Status y = 503" by auto
  with assms(6) show ?thesis by simp
qed

lemma payments_set_key:
  fixes b :: "('w, 'r, 'p) backend" and h :: "(payload, 'm \<times> ('w, 'r, 'p) backend) handler"
  assumes "redis_laws api view" and "presents_key keys r i" and "idem_applies r"
    and "live now (view (be_redis b)) (payment_key i r) = None"
    and "authenticated keys now g (idempotent (Some api) now later render h) r (m, b) = (Some y, m', b')"
    and "200 \<le> hr_Status y" and "hr_Status y < 300"
  shows "key_in view (payment_key i r) (min now later + idempotencyTTL) b'"
proof (rule authenticated_cases [of keys now g "idempotent (Some api) now later render h" r m b])
  fix j x m1 b1 au
  assume j: "presents_key keys r j" and run: "idempotent (Some api) now later render h (r\<lparr>hq_Merchant := Some j\<rparr>) (m, b) = (x, m1, b1)"
    "authenticated keys now g (idempotent (Some api) now later render h) r (m, b) = (x, m1, b1\<lparr>be_auth := au\<rparr>)"
  from j assms(2) have i: "j = i" "redisKey (r\<lparr>hq_Merchant := Some i\<rparr>) = payment_key i r"
    by (auto simp: presents_key_def redisKey_merchant)
  from run assms(5) have "idempotent (Some api) now later render h (r\<lparr>hq_Merchant := Some i\<rparr>) (m, b) = (Some y, m1, b1)"
    and b': "b' = b1\<lparr>be_auth := au\<rparr>" by (simp_all add: i(1))
  from idempotent_sets_key [OF assms(1) _ _ this(1) assms(6,7)] assms(3,4) show ?thesis by (simp add: i(2) b')
qed (use assms(5-7) in auto)

lemma payments_blocked:
  fixes b :: "('w, 'r, 'p) backend" and h :: "(payload, 'm \<times> ('w, 'r, 'p) backend) handler"
  assumes "redis_laws api view" and "presents_key keys r i" and "idem_applies r"
    and "key_in view (payment_key i r) T b" and "now < T"
  shows "be_sys (snd (snd (authenticated keys now g (idempotent (Some api) now later render h) r (m, b)))) = be_sys b"
proof (rule authenticated_result [where Q = "\<lambda>x. be_sys x = be_sys b"])
  fix j
  assume "presents_key keys r j"
  with assms(2) have i: "j = i" "redisKey (r\<lparr>hq_Merchant := Some i\<rparr>) = payment_key i r"
    by (auto simp: presents_key_def redisKey_merchant)
  show "be_sys (snd (snd (idempotent (Some api) now later render h (r\<lparr>hq_Merchant := Some j\<rparr>) (m, b)))) = be_sys b"
    unfolding i(1) by (rule idempotent_keeps_key(2) [OF assms(1,4,5)]) (simp_all add: assms(3) i(2))
qed simp_all

lemma success_sets_key:
  fixes s :: "('w, 'r, 'p) system"
  assumes "redis_laws api view" and "ap_redis ap = Some api"
    and "protection route_of r = Some GroupPayments" and "presents_key (ap_keys ap) r i" and "idem_applies r"
    and "live (mo_now mo) (view (be_redis (system_backend s))) (payment_key i r) = None"
    and "serve_request route_of ap lib mo r s = (Some resp, s1)" and "200 \<le> hr_Status resp" and "hr_Status resp < 300"
  shows "key_in view (payment_key i r) (min (mo_now mo) (mo_end mo) + idempotencyTTL) (system_backend s1)"
proof (rule serve_backend [of route_of ap lib mo r s])
  fix x m1 resp'
  let ?m = "counted (fst (snd (snd s)))"
  assume run: "routed route_of ap lib mo (seen mo r) (?m, system_backend s)
      = (x, m1, system_backend (snd (serve_request route_of ap lib mo r s)))"
    and "fst (serve_request route_of ap lib mo r s) = Some resp'"
    and "case x of None \<Rightarrow> hr_Status resp' = 500 | Some y \<Rightarrow> hr_Status resp' = hr_Status y"
  with assms(7-9) obtain y where y: "x = Some y" "200 \<le> hr_Status y" "hr_Status y < 300" by (cases x) auto
  have "protection route_of (seen mo r) = Some GroupPayments" using assms(3) by simp
  then show ?thesis
  proof (rule routed_payments [OF _ assms(2), where lib = lib and mo = mo])
    fix h q
    assume q: "q = seen mo r \<or> (\<exists>ps. q = seen mo r\<lparr>hq_Params := ps\<rparr>)"
      and eq: "\<And>s. routed route_of ap lib mo (seen mo r) s = authenticated (ap_keys ap) (mo_now mo) GroupPayments
        (idempotent (Some api) (mo_now mo) (mo_end mo) (al_render lib) h) q s"
    from q assms(4,5) have reads: "presents_key (ap_keys ap) q i" "idem_applies q" and k: "payment_key i q = payment_key i r"
      by auto
    have fresh: "live (mo_now mo) (view (be_redis (system_backend s))) (payment_key i q) = None"
      unfolding k by (rule assms(6))
    have "system_backend (snd (serve_request route_of ap lib mo r s)) = system_backend s1" using assms(7) by simp
    with payments_set_key [OF assms(1) reads fresh run [unfolded eq y(1)] y(2,3)] k show ?thesis by simp
  qed
next
  assume "hq_Method r = ''OPTIONS'' \<or> (\<forall>resp. fst (serve_request route_of ap lib mo r s) = Some resp \<longrightarrow> hr_Status resp = 429)"
  with assms(5,7,9) show ?thesis by (auto simp: idem_applies_def)
qed

lemma key_blocks:
  fixes s :: "('w, 'r, 'p) system"
  assumes "redis_laws api view" and "ap_redis ap = Some api"
    and "protection route_of r = Some GroupPayments" and "presents_key (ap_keys ap) r i" and "idem_applies r"
    and "key_in view (payment_key i r) T (system_backend s)" and "mo_now mo < T"
  shows "be_sys (system_backend (snd (serve_request route_of ap lib mo r s))) = be_sys (system_backend s)"
proof (rule serve_backend [of route_of ap lib mo r s])
  fix x m1
  let ?m = "counted (fst (snd (snd s)))"
  assume run: "routed route_of ap lib mo (seen mo r) (?m, system_backend s)
      = (x, m1, system_backend (snd (serve_request route_of ap lib mo r s)))"
  have "protection route_of (seen mo r) = Some GroupPayments" using assms(3) by simp
  then show ?thesis
  proof (rule routed_payments [OF _ assms(2), where lib = lib and mo = mo])
    fix h q
    assume q: "q = seen mo r \<or> (\<exists>ps. q = seen mo r\<lparr>hq_Params := ps\<rparr>)"
      and eq: "\<And>s. routed route_of ap lib mo (seen mo r) s = authenticated (ap_keys ap) (mo_now mo) GroupPayments
        (idempotent (Some api) (mo_now mo) (mo_end mo) (al_render lib) h) q s"
    from q assms(4,5) have reads: "presents_key (ap_keys ap) q i" "idem_applies q" and k: "payment_key i q = payment_key i r"
      by auto
    have "key_in view (payment_key i q) T (system_backend s)" unfolding k by (rule assms(6))
    from payments_blocked [OF assms(1) reads this assms(7), of GroupPayments "mo_end mo" "al_render lib" h ?m]
    show ?thesis unfolding eq [symmetric] run by simp
  qed
qed simp

text \<open>
  C10: no payment request is executed twice: once a request with an idempotency key was answered with
  success under the payment routes, and until 24 hours have passed, no request of the same merchant with
  the same key changes a payment, the ledger or a provider, whatever the server serves, receives and
  sweeps in between, whatever paths and bodies the requests have and whichever Redis commands fail.
\<close>

theorem completed_request_is_final:
  fixes s :: "('w, 'r, 'p) system"
  assumes "redis_laws api view" and "keys_apart api view" and "ap_redis ap = Some api"
    and "protection route_of r = Some GroupPayments" and "presents_key (ap_keys ap) r i" and "idem_applies r"
    and "live (mo_now mo) (view (be_redis (system_backend s))) (payment_key i r) = None"
    and "serve_request route_of ap lib mo r s = (Some resp, s1)" and "200 \<le> hr_Status resp" and "hr_Status resp < 300"
    and "T = min (mo_now mo) (mo_end mo) + idempotencyTTL" and "list_all (comes_before T) es"
    and "s2 = foldl (system_step route_of ap lib codec) s1 es"
    and "protection route_of r' = Some GroupPayments" and "presents_key (ap_keys ap) r' i" and "idem_applies r'"
    and "Header r' ''Idempotency-Key'' = Header r ''Idempotency-Key''" and "mo_now mo' < T"
  shows "be_sys (system_backend (snd (serve_request route_of ap lib mo' r' s2))) = be_sys (system_backend s2)"
proof -
  have "key_in view (payment_key i r) T (system_backend s1)"
    unfolding assms(11) by (rule success_sets_key [OF assms(1,3-10)])
  from run_keeps_key [OF assms(1-3) payment_key_apart this assms(12), of route_of lib codec]
  have "key_in view (payment_key i r') T (system_backend s2)"
    unfolding assms(13) by (simp add: payment_key_def assms(17))
  from key_blocks [OF assms(1,3,14-16) this assms(18)] show ?thesis .
qed

section \<open>A payment created once\<close>

definition pay_app :: "(mock_world, memory, unit) app" where
  "pay_app =
     \<lparr>ap_keys = [\<lparr>mk_MerchantID = ''merchant_abc'', mk_APIKey = ''k''\<rparr>, \<lparr>mk_MerchantID = ''shop'', mk_APIKey = ''k2''\<rparr>], ap_adapters = Map.empty, ap_redis = Some mem_api,
      ap_pubsub = None, ap_addr = '':8080''\<rparr>"

definition pay_backend :: "(mock_world, memory, unit) backend" where
  "pay_backend =
     \<lparr>be_sys = demo_sys, be_redis = mem_empty, be_pubsub = (), be_auth = (\<lambda>_. newAuthFailureTracker 10 60)\<rparr>"

definition pay_moment :: moment where "pay_moment = demo_moment\<lparr>mo_env := demo_env 0\<rparr>"

definition demo_post :: http_request where
  "demo_post =
     (demo_get ''/v1/payments/'' [(''Authorization'', ''Bearer k''), (''Idempotency-Key'', ''x'')])\<lparr>hq_Method := ''POST''\<rparr>"

lemma demo_post_simps:
  "hq_Method demo_post = ''POST''" "hq_Path demo_post = ''/v1/payments/''" "Header demo_post ''Idempotency-Key'' = ''x''"
  "hq_RemoteAddr demo_post = ''203.0.113.9:1''" "hq_Merchant demo_post = None" "hq_MaxBytes demo_post = None"
  by (simp_all add: demo_post_def demo_get_def request_from_def Header_def value_of_def)

lemma demo_post_token: "extractBearerToken demo_post = ''k''"
  by (simp add: extractBearerToken_def demo_post_def demo_get_def request_from_def Header_def value_of_def) code_simp

lemma demo_post_key: "presents_key (ap_keys pay_app) demo_post ''merchant_abc''"
  by (simp add: presents_key_def pay_app_def demo_post_token validateKeyAndGetMerchant_def)

lemma demo_post_route: "segment_route ''POST'' ''/v1/payments/'' = Selected EpCreate []"
  by code_simp

abbreviation demo_order :: create_payment_request where
  "demo_order \<equiv> demo_request\<lparr>rq_Amount := 10\<rparr>"

lemma demo_post_created:
  "\<exists>y s'. CreatePaymentHandler demo_lib_requests (demo_env 0) 0 (r\<lparr>hq_Merchant := Some ''merchant_abc''\<rparr>) demo_sys = (Some y, s')
    \<and> hr_Status y = 201 \<and> (\<exists>res. CreatePayment (demo_env 0) demo_order demo_sys = (Inr res, s'))" if "Header r ''Idempotency-Key'' = ''x''" for r
proof -
  let ?req = demo_order
  have "create_check 0 (r\<lparr>hq_Merchant := Some ''merchant_abc''\<rparr>) ?req = None"
    by (simp add: create_check_None acceptable_def demo_request_def supportedCurrencies_def MerchantIDFromContext_def)
  moreover obtain res s' where "CreatePayment (demo_env 0) ?req demo_sys = (Inr res, s')"
    using demo_create_answers by (metis not_isInl prod.collapse)
  ultimately show ?thesis
    using that by (simp add: CreatePaymentHandler_def demo_lib_requests_def payment_reply_def)
qed

lemma demo_post_routed:
  "\<exists>y m1 b1. routed segment_route pay_app demo_app_lib pay_moment (seen pay_moment demo_post) (m, pay_backend) = (Some y, m1, b1)
    \<and> hr_Status y = 201 \<and> (\<exists>res. CreatePayment (demo_env 0) demo_order demo_sys = (Inr res, be_sys b1))"
proof -
  let ?q = "seen pay_moment demo_post\<lparr>hq_Params := []\<rparr>"
  have q: "extractBearerToken ?q = ''k''" "Header ?q ''Idempotency-Key'' = ''x''"
    "Header (?q\<lparr>hq_Merchant := i\<rparr>) ''Idempotency-Key'' = ''x''" "hq_Method ?q = ''POST''" for i
    using demo_post_token by (simp_all add: extractBearerToken_def Header_def demo_post_simps [unfolded Header_def])
  obtain y s' where created: "CreatePaymentHandler demo_lib_requests (demo_env 0) 0 (?q\<lparr>hq_Merchant := Some ''merchant_abc''\<rparr>) demo_sys
      = (Some y, s')" "hr_Status y = 201" "\<exists>res. CreatePayment (demo_env 0) demo_order demo_sys = (Inr res, s')"
    using demo_post_created [of ?q] q(2) by blast
  let ?p = "?q\<lparr>hq_Merchant := Some ''merchant_abc''\<rparr>"
  obtain rd where claim: "idem_claim mem_api 0 ?p mem_empty = (Claimed :: payload claim, rd)"
    by (simp add: idem_claim_def mem_api_def mem_empty_def live_def)
  have "idem_applies ?p" using q(3,4) by (simp add: idem_applies_def)
  moreover have "beside (focus be_sys set_sys (CreatePaymentHandler demo_lib_requests (demo_env 0) 0)) ?p (m, pay_backend)
      = (Some y, m, pay_backend\<lparr>be_sys := s'\<rparr>)"
    using created(1) by (simp add: beside_def focus_def pay_backend_def set_sys_def)
  ultimately have run: "Idempotency (Some mem_api) 0 1 f (beside (focus be_sys set_sys (CreatePaymentHandler demo_lib_requests (demo_env 0) 0)))
      ?p (mem_empty, m, pay_backend) = (Some y, idem_finish mem_api 1 f ?p y rd, m, pay_backend\<lparr>be_sys := s'\<rparr>)" for f
    using claim by (simp add: Idempotency_def)
  have route: "routed segment_route pay_app demo_app_lib pay_moment (seen pay_moment demo_post) (m, pay_backend)
      = authenticated (ap_keys pay_app) 0 GroupPayments (idempotent (Some mem_api) 0 1 (al_render demo_app_lib)
          (beside (focus be_sys set_sys (CreatePaymentHandler demo_lib_requests (demo_env 0) 0)))) ?q (m, pay_backend)"
    by (simp add: routed_def demo_post_simps demo_post_route group_middleware_def pay_app_def endpoint_handler_def
        demo_app_lib_def pay_moment_def demo_moment_def)
  show ?thesis
    unfolding route
    using run [of "al_render demo_app_lib"] created(2,3)
    by (simp add: authenticated_def APIKeyAuth_def pay_app_def pay_backend_def isBlocked_def newAuthFailureTracker_def Let_def q(1)
        validateKeyAndGetMerchant_def idempotent_def)
qed

lemma serve_passes:
  assumes "hq_Method r \<noteq> ''OPTIONS''" and "fst (allow (mo_now mo) (hq_RemoteAddr (seen mo r)) rl)"
    and "routed route_of ap lib mo (seen mo r) (counted m, b) = (Some y, m1, b1)"
  shows "\<exists>resp s1. serve_request route_of ap lib mo r (rl, logs, m, b) = (Some resp, s1) \<and> hr_Status resp = hr_Status y
    \<and> system_backend s1 = b1"
  by (rule serve_request_cases [of route_of ap lib mo r rl logs m b]) (use assms in \<open>auto simp: system_backend_def\<close>)

lemma demo_post_served:
  "\<exists>resp s1 res. serve_request segment_route pay_app demo_app_lib pay_moment demo_post
      (NewRateLimiter 100 second 200, [], new_http_metrics, pay_backend) = (Some resp, s1) \<and> hr_Status resp = 201
    \<and> CreatePayment (demo_env 0) demo_order demo_sys = (Inr res, be_sys (system_backend s1))"
proof -
  let ?rl = "NewRateLimiter 100 second 200"
  obtain y m1 b1 res where "routed segment_route pay_app demo_app_lib pay_moment (seen pay_moment demo_post)
      (counted new_http_metrics, pay_backend) = (Some y, m1, b1)" "hr_Status y = 201"
    "CreatePayment (demo_env 0) demo_order demo_sys = (Inr res, be_sys b1)" using demo_post_routed by blast
  moreover have "fst (allow now a ?rl)" for now a by (simp add: allow_def NewRateLimiter_def)
  ultimately show ?thesis
    using serve_passes [of demo_post pay_moment ?rl segment_route pay_app demo_app_lib new_http_metrics pay_backend y m1 b1 "[]"]
    by (auto simp: demo_post_simps)
qed

lemma completed_request_is_final_witness:
  "\<exists>resp s1. serve_request segment_route pay_app demo_app_lib pay_moment demo_post
      (NewRateLimiter 100 second 200, [], new_http_metrics, pay_backend) = (Some resp, s1) \<and> hr_Status resp = 201
    \<and> (let s2 = foldl (system_step segment_route pay_app demo_app_lib demo_message_codec) s1 [Swept (60 * minute), Served pay_moment demo_post]
       in be_sys (system_backend (snd (serve_request segment_route pay_app demo_app_lib pay_moment demo_post s2)))
          = be_sys (system_backend s2))"
proof -
  let ?rl = "NewRateLimiter 100 second 200" and ?k = "payment_key ''merchant_abc'' demo_post"
  obtain resp s1 where first: "serve_request segment_route pay_app demo_app_lib pay_moment demo_post
      (?rl, [], new_http_metrics, pay_backend) = (Some resp, s1)" "hr_Status resp = 201"
    using demo_post_served by blast
  have apart: "keys_apart mem_api mem_keys" by (simp add: keys_apart_def mem_api_def split: option.split)
  have redis: "ap_redis pay_app = Some mem_api" by (simp add: pay_app_def)
  have prot: "protection segment_route demo_post = Some GroupPayments"
    by (simp add: protection_def demo_post_simps demo_post_route)
  have idem: "idem_applies demo_post" by (simp add: idem_applies_def demo_post_simps)
  have new: "live (mo_now pay_moment) (mem_keys (be_redis (system_backend (?rl, [], new_http_metrics, pay_backend)))) ?k = None"
    by (simp add: system_backend_def pay_backend_def mem_empty_def live_def)
  have early: "list_all (comes_before (0 + idempotencyTTL)) [Swept (60 * minute), Served pay_moment demo_post]"
    by (simp add: pay_moment_def demo_moment_def idempotencyTTL_def minute_def second_def)
  note again = completed_request_is_final [OF mem_laws(1) apart redis prot demo_post_key idem new first(1), of "0 + idempotencyTTL"
      "[Swept (60 * minute), Served pay_moment demo_post]" _ demo_message_codec demo_post pay_moment, OF _ _ _ early refl prot demo_post_key idem refl]
  then show ?thesis
    using first by (auto simp: Let_def pay_moment_def demo_moment_def idempotencyTTL_def minute_def second_def)
qed

end
