(* ===== verification/Isolation.thy ===== *)
theory Isolation
  imports Exactly_Once
begin

text \<open>
  Isolation of merchants through the whole server and over its whole history: what a merchant can get
  to see of the payments of another, in an answer or in a stored answer that is replayed. The first
  half shows that successful answers of the payment routes are about payments of the caller, the second
  that the store of idempotency keys holds under a merchant's name only answers to that merchant.
\<close>

section \<open>Successful answers are about the caller's payments\<close>

definition own_answer :: "string \<Rightarrow> reply \<Rightarrow> bool" where
  "own_answer i y \<longleftrightarrow> (\<exists>now st p. y = JSON now st (PPayment p) \<and> MerchantID (pr_Payment p) = i)"

abbreviation success :: "reply \<Rightarrow> bool" where
  "success y \<equiv> 200 \<le> hr_Status y \<and> hr_Status y < 300"

lemma GetPayment_merchant:
  assumes "GetPayment look k pid d = Inr res"
  shows "\<exists>row. payment_by_id d pid = Some row \<and> MerchantID (pr_Payment res) = pay_merchant_id row"
proof (cases "payment_by_id d pid")
  case None
  with assms show ?thesis by (auto simp: GetPayment_def Let_def at_site_def select_payment_def result_iffs split: option.splits)
next
  case (Some row)
  with GetPayment_owner [OF assms] show ?thesis by simp
qed

text \<open>No step of the payment tables gives a payment to somebody else.\<close>

lemma pay_steps_merchant:
  assumes "pay_step\<^sup>*\<^sup>* d d'" and "payments_inv d" and "payment_by_id d pid = Some row" and "payment_by_id d' pid = Some row'"
  shows "pay_merchant_id row' = pay_merchant_id row"
proof -
  have "life_step\<^sup>*\<^sup>* (lives_of d) (lives_of d') \<and> payments_inv d'"
    using assms(1,2)
  proof (induction rule: rtranclp_induct)
    case (step d1 d2)
    then show ?case using pay_step_refines [OF step.hyps(2)] pay_step_inv [OF step.hyps(2)] by auto
  qed simp
  moreover have "lives_of d pid = Some (life_of row)" "lives_of d' pid = Some (life_of row')"
    using assms(3,4) by (simp_all add: lives_of_def)
  ultimately show ?thesis using life_steps_grown by (fastforce simp: grown_def life_of_def)
qed

lemma CreatePayment_recorded:
  assumes "payments_inv (sdb s)" and "CreatePayment env req s = (Inr res, s')"
  shows "\<exists>row. payment_by_id (sdb s') (e_uuid env 0) = Some row \<and> pay_merchant_id row = rq_MerchantID req
    \<and> MerchantID (pr_Payment res) = rq_MerchantID req"
  using CreatePayment_outcome [of env req s]
proof (elim disjE exE conjE)
  fix dec adp rt d1 pspRes w u s2
  assume tx: "create_tx env req (rd_SelectedPSP dec) (sdb s) = Inr ((), d1)"
    and fin: "final_update env pspRes (s\<lparr>sdb := d1, world := w,
          srouter := record_outcome env (rd_SelectedPSP dec) pspRes rt\<rparr>) = (u, s2)"
    and run: "CreatePayment env req s = (case u of
             Inl e \<Rightarrow> (Inl (Wrapped ''updating final state'' e), s2)
           | Inr _ \<Rightarrow> (case pspRes of
               Inl e \<Rightarrow> (Inl (Wrapped ''psp failed'' e), s2)
             | Inr _ \<Rightarrow> (GetPayment env 2 (e_uuid env 0) (sdb s2), s2)))"
  obtain r where r: "isInl u \<and> r = initial_row env req (rd_SelectedPSP dec)
      \<or> u = Inr () \<and> r = with_status (final_status pspRes) (provider_id pspRes) (e_now env 1) (initial_row env req (rd_SelectedPSP dec))"
    "\<And>q. payment_by_id (sdb s2) q = (if q = e_uuid env 0 then Some r else payment_by_id (sdb s) q)"
    using create_then_settle [OF assms(1) tx fin] by metis
  from run assms(2) have "GetPayment env 2 (e_uuid env 0) (sdb s2) = Inr res" and "s' = s2" by (auto split: sum.splits)
  moreover have "payment_by_id (sdb s2) (e_uuid env 0) = Some r" by (simp add: r(2))
  moreover have "pay_merchant_id r = rq_MerchantID req" using r(1) by (auto simp: initial_row_def with_status_def)
  ultimately show ?thesis using GetPayment_owner [of env 2 "e_uuid env 0" "sdb s2" res r] \<open>s' = s2\<close> by simp
qed (use assms(2) in simp)

text \<open>What the change of a payment answers is about that payment, and it keeps its owner.\<close>

lemma CapturePayment_answer:
  "CapturePayment env pid s = (Inr res, s') \<Longrightarrow> \<exists>k. GetPayment env k pid (sdb s') = Inr res"
  using CapturePayment_outcome [of env pid s] by auto

lemma RefundPayment_answer:
  "RefundPayment env pid amount s = (Inr res, s') \<Longrightarrow> \<exists>k. GetPayment env k pid (sdb s') = Inr res"
  using RefundPayment_outcome [of env pid amount s] by auto

lemma CancelPayment_answer:
  "CancelPayment env pid s = (Inr res, s') \<Longrightarrow> \<exists>k. GetPayment env k pid (sdb s') = Inr res"
  by (auto simp: CancelPayment_def Let_def split: sum.splits prod.splits option.splits if_splits)

lemma fetch_owned_Inr:
  assumes "fetch_owned look now failed r pid d = Inr res"
  shows "\<exists>row. payment_by_id d pid = Some row \<and> MerchantID (pr_Payment res) = pay_merchant_id row
    \<and> (\<not> IsAdmin r \<longrightarrow> pay_merchant_id row = MerchantIDFromContext r)"
  using assms GetPayment_merchant [of look 0 pid d] by (auto simp: fetch_owned_def split: sum.splits if_splits)

lemma changed_answer:
  assumes "payments_inv (sdb s)" and "fetch_owned look now failed r pid (sdb s) = Inr res0" and "\<not> IsAdmin r"
    and "pay_step\<^sup>*\<^sup>* (sdb s) (sdb s')" and "GetPayment env k pid (sdb s') = Inr res"
  shows "own_answer (MerchantIDFromContext r) (JSON now' st (PPayment res))"
proof -
  obtain row where row: "payment_by_id (sdb s) pid = Some row" "pay_merchant_id row = MerchantIDFromContext r"
    using fetch_owned_Inr [OF assms(2)] assms(3) by blast
  obtain row' where "payment_by_id (sdb s') pid = Some row'" "MerchantID (pr_Payment res) = pay_merchant_id row'"
    using GetPayment_merchant [OF assms(5)] by blast
  with pay_steps_merchant [OF assms(4,1) row(1)] row(2) show ?thesis by (auto simp: own_answer_def)
qed

lemma payment_reply_success:
  "payment_reply now st failed out = (Some y, s') \<Longrightarrow> success y \<Longrightarrow> \<exists>res. out = (Inr res, s') \<and> y = JSON now st (PPayment res)"
  by (auto simp: payment_reply_def split: prod.splits sum.splits)

lemma create_check_refuses: "create_check now r req = Some y \<Longrightarrow> \<not> success y"
  by (auto simp: create_check_def split: if_splits)

lemma handlers_answer_own:
  fixes s :: "'w sys"
  assumes inv: "payments_inv (sdb s)" and no_admin: "\<not> IsAdmin r" and ok: "success y"
  shows "CreatePaymentHandler rl env now r s = (Some y, s') \<Longrightarrow> own_answer (MerchantIDFromContext r) y"
    and "GetPaymentHandler look now r s = (Some y, s') \<Longrightarrow> own_answer (MerchantIDFromContext r) y"
    and "CapturePaymentHandler look env now r s = (Some y, s') \<Longrightarrow> own_answer (MerchantIDFromContext r) y"
    and "RefundPaymentHandler rl look env now r s = (Some y, s') \<Longrightarrow> own_answer (MerchantIDFromContext r) y"
    and "CancelPaymentHandler look env now r s = (Some y, s') \<Longrightarrow> own_answer (MerchantIDFromContext r) y"
proof -
  note reply = payment_reply_success [OF _ ok]
  show "own_answer (MerchantIDFromContext r) y" if run: "CreatePaymentHandler rl env now r s = (Some y, s')"
  proof -
    from run ok obtain req where "create_check now r req = None"
      and "payment_reply now 201 ''failed to create payment'' (CreatePayment env req s) = (Some y, s')"
      by (auto simp: CreatePaymentHandler_def split: if_splits option.splits dest: create_check_refuses)
    moreover from reply [OF this(2)] obtain res where "CreatePayment env req s = (Inr res, s')" "y = JSON now 201 (PPayment res)"
      by blast
    moreover have "rq_MerchantID req = MerchantIDFromContext r"
      using calculation(1) no_admin by (simp add: create_check_None acceptable_def)
    ultimately show ?thesis unfolding own_answer_def using CreatePayment_recorded [OF inv] by metis
  qed
  show "own_answer (MerchantIDFromContext r) y" if "GetPaymentHandler look now r s = (Some y, s')"
    using that ok no_admin fetch_owned_Inr [of look now "''failed to fetch payment''" r "URLParam r ''id''" "sdb s"]
    by (auto simp: GetPaymentHandler_def Let_def missing_id_def fetch_owned_def own_answer_def split: if_splits sum.splits)
  show "own_answer (MerchantIDFromContext r) y" if run: "CapturePaymentHandler look env now r s = (Some y, s')"
  proof -
    from run ok obtain res0 where "fetch_owned look now ''failed to capture payment'' r (URLParam r ''id'') (sdb s) = Inr res0"
      "payment_reply now 200 ''failed to capture payment'' (CapturePayment env (URLParam r ''id'') s) = (Some y, s')"
      by (auto simp: CapturePaymentHandler_def Let_def missing_id_def fetch_owned_def split: if_splits sum.splits)
    moreover from reply [OF this(2)] obtain res where "CapturePayment env (URLParam r ''id'') s = (Inr res, s')"
      "y = JSON now 200 (PPayment res)" by blast
    ultimately show ?thesis
      using changed_answer [OF inv _ no_admin, where s' = s'] CapturePayment_answer CapturePayment_steps [of s env] by (metis snd_conv)
  qed
  show "own_answer (MerchantIDFromContext r) y" if run: "RefundPaymentHandler rl look env now r s = (Some y, s')"
  proof -
    from run ok obtain res0 a where "fetch_owned look now ''failed to refund payment'' r (URLParam r ''id'') (sdb s) = Inr res0"
      "payment_reply now 200 ''failed to refund payment'' (RefundPayment env (URLParam r ''id'') a s) = (Some y, s')"
      by (auto simp: RefundPaymentHandler_def Let_def missing_id_def fetch_owned_def split: if_splits sum.splits option.splits)
    moreover from reply [OF this(2)] obtain res where "RefundPayment env (URLParam r ''id'') a s = (Inr res, s')"
      "y = JSON now 200 (PPayment res)" by blast
    ultimately show ?thesis
      using changed_answer [OF inv _ no_admin, where s' = s'] RefundPayment_answer RefundPayment_steps [of s env] by (metis snd_conv)
  qed
  show "own_answer (MerchantIDFromContext r) y" if run: "CancelPaymentHandler look env now r s = (Some y, s')"
  proof -
    from run ok obtain res0 where "fetch_owned look now ''failed to cancel payment'' r (URLParam r ''id'') (sdb s) = Inr res0"
      "payment_reply now 200 ''failed to cancel payment'' (CancelPayment env (URLParam r ''id'') s) = (Some y, s')"
      by (auto simp: CancelPaymentHandler_def Let_def missing_id_def fetch_owned_def split: if_splits sum.splits)
    moreover from reply [OF this(2)] obtain res where "CancelPayment env (URLParam r ''id'') s = (Inr res, s')"
      "y = JSON now 200 (PPayment res)" by blast
    ultimately show ?thesis
      using changed_answer [OF inv _ no_admin, where s' = s'] CancelPayment_answer CancelPayment_steps [OF inv, of env] by (metis snd_conv)
  qed
qed

lemma payment_endpoints_answer_own:
  fixes b :: "('w, 'r, 'p) backend"
  assumes "group_of ep = Some GroupPayments" and "payments_inv (get_db b)" and "\<not> IsAdmin r"
    and "endpoint_handler ap lib mo ep r (m, b) = (Some y, m', b')" and "success y"
  shows "own_answer (MerchantIDFromContext r) y"
proof -
  have part: "\<exists>s'. h r (be_sys b) = (Some y, s')"
    if "beside (focus be_sys set_sys h) r (m, b) = (Some y, m', b')" for h :: "(payload, 'w sys) handler"
    using that by (auto simp: beside_def focus_def split: prod.splits)
  have inv: "payments_inv (sdb (be_sys b))" using assms(2) by (simp add: get_db_def)
  note own = handlers_answer_own [OF inv assms(3,5)]
  show ?thesis
    using assms(1,4) by (cases ep) (auto simp: endpoint_handler_def Let_def dest!: part own)
qed

section \<open>What the store of keys holds\<close>

text \<open>
  A value under a merchant's name is the marker of a request in progress or the text of a successful
  answer about a payment of that merchant. The administrator is not a merchant in this sense.
\<close>

definition own_value :: "(payload http_body \<Rightarrow> string) \<Rightarrow> string \<Rightarrow> string \<Rightarrow> bool" where
  "own_value render i v \<longleftrightarrow>
     v = processingMarker \<or> (\<exists>y. own_answer i y \<and> success y \<and> v = cached_text (hr_Status y) (render (hr_Body y)))"

definition own_store :: "(payload http_body \<Rightarrow> string) \<Rightarrow> keyspace \<Rightarrow> bool" where
  "own_store render ks \<longleftrightarrow>
     (\<forall>i k v e. CHR '':'' \<notin> set i \<longrightarrow> i \<noteq> admin_id \<longrightarrow> ks (''idempotency:'' @ i @ '':'' @ k) = Some (v, e) \<longrightarrow> own_value render i v)"

abbreviation stores_own :: "(payload http_body \<Rightarrow> string) \<Rightarrow> ('r \<Rightarrow> keyspace) \<Rightarrow> ('w, 'r, 'p) backend \<Rightarrow> bool" where
  "stores_own render view b \<equiv> own_store render (view (be_redis b))"

lemma own_store_cong:
  assumes "\<And>k. ks' (''idempotency:'' @ k) = ks (''idempotency:'' @ k)" and "own_store render ks"
  shows "own_store render ks'"
  using assms(2) unfolding own_store_def assms(1) .

lemma same_key:
  assumes "CHR '':'' \<notin> set i" and "CHR '':'' \<notin> set j" and "i @ CHR '':'' # k = j @ CHR '':'' # k'"
  shows "i = j \<and> k = k'"
proof -
  from assms(3) have "split_once (CHR '':'') (i @ CHR '':'' # k) = split_once (CHR '':'') (j @ CHR '':'' # k')" by (rule arg_cong)
  then show ?thesis by (simp only: split_once_append [OF assms(1)] split_once_append [OF assms(2)] option.inject prod.inject)
qed

lemma own_store_update:
  assumes "own_store render ks" and "CHR '':'' \<notin> set j" and "j \<noteq> admin_id \<Longrightarrow> own_value render j v"
  shows "own_store render (ks(''idempotency:'' @ j @ '':'' @ k \<mapsto> (v, e)))"
  unfolding own_store_def
proof (intro allI impI)
  fix i k' v' e'
  assume i: "CHR '':'' \<notin> set i" "i \<noteq> admin_id"
    and found: "(ks(''idempotency:'' @ j @ '':'' @ k \<mapsto> (v, e))) (''idempotency:'' @ i @ '':'' @ k') = Some (v', e')"
  show "own_value render i v'"
  proof (cases "i @ '':'' @ k' = j @ '':'' @ k")
    case True
    with same_key [OF i(1) assms(2), of k' k] have "i = j" "k' = k" by simp_all
    with found i(2) assms(3) show ?thesis by simp
  next
    case False
    then have "ks (''idempotency:'' @ i @ '':'' @ k') = Some (v', e')" using found by (auto split: if_splits)
    with assms(1) i show ?thesis unfolding own_store_def by blast
  qed
qed

lemma own_store_delete: "own_store render ks \<Longrightarrow> own_store render (ks(k := None))"
  unfolding own_store_def by (metis fun_upd_apply option.distinct(1))

lemma marker_own [simp]: "own_value render i processingMarker"
  by (simp add: own_value_def)

lemma merchant_key:
  "MerchantIDFromContext r \<noteq> [] \<Longrightarrow>
     redisKey r = ''idempotency:'' @ MerchantIDFromContext r @ '':'' @ Header r ''Idempotency-Key''"
  by (simp add: redisKey_def)

lemma claim_stores_own:
  assumes "redis_laws api view" and "own_store render (view rd)" and "MerchantIDFromContext r \<noteq> []"
    and "CHR '':'' \<notin> set (MerchantIDFromContext r)" and "idem_claim api now r rd = (c :: payload claim, rd')"
  shows "own_store render (view rd')"
proof -
  note set = own_store_update [OF assms(2,4) marker_own, of "Header r ''Idempotency-Key''" "now + idempotencyTTL"]
  from idem_claim_outcome [OF assms(1), of now r rd, where 'd = payload] assms(2,5) set show ?thesis
    unfolding merchant_key [OF assms(3)] by auto
qed

lemma finish_stores_own:
  assumes "redis_laws api view" and "own_store render (view rd)" and "MerchantIDFromContext r \<noteq> []"
    and "CHR '':'' \<notin> set (MerchantIDFromContext r)"
    and "success y \<Longrightarrow> MerchantIDFromContext r \<noteq> admin_id \<Longrightarrow> own_answer (MerchantIDFromContext r) y"
  shows "own_store render (view (idem_finish api now render r y rd))"
proof (cases "success y")
  case True
  with assms(5) have "MerchantIDFromContext r \<noteq> admin_id \<Longrightarrow>
      own_value render (MerchantIDFromContext r) (cached_text (hr_Status y) (render (hr_Body y)))"
    by (auto simp: own_value_def)
  from own_store_update [OF assms(2,4) this, of "Header r ''Idempotency-Key''" "now + idempotencyTTL"] assms(2)
    Set_cases [OF assms(1), of now "redisKey r" "cached_text (hr_Status y) (render (hr_Body y))" idempotencyTTL rd] True
  show ?thesis by (auto simp: idem_finish_def cacheResponse_def merchant_key [OF assms(3)])
next
  case False
  with own_store_delete [OF assms(2), of "redisKey r"] assms(2) Del_cases [OF assms(1), of "redisKey r" rd]
  show ?thesis by (auto simp: idem_finish_def)
qed

lemma idempotent_stores_own:
  fixes b :: "('w, 'r, 'p) backend" and h :: "(payload, 'm \<times> ('w, 'r, 'p) backend) handler"
  assumes "redis_contract rdb view" and "stores_own render view b" and "MerchantIDFromContext r \<noteq> []"
    and "CHR '':'' \<notin> set (MerchantIDFromContext r)"
    and "\<And>y m' b'. h r (m, b) = (Some y, m', b') \<Longrightarrow> success y \<Longrightarrow> MerchantIDFromContext r \<noteq> admin_id \<Longrightarrow>
      own_answer (MerchantIDFromContext r) y"
  shows "stores_own render view (snd (snd (idempotent rdb now later render h r (m, b))))"
proof (cases "idem_applies r \<and> rdb \<noteq> None")
  case False
  with assms(2) show ?thesis by (auto simp: idempotent_def Idempotency_def split: prod.split)
next
  case True
  then obtain api where api: "rdb = Some api" by blast
  with assms(1) have laws: "redis_laws api view" by (simp add: redis_contract_def)
  obtain x m' b' where h: "h r (m, b) = (x, m', b')" by (metis surj_pair)
  obtain c rd' where c: "idem_claim api now r (be_redis b) = (c :: payload claim, rd')" by (metis surj_pair)
  note claimed = claim_stores_own [OF laws assms(2-4) c]
  show ?thesis
  proof (cases x)
    case None
    with True api c h claimed show ?thesis by (cases c) (simp_all add: idempotent_def Idempotency_def)
  next
    case (Some y)
    with True api c h claimed finish_stores_own [OF laws claimed assms(3,4) assms(5) [OF h [unfolded Some]], of later]
    show ?thesis by (cases c) (simp_all add: idempotent_def Idempotency_def)
  qed
qed

section \<open>The store through the server\<close>

text \<open>What chi answers by itself, 404 or 405, is no success.\<close>

definition unmatched_fails :: "(string \<Rightarrow> string \<Rightarrow> selection) \<Rightarrow> bool" where
  "unmatched_fails route_of \<longleftrightarrow> (\<forall>m p g y. route_of m p = Unmatched g y \<longrightarrow> \<not> success y)"

lemma presented_identity:
  assumes "presents_key (ParseMerchantKeys raw) r i"
  shows "i \<noteq> []" and "CHR '':'' \<notin> set i"
proof -
  obtain k where "k \<in> set (ParseMerchantKeys raw)" "mk_MerchantID k = i"
    using assms validate_key_member unfolding presents_key_def by metis
  with parsed_identity [of k raw] show "i \<noteq> []" and "CHR '':'' \<notin> set i" by auto
qed

lemma group_stores_own:
  fixes b :: "('w, 'r, 'p) backend" and h :: "(payload, 'm \<times> ('w, 'r, 'p) backend) handler"
  assumes "redis_contract (ap_redis ap) view" and "ap_keys ap = ParseMerchantKeys raw" and "stores_own (al_render lib) view b"
    and "\<And>i. stores_own (al_render lib) view (snd (snd (h (r\<lparr>hq_Merchant := i\<rparr>) (m, b))))"
    and "\<And>i y m' b'. g = Some GroupPayments \<Longrightarrow> h (r\<lparr>hq_Merchant := Some i\<rparr>) (m, b) = (Some y, m', b') \<Longrightarrow> success y \<Longrightarrow>
      i \<noteq> admin_id \<Longrightarrow> own_answer i y"
  shows "stores_own (al_render lib) view (snd (snd (group_middleware ap lib mo g h r (m, b))))"
proof (cases g)
  case None
  with assms(4) [of "hq_Merchant r"] show ?thesis by (simp add: group_middleware_def)
next
  case (Some g')
  note auth = authenticated_result [where Q = "stores_own (al_render lib) view", OF assms(3)]
  show ?thesis
  proof (cases "g' = GroupPayments")
    case False
    then have "group_middleware ap lib mo g h r (m, b) = authenticated (ap_keys ap) (mo_now mo) g' h r (m, b)"
      by (cases g') (simp_all add: group_middleware_def Some)
    then show ?thesis by (simp only:) (rule auth, simp_all add: assms(4))
  next
    case True
    have "stores_own (al_render lib) view (snd (snd (idempotent (ap_redis ap) (mo_now mo) (mo_end mo) (al_render lib) h
        (r\<lparr>hq_Merchant := Some i\<rparr>) (m, b))))" if "presents_key (ap_keys ap) r i" for i
    proof (rule idempotent_stores_own [OF assms(1,3)])
      have i: "MerchantIDFromContext (r\<lparr>hq_Merchant := Some i\<rparr>) = i" by (simp add: MerchantIDFromContext_def)
      from presented_identity [OF that [unfolded assms(2)]]
      show "MerchantIDFromContext (r\<lparr>hq_Merchant := Some i\<rparr>) \<noteq> []"
        and "CHR '':'' \<notin> set (MerchantIDFromContext (r\<lparr>hq_Merchant := Some i\<rparr>))" by (simp_all add: i)
      show "own_answer (MerchantIDFromContext (r\<lparr>hq_Merchant := Some i\<rparr>)) y"
        if "h (r\<lparr>hq_Merchant := Some i\<rparr>) (m, b) = (Some y, m', b')" "success y"
          "MerchantIDFromContext (r\<lparr>hq_Merchant := Some i\<rparr>) \<noteq> admin_id" for y m' b'
        using assms(5) Some True that unfolding i by blast
    qed
    then show ?thesis
      by (simp only: group_middleware_def Some True option.case auth_group.case) (rule auth, simp_all)
  qed
qed

lemma endpoint_stores_own:
  fixes b :: "('w, 'r, 'p) backend"
  assumes "redis_contract (ap_redis ap) view" and "stores_own render view b"
  shows "stores_own render view (snd (snd (endpoint_handler ap lib mo ep r (m, b))))"
proof (rule own_store_cong [OF _ assms(2)])
  fix k
  have "''idempotency:'' @ k \<noteq> dlqKey" by (simp add: dlqKey_def)
  from endpoint_keeps_view [OF assms(1) this]
  show "view (be_redis (snd (snd (endpoint_handler ap lib mo ep r (m, b))))) (''idempotency:'' @ k)
      = view (be_redis b) (''idempotency:'' @ k)" .
qed

lemma routed_stores_own:
  fixes b :: "('w, 'r, 'p) backend"
  assumes "redis_contract (ap_redis ap) view" and "ap_keys ap = ParseMerchantKeys raw" and "unmatched_fails route_of"
    and "stores_own (al_render lib) view b" and "payments_inv (get_db b)"
  shows "stores_own (al_render lib) view (snd (snd (routed route_of ap lib mo r (m, b))))"
proof (cases "route_of (hq_Method r) (hq_Path r)")
  case (Selected ep ps)
  show ?thesis
    unfolding routed_def Selected selection.case
  proof (rule group_stores_own [OF assms(1,2,4)])
    show "stores_own (al_render lib) view (snd (snd (endpoint_handler ap lib mo ep (r\<lparr>hq_Params := ps, hq_Merchant := i\<rparr>) (m, b))))" for i
      by (rule endpoint_stores_own [OF assms(1,4)])
  next
    fix i y m' b'
    assume "group_of ep = Some GroupPayments" "success y" "i \<noteq> admin_id"
      "endpoint_handler ap lib mo ep (r\<lparr>hq_Params := ps, hq_Merchant := Some i\<rparr>) (m, b) = (Some y, m', b')"
    from payment_endpoints_answer_own [OF this(1) assms(5) _ this(4,2)] this(3)
    show "own_answer i y" by (simp add: IsAdmin_def MerchantIDFromContext_def admin_id_def)
  qed
next
  case (Unmatched g resp)
  with assms(3) have "\<not> success resp" by (auto simp: unmatched_fails_def)
  then show ?thesis
    unfolding routed_def Unmatched selection.case
    by (intro group_stores_own [OF assms(1,2,4)]) (auto simp: reply_with_def assms(4))
qed

definition isolated :: "(payload http_body \<Rightarrow> string) \<Rightarrow> ('r \<Rightarrow> keyspace) \<Rightarrow> ('w, 'r, 'p) system \<Rightarrow> bool" where
  "isolated render view s \<longleftrightarrow> core_inv (system_db s) \<and> stores_own render view (system_backend s)"

lemma system_step_isolated:
  fixes s :: "('w, 'r, 'p) system"
  assumes "redis_contract (ap_redis ap) view" and "ap_keys ap = ParseMerchantKeys raw" and "unmatched_fails route_of"
    and "isolated (al_render lib) view s"
  shows "isolated (al_render lib) view (system_step route_of ap lib codec s e)"
proof -
  have inv: "core_inv (system_db s)" and own: "stores_own (al_render lib) view (system_backend s)"
    using assms(4) by (simp_all add: isolated_def)
  have pay: "payments_inv (get_db (system_backend s))"
    using inv by (cases s) (simp add: system_db_def system_backend_def core_inv_def)
  have "stores_own (al_render lib) view (system_backend (system_step route_of ap lib codec s e))"
  proof (cases e)
    case (Served mo r)
    show ?thesis
    proof (rule serve_backend [of route_of ap lib mo r s])
      fix x m1
      assume "routed route_of ap lib mo (seen mo r) (counted (fst (snd (snd s))), system_backend s)
          = (x, m1, system_backend (snd (serve_request route_of ap lib mo r s)))"
      with routed_stores_own [OF assms(1-3) own pay, of mo "seen mo r" "counted (fst (snd (snd s)))"] show ?thesis
        by (simp add: Served)
    qed (use own in \<open>simp add: Served\<close>)
  qed (use own in \<open>cases s, simp add: system_backend_def part_defs\<close>)+
  with in_order.serving.inv_step [OF inv] show ?thesis by (simp add: isolated_def)
qed

section \<open>What another merchant is answered\<close>

definition tells_own :: "(payload http_body \<Rightarrow> string) \<Rightarrow> string \<Rightarrow> reply \<Rightarrow> bool" where
  "tells_own render i resp \<longleftrightarrow>
     (\<exists>y. own_answer i y \<and> hr_Status resp = hr_Status y \<and> hr_Body resp = Raw (render (hr_Body y)))"

lemma idem_claim_answers:
  assumes "redis_laws api view" and "own_store render (view rd)" and "MerchantIDFromContext r = i" and "i \<noteq> []"
    and "CHR '':'' \<notin> set i" and "i \<noteq> admin_id" and "idem_claim api now r rd = (Answered resp, rd')"
  shows "refuses resp \<or> tells_own render i resp"
  using assms(1)
proof (cases rule: SetNX_cases [where now = now and k = "redisKey r" and v = processingMarker and ttl = idempotencyTTL and s = rd])
  case (claimed s')
  with assms(7) show ?thesis by (simp add: idem_claim_def)
next
  case (failed e s')
  with assms(7) show ?thesis by (auto simp: idem_claim_def)
next
  case (taken s')
  show ?thesis
  proof (cases "rd_Get api now (redisKey r) s'")
    case (Inl e)
    with taken assms(7) show ?thesis by (auto simp: idem_claim_def)
  next
    case (Inr cached)
    with assms(1) taken have "live now (view rd) (redisKey r) = Some cached"
      by (metis redis_laws_def Get_law_def)
    then obtain e where "view rd (''idempotency:'' @ i @ '':'' @ Header r ''Idempotency-Key'') = Some (cached, e)"
      using merchant_key [of r] assms(3,4) by (auto simp: live_def split: option.splits if_splits)
    with assms(2,5,6) have own: "own_value render i cached" unfolding own_store_def by blast
    show ?thesis
    proof (cases "cached = processingMarker")
      case True
      with taken Inr assms(7) show ?thesis by (auto simp: idem_claim_def)
    next
      case False
      with own obtain y where y: "own_answer i y" "success y" "cached = cached_text (hr_Status y) (render (hr_Body y))"
        by (auto simp: own_value_def)
      from False taken Inr assms(7) have "resp = replayed cached" by (simp add: idem_claim_def)
      moreover have "parseCachedResponse cached = (hr_Status y, render (hr_Body y))"
        unfolding y(3) using y(2) by (intro parse_cached) simp_all
      ultimately show ?thesis using y(1) by (auto simp: tells_own_def replayed_def)
    qed
  qed
qed

lemma idempotent_answers:
  fixes b :: "('w, 'r, 'p) backend" and h :: "(payload, 'm \<times> ('w, 'r, 'p) backend) handler"
  assumes "redis_contract rdb view" and "stores_own render view b" and "MerchantIDFromContext r = i" and "i \<noteq> []"
    and "CHR '':'' \<notin> set i" and "i \<noteq> admin_id" and "h r (m, b) = (Some y, m, b)" and "refuses y"
  shows "\<exists>resp rd. idempotent rdb now later render h r (m, b) = (Some resp, m, b\<lparr>be_redis := rd\<rparr>)
    \<and> (refuses resp \<or> tells_own render i resp)"
proof (cases "idem_applies r \<and> rdb \<noteq> None")
  case False
  with assms(7,8) show ?thesis by (auto simp: idempotent_def Idempotency_def intro!: exI [of _ "be_redis b"])
next
  case True
  then obtain api where api: "rdb = Some api" by blast
  with assms(1) have laws: "redis_laws api view" by (simp add: redis_contract_def)
  obtain c rd' where c: "idem_claim api now r (be_redis b) = (c :: payload claim, rd')" by (metis surj_pair)
  show ?thesis
  proof (cases c)
    case Claimed
    with True api c assms(7,8) show ?thesis by (auto simp: idempotent_def Idempotency_def)
  next
    case (Answered resp)
    from idem_claim_answers [OF laws assms(2-6) c [unfolded Answered]] True api c Answered show ?thesis
      by (auto simp: idempotent_def Idempotency_def)
  qed
qed

lemma foreign_routed:
  fixes b :: "('w, 'r, 'p) backend"
  assumes "redis_contract (ap_redis ap) view" and "ap_keys ap = ParseMerchantKeys raw" and "stores_own (al_render lib) view b"
    and "route_of (hq_Method r) (hq_Path r) = Selected ep ps" and "payment_endpoint ep"
    and "payment_by_id (sdb (be_sys b)) (value_of ps ''id'') = Some row"
    and "\<And>i. presents_key (ap_keys ap) r i \<Longrightarrow> i \<noteq> admin_id \<and> i \<noteq> pay_merchant_id row"
  shows "\<exists>resp rd au. routed route_of ap lib mo r (m, b) = (Some resp, m, b\<lparr>be_redis := rd, be_auth := au\<rparr>)
    \<and> (refuses resp \<or> (\<exists>i. presents_key (ap_keys ap) r i \<and> tells_own (al_render lib) i resp))"
proof -
  let ?h = "endpoint_handler ap lib mo ep" and ?r = "r\<lparr>hq_Params := ps\<rparr>"
  let ?idem = "idempotent (ap_redis ap) (mo_now mo) (mo_end mo) (al_render lib) ?h"
  have "group_of ep = Some GroupPayments" using assms(5) by (auto simp: payment_endpoint_def)
  then have route: "routed route_of ap lib mo r (m, b) = authenticated (ap_keys ap) (mo_now mo) GroupPayments ?idem ?r (m, b)"
    by (simp add: routed_def assms(4) group_middleware_def)
  show ?thesis
  proof (rule authenticated_cases [of "ap_keys ap" "mo_now mo" GroupPayments ?idem ?r m b])
    fix resp au
    assume "authenticated (ap_keys ap) (mo_now mo) GroupPayments ?idem ?r (m, b) = (Some resp, m, b\<lparr>be_auth := au\<rparr>)"
      "hr_Status resp \<in> {401, 403, 429} \<and> refuses resp"
    with route show ?thesis by (intro exI [of _ resp] exI [of _ "be_redis b"] exI [of _ au]) simp
  next
    fix i x m' b' au
    assume "presents_key (ap_keys ap) ?r i" and run: "?idem (?r\<lparr>hq_Merchant := Some i\<rparr>) (m, b) = (x, m', b')"
      and auth: "authenticated (ap_keys ap) (mo_now mo) GroupPayments ?idem ?r (m, b) = (x, m', b'\<lparr>be_auth := au\<rparr>)"
    then have key: "presents_key (ap_keys ap) r i" by simp
    note named = presented_identity [OF key [unfolded assms(2)]]
    have i: "MerchantIDFromContext (?r\<lparr>hq_Merchant := Some i\<rparr>) = i" by (simp add: MerchantIDFromContext_def)
    have "foreign (?r\<lparr>hq_Merchant := Some i\<rparr>) (sdb (be_sys b))"
      using assms(6) assms(7) [OF key] by (auto simp: foreign_def IsAdmin_def URLParam_def MerchantIDFromContext_def admin_id_def)
    from foreign_endpoint [OF assms(5) this, of ap lib mo m] obtain y where
      y: "?h (?r\<lparr>hq_Merchant := Some i\<rparr>) (m, b) = (Some y, m, b)" "refuses y" by blast
    have "i \<noteq> admin_id" using assms(7) [OF key] by simp
    from idempotent_answers [where h = ?h, OF assms(1,3) i named this y, of "mo_now mo" "mo_end mo"]
    obtain resp rd where "?idem (?r\<lparr>hq_Merchant := Some i\<rparr>) (m, b) = (Some resp, m, b\<lparr>be_redis := rd\<rparr>)"
      "refuses resp \<or> tells_own (al_render lib) i resp" by blast
    with run auth route key show ?thesis
      by (intro exI [of _ resp] exI [of _ rd] exI [of _ au]) auto
  qed
qed

lemma fresh_store: "(\<And>k. ks (''idempotency:'' @ k) = None) \<Longrightarrow> own_store render ks"
  unfolding own_store_def by (metis option.distinct(1))

lemma run_isolated:
  fixes b0 :: "('w, 'r, 'p) backend"
  assumes "redis_contract (ap_redis ap) view" and "ap_keys ap = ParseMerchantKeys raw" and "unmatched_fails route_of"
    and "\<And>k. view (be_redis b0) (''idempotency:'' @ k) = None"
  shows "isolated (al_render lib) view (foldl (system_step route_of ap lib codec) (rl, logs, m, set_db migrated_db b0) es)"
proof -
  have "own_store (al_render lib) (view (be_redis b0))" by (rule fresh_store) (rule assms(4))
  then have "isolated (al_render lib) view (rl, logs, m, set_db migrated_db b0)"
    by (simp add: isolated_def system_db_def system_backend_def db_part.get_put core_inv_def payments_inv_migrated
        ledger_inv_migrated part_defs)
  then show ?thesis
    by (induction es arbitrary: rl logs m b0 rule: rev_induct) (simp_all add: system_step_isolated [OF assms(1-3)])
qed

text \<open>
  C11: merchants are isolated, through the whole chain and over the whole history of a server: whatever it
  has served, received and swept since it started on an empty database and a Redis without idempotency
  keys, reading, capturing, refunding or cancelling a payment of another merchant under a key of
  the configuration that is not an administrator's (or under none, or a wrong one) changes no payment, no
  ledger and no provider. The answer is one of the fixed refusals of the middleware and the handlers; or,
  where the request repeats an idempotency key, it replays the status and the body of an answer
  about a payment of the caller. Of Redis only the laws of its commands are used, so it may fail, and
  of chi that its own answers, 404 and 405, are not successes.
\<close>

theorem server_isolates_merchants:
  fixes b0 :: "('w, 'r, 'p) backend"
  assumes "redis_contract (ap_redis ap) view" and "ap_keys ap = ParseMerchantKeys raw" and "unmatched_fails route_of"
    and "\<And>k. view (be_redis b0) (''idempotency:'' @ k) = None"
    and "s = foldl (system_step route_of ap lib codec) (rl, logs, m, set_db migrated_db b0) es"
    and "route_of (hq_Method r) (hq_Path r) = Selected ep ps" and "payment_endpoint ep"
    and "payment_by_id (system_db s) (value_of ps ''id'') = Some row"
    and "\<And>i. presents_key (ap_keys ap) r i \<Longrightarrow> i \<noteq> admin_id \<and> i \<noteq> pay_merchant_id row"
  shows "\<exists>resp s'. serve_request route_of ap lib mo r s = (Some resp, s')
    \<and> be_sys (system_backend s') = be_sys (system_backend s)
    \<and> (refuses resp \<or> (\<exists>i. presents_key (ap_keys ap) r i \<and> tells_own (al_render lib) i resp))"
proof -
  have iso: "isolated (al_render lib) view s" unfolding assms(5) by (rule run_isolated [OF assms(1-4)])
  obtain rl1 logs1 m1 b1 where s: "s = (rl1, logs1, m1, b1)" by (cases s) auto
  from iso have own: "stores_own (al_render lib) view b1" by (simp add: isolated_def s system_backend_def)
  have row: "payment_by_id (sdb (be_sys b1)) (value_of ps ''id'') = Some row"
    using assms(8) by (simp add: s system_db_def get_db_def)
  show ?thesis
  proof (rule serve_request_cases [of route_of ap lib mo r rl1 logs1 m1 b1])
    fix resp rl' logs'
    assume "serve_request route_of ap lib mo r (rl1, logs1, m1, b1) = (Some resp, rl', logs', m1, b1)" "answered_early r resp"
    then show ?thesis by (auto simp: s answered_early_def system_backend_def)
  next
    fix x m2 resp rl' logs' m' b'
    assume run: "routed route_of ap lib mo (seen mo r) (counted m1, b1) = (x, m2, b')"
      and serve: "serve_request route_of ap lib mo r (rl1, logs1, m1, b1) = (Some resp, rl', logs', m', b')"
      and resp: "case x of None \<Rightarrow> hr_Status resp = 500 | Some y \<Rightarrow> hr_Status resp = hr_Status y \<and> hr_Body resp = hr_Body y"
    have "route_of (hq_Method (seen mo r)) (hq_Path (seen mo r)) = Selected ep ps" using assms(6) by simp
    moreover have "i \<noteq> admin_id \<and> i \<noteq> pay_merchant_id row" if "presents_key (ap_keys ap) (seen mo r) i" for i
      using assms(9) [of i] that by simp
    ultimately obtain y rd au where "x = Some y" "b' = b1\<lparr>be_redis := rd, be_auth := au\<rparr>"
      and "refuses y \<or> (\<exists>i. presents_key (ap_keys ap) (seen mo r) i \<and> tells_own (al_render lib) i y)"
      using foreign_routed [OF assms(1,2) own _ assms(7) row, of route_of "seen mo r" mo "counted m1"] run by auto
    with serve resp show ?thesis
      by (auto simp: s system_backend_def refuses_body [of resp y] tells_own_def)
  qed
qed

lemma pay_keys: "ap_keys pay_app = ParseMerchantKeys [''merchant_abc:k'', ''shop:k2'']"
  by (simp add: pay_app_def) code_simp

lemma segment_unmatched: "unmatched_fails segment_route"
proof -
  have "\<not> success y" if "select_from rs m ss = Unmatched g y" for rs m ss g y
    using that by (induction rs m ss rule: select_from.induct) (auto split: if_splits option.splits)
  then show ?thesis by (simp add: unmatched_fails_def segment_route_def)
qed

text \<open>A payment created by one merchant through the server, read with the key of another.\<close>

definition other_get :: http_request where
  "other_get = demo_get ''/v1/payments/-'' [(''Authorization'', ''Bearer k2'')]"

lemma other_key: "presents_key (ap_keys pay_app) other_get i \<Longrightarrow> i = ''shop''"
proof -
  have "extractBearerToken other_get = ''k2''"
    by (simp add: extractBearerToken_def other_get_def demo_get_def request_from_def Header_def value_of_def) code_simp
  then show "presents_key (ap_keys pay_app) other_get i \<Longrightarrow> i = ''shop''"
    by (simp add: presents_key_def pay_app_def validateKeyAndGetMerchant_def)
qed

lemma demo_post_recorded:
  "\<exists>row. payment_by_id (system_db (foldl (system_step segment_route pay_app demo_app_lib demo_message_codec)
      (NewRateLimiter 100 second 200, [], new_http_metrics, set_db migrated_db pay_backend) [Served pay_moment demo_post])) ''-''
        = Some row \<and> pay_merchant_id row = ''merchant_abc''"
proof -
  have start: "set_db migrated_db pay_backend = pay_backend" by (simp add: pay_backend_def demo_sys_def part_defs)
  obtain resp s1 res where "serve_request segment_route pay_app demo_app_lib pay_moment demo_post
      (NewRateLimiter 100 second 200, [], new_http_metrics, pay_backend) = (Some resp, s1)"
    and created: "CreatePayment (demo_env 0) demo_order demo_sys = (Inr res, be_sys (system_backend s1))"
    using demo_post_served by blast
  moreover have "payments_inv (sdb demo_sys)" by (simp add: demo_sys_def payments_inv_migrated)
  moreover have "e_uuid (demo_env 0) 0 = ''-''" by (simp add: demo_env_def)
  ultimately show ?thesis
    using CreatePayment_recorded [of demo_sys "demo_env 0" demo_order res "be_sys (system_backend s1)"]
    by (cases s1) (auto simp: start system_db_def system_backend_def get_db_def demo_request_def)
qed

lemma server_isolates_merchants_witness:
  "\<exists>row resp s'. let s = foldl (system_step segment_route pay_app demo_app_lib demo_message_codec)
        (NewRateLimiter 100 second 200, [], new_http_metrics, set_db migrated_db pay_backend) [Served pay_moment demo_post] in
      payment_by_id (system_db s) ''-'' = Some row \<and> pay_merchant_id row = ''merchant_abc''
    \<and> serve_request segment_route pay_app demo_app_lib pay_moment other_get s = (Some resp, s')
    \<and> be_sys (system_backend s') = be_sys (system_backend s)
    \<and> (refuses resp \<or> tells_own (al_render demo_app_lib) ''shop'' resp)"
proof -
  let ?run = "foldl (system_step segment_route pay_app demo_app_lib demo_message_codec)"
  let ?s0 = "(NewRateLimiter 100 second 200, [], new_http_metrics, set_db migrated_db pay_backend)"
  define s where "s = ?run ?s0 [Served pay_moment demo_post]"
  obtain row where row: "payment_by_id (system_db s) ''-'' = Some row" "pay_merchant_id row = ''merchant_abc''"
    using demo_post_recorded unfolding s_def by auto
  have "keys_apart mem_api mem_keys" by (simp add: keys_apart_def mem_api_def split: option.split)
  then have redis: "redis_contract (ap_redis pay_app) mem_keys"
    by (simp add: redis_contract_def pay_app_def mem_laws)
  have empty: "mem_keys (be_redis pay_backend) (''idempotency:'' @ k) = None" for k by (simp add: pay_backend_def mem_empty_def)
  have route: "segment_route (hq_Method other_get) (hq_Path other_get) = Selected EpGet [(''id'', ''-'')]"
    by (simp add: other_get_def demo_get_def request_from_def) code_simp
  have found: "payment_by_id (system_db s) (value_of [(''id'', ''-'')] ''id'') = Some row" using row(1) by (simp add: value_of_def)
  have get: "payment_endpoint EpGet" by (simp add: payment_endpoint_def)
  have other: "i \<noteq> admin_id \<and> i \<noteq> pay_merchant_id row" if "presents_key (ap_keys pay_app) other_get i" for i
    using other_key [OF that] by (simp add: row(2) admin_id_def)
  obtain resp s' where "serve_request segment_route pay_app demo_app_lib pay_moment other_get s = (Some resp, s')"
    "be_sys (system_backend s') = be_sys (system_backend s)"
    "refuses resp \<or> (\<exists>i. presents_key (ap_keys pay_app) other_get i \<and> tells_own (al_render demo_app_lib) i resp)"
    using server_isolates_merchants [OF redis pay_keys segment_unmatched empty s_def route get found, where mo = pay_moment] other
    by blast
  with row other_key show ?thesis unfolding Let_def s_def by blast
qed

end
