(* ===== verification/Overlap.thy ===== *)
theory Overlap
  imports Payment_Service Lifecycle
begin

text \<open>
  Operations that overlap. A call of the payment service or a webhook is cut into its atomic parts: a
  database transaction, a statement of its own, a provider call, a use of the router under its mutex. A
  capture and a refund hold the row lock from the first read to the commit, so they are one part. Jobs run
  in any interleaving of their parts. Run alone, the parts of a job are the operation itself.
\<close>

section \<open>Jobs and their parts\<close>

datatype job =
    JobCreate env create_payment_request
  | JobCapture env string
  | JobRefund env string int64
  | JobCancel env string
  | JobWebhook env string string string string bool

text \<open>Where a job stands, with the values its code holds in local variables.\<close>

datatype 'w stage =
    Ready_to_start
  | Routed routing_decision "'w psp_adapter"
  | Recorded routing_decision "'w psp_adapter"
  | Answered_by routing_decision "err + psp_payment_response"
  | Found payment "'w psp_adapter"
  | Told payment
  | Checked
  | Located string string
  | Stored string
  | Handled "err + unit"
  | Finished "err + payment_response option"

definition responds :: "err + payment_response \<Rightarrow> 'w stage" where
  "responds res = Finished (map_sum id Some res)"

definition verify_webhook :: "web_lib \<Rightarrow> 'w psp_adapter \<Rightarrow> env \<Rightarrow> string \<Rightarrow> string \<Rightarrow> bool \<Rightarrow> err + unit" where
  "verify_webhook lib pspAdapter env payload signature skipSigVerify =
     (if skipSigVerify then Inr ()
      else andThen (mapErr (Wrapped ''signature verification failed'')
                      (guardE (ad_VerifyWebhookSignature pspAdapter payload signature))) (\<lambda>_.
           mapErr (Wrapped ''webhook replay rejected'') (guardE (validateWebhookFreshness lib (e_now env 0) payload))))"

fun create_part :: "env \<Rightarrow> create_payment_request \<Rightarrow> 'w stage \<Rightarrow> 'w sys \<Rightarrow> 'w stage \<times> 'w sys" where
  "create_part env req Ready_to_start s =
     (case Route (e_now env 0) (e_order env) req (srouter s) of
        (Inl e, rt) \<Rightarrow> (Finished (Inl (Wrapped ''routing payment'' e)), s\<lparr>srouter := rt\<rparr>)
      | (Inr (decision, pspAdapter), rt) \<Rightarrow> (Routed decision pspAdapter, s\<lparr>srouter := rt\<rparr>))"
| "create_part env req (Routed decision pspAdapter) s =
     (case run_tx (create_tx env req (rd_SelectedPSP decision)) (sdb s) of
        (Inl e, _) \<Rightarrow> (Finished (Inl e), s)
      | (Inr _, d) \<Rightarrow> (Recorded decision pspAdapter, s\<lparr>sdb := d\<rparr>))"
| "create_part env req (Recorded decision pspAdapter) s =
     (case Do retry_DefaultConfig ''psp_create_payment'' (e_cancel env) (ad_CreatePayment pspAdapter (psp_request req)) (world s) of
        (pspRes, w) \<Rightarrow> (Answered_by decision pspRes, s\<lparr>world := w\<rparr>))"
| "create_part env req (Answered_by decision pspRes) s =
     (case final_update env pspRes (s\<lparr>srouter := record_outcome env (rd_SelectedPSP decision) pspRes (srouter s)\<rparr>) of
        (Inl e, s2) \<Rightarrow> (Finished (Inl (Wrapped ''updating final state'' e)), s2)
      | (Inr _, s2) \<Rightarrow>
          (case pspRes of
             Inl e \<Rightarrow> (Finished (Inl (Wrapped ''psp failed'' e)), s2)
           | Inr _ \<Rightarrow> (responds (GetPayment env 2 (e_uuid env 0) (sdb s2)), s2)))"
| "create_part env req st s = (st, s)"

fun cancel_part :: "env \<Rightarrow> string \<Rightarrow> 'w stage \<Rightarrow> 'w sys \<Rightarrow> 'w stage \<times> 'w sys" where
  "cancel_part env pid Ready_to_start s =
     (case GetPayment env 0 pid (sdb s) of
        Inl e \<Rightarrow> (Finished (Inl e), s)
      | Inr resp \<Rightarrow>
          let p = pr_Payment resp in
          if Status p \<noteq> PaymentStatusAuthorized then (Finished (Inl ErrNotAuthorized), s)
          else case GetAdapter (srouter s) (PSP p) of
            Inl e \<Rightarrow> (Finished (Inl e), s)
          | Inr adp \<Rightarrow> (Found p adp, s))"
| "cancel_part env pid (Found p adp) s =
     (case ad_CancelPayment adp (PSPPaymentID p) (world s) of
        (Some e, w) \<Rightarrow> (Finished (Inl (Wrapped ''psp cancel failed'' e)), s\<lparr>world := w\<rparr>)
      | (None, w) \<Rightarrow> (Told p, s\<lparr>world := w\<rparr>))"
| "cancel_part env pid (Told p) s =
     (case updatePaymentState env 1 pid (Status p) PaymentStatusCancelled (PSPPaymentID p)
             ''Payment cancelled via API'' ''api'' s of
        (Inl e, s) \<Rightarrow> (Finished (Inl e), s)
      | (Inr _, s) \<Rightarrow> (responds (GetPayment env 2 pid (sdb s)), s))"
| "cancel_part env pid st s = (st, s)"

fun webhook_part ::
  "web_lib \<Rightarrow> (string \<rightharpoonup> 'w psp_adapter) \<Rightarrow> env \<Rightarrow> string \<Rightarrow> string \<Rightarrow> string \<Rightarrow> string \<Rightarrow> bool \<Rightarrow>
   'w stage \<Rightarrow> 'w sys \<Rightarrow> 'w stage \<times> 'w sys" where
  "webhook_part lib adps env psp eventType payload signature skip Ready_to_start s =
     (case adps psp of
        None \<Rightarrow> (Finished (Inl (UnknownPSP psp)), s)
      | Some pspAdapter \<Rightarrow>
          (case verify_webhook lib pspAdapter env payload signature skip of
             Inl e \<Rightarrow> (Finished (Inl e), s)
           | Inr _ \<Rightarrow>
               (case e_fault env 0 FindWebhook of
                  Some e \<Rightarrow> (Finished (Inl (Wrapped ''checking duplicate webhook'' e)), s)
                | None \<Rightarrow>
                    if webhook_by_key (sdb s) (idempotency_key lib psp eventType payload) \<noteq> None
                    then (Finished (Inr None), s) else (Checked, s))))"
| "webhook_part lib adps env psp eventType payload signature skip Checked s =
     (let pspPaymentID = extractPSPPaymentID lib psp payload in
      (Located pspPaymentID (find_internal_payment env psp pspPaymentID (sdb s)), s))"
| "webhook_part lib adps env psp eventType payload signature skip (Located pspPaymentID internalPaymentID) s =
     (case at_site (e_fault env 0) InsertWebhook (insert_webhook lib
             (new_webhook lib env psp eventType payload pspPaymentID internalPaymentID)) (sdb s) of
        Inl e \<Rightarrow> (Finished (Inl (Wrapped ''inserting webhook event'' e)), s)
      | Inr (_, d) \<Rightarrow> (Stored internalPaymentID, s\<lparr>sdb := d\<rparr>))"
| "webhook_part lib adps env psp eventType payload signature skip (Stored internalPaymentID) s =
     (case process_event lib env eventType internalPaymentID payload (sdb s) of
        (processErr, d) \<Rightarrow> (Handled processErr, s\<lparr>sdb := d\<rparr>))"
| "webhook_part lib adps env psp eventType payload signature skip (Handled processErr) s =
     (Finished (map_sum id (\<lambda>_. None) processErr), s\<lparr>sdb := finish_webhook env processErr (sdb s)\<rparr>)"
| "webhook_part lib adps env psp eventType payload signature skip st s = (st, s)"

fun part_of :: "web_lib \<Rightarrow> (string \<rightharpoonup> 'w psp_adapter) \<Rightarrow> job \<Rightarrow> 'w stage \<Rightarrow> 'w sys \<Rightarrow> 'w stage \<times> 'w sys" where
  "part_of lib adps (JobCreate env req) st s = create_part env req st s"
| "part_of lib adps (JobCapture env pid) st s =
     (case st of Ready_to_start \<Rightarrow> map_prod responds id (CapturePayment env pid s) | _ \<Rightarrow> (st, s))"
| "part_of lib adps (JobRefund env pid amount) st s =
     (case st of Ready_to_start \<Rightarrow> map_prod responds id (RefundPayment env pid amount s) | _ \<Rightarrow> (st, s))"
| "part_of lib adps (JobCancel env pid) st s = cancel_part env pid st s"
| "part_of lib adps (JobWebhook env psp eventType payload signature skip) st s =
     webhook_part lib adps env psp eventType payload signature skip st s"

section \<open>A job that runs alone\<close>

fun run_parts :: "web_lib \<Rightarrow> (string \<rightharpoonup> 'w psp_adapter) \<Rightarrow> job \<Rightarrow> nat \<Rightarrow> 'w stage \<Rightarrow> 'w sys \<Rightarrow> 'w stage \<times> 'w sys" where
  "run_parts lib adps j 0 st s = (st, s)"
| "run_parts lib adps j (Suc n) st s = (case part_of lib adps j st s of (st', s') \<Rightarrow> run_parts lib adps j n st' s')"

definition whole :: "web_lib \<Rightarrow> (string \<rightharpoonup> 'w psp_adapter) \<Rightarrow> job \<Rightarrow> 'w sys \<Rightarrow> 'w stage \<times> 'w sys" where
  "whole lib adps j s =
     (case j of
        JobCreate env req \<Rightarrow> map_prod responds id (CreatePayment env req s)
      | JobCapture env pid \<Rightarrow> map_prod responds id (CapturePayment env pid s)
      | JobRefund env pid amount \<Rightarrow> map_prod responds id (RefundPayment env pid amount s)
      | JobCancel env pid \<Rightarrow> map_prod responds id (CancelPayment env pid s)
      | JobWebhook env psp eventType payload signature skip \<Rightarrow>
          (case ingestWebhookInternal lib adps env psp eventType payload signature skip (sdb s) of
             (res, d) \<Rightarrow> (Finished (map_sum id (\<lambda>_. None) res), s\<lparr>sdb := d\<rparr>)))"

lemma finished_stays: "part_of lib adps j (Finished res) s = (Finished res, s)"
  by (cases j) simp_all

lemma run_finished [simp]: "run_parts lib adps j n (Finished res) s = (Finished res, s)"
  by (induction n) (simp_all add: finished_stays)

lemma run_responds [simp]: "run_parts lib adps j n (responds res) s = (responds res, s)"
  by (simp add: responds_def)

lemma responds_simps [simp]: "responds (Inl e) = Finished (Inl e)" "responds (Inr r) = Finished (Inr (Some r))"
  by (simp_all add: responds_def)

lemma responds_stays [simp]:
  "create_part env req (responds res) s = (responds res, s)" "cancel_part env pid (responds res) s = (responds res, s)"
  by (simp_all add: responds_def)

lemma create_alone: "run_parts lib adps (JobCreate env req) 5 Ready_to_start s = map_prod responds id (CreatePayment env req s)"
  by (simp add: numeral_eq_Suc CreatePayment_def Let_def split: prod.split sum.split)

lemma cancel_alone: "run_parts lib adps (JobCancel env pid) 5 Ready_to_start s = map_prod responds id (CancelPayment env pid s)"
  by (auto simp: numeral_eq_Suc CancelPayment_def Let_def split: prod.split sum.split option.split)

lemma webhook_alone:
  "run_parts lib adps (JobWebhook env psp ty payload sig skip) 5 Ready_to_start s =
     (case ingestWebhookInternal lib adps env psp ty payload sig skip (sdb s) of
        (res, d) \<Rightarrow> (Finished (map_sum id (\<lambda>_. None) res), s\<lparr>sdb := d\<rparr>))"
  by (auto simp: numeral_eq_Suc ingestWebhookInternal_def verify_webhook_def Let_def split: prod.split sum.split option.split)

text \<open>
  Cutting the operations into their parts changes nothing: a job whose parts, five at most, run
  without interruption gives the answer and the state of the operation itself.
\<close>

theorem parts_make_the_operation: "run_parts lib adps j 5 Ready_to_start s = whole lib adps j s"
proof (cases j)
  case (JobCapture env pid)
  then show ?thesis by (cases "CapturePayment env pid s") (simp add: whole_def numeral_eq_Suc)
next
  case (JobRefund env pid amount)
  then show ?thesis by (cases "RefundPayment env pid amount s") (simp add: whole_def numeral_eq_Suc)
qed (simp_all add: whole_def create_alone cancel_alone webhook_alone)

section \<open>Interleavings\<close>

text \<open>Every job has a number; a schedule says whose part comes next and where the process dies. \<open>ov_handled\<close> lists the events handled so far.\<close>

record 'w overlap =
  ov_sys :: "'w sys"
  ov_stage :: "nat \<Rightarrow> 'w stage"
  ov_handled :: "string list"

fun stored_key :: "web_lib \<Rightarrow> job \<Rightarrow> 'w stage \<Rightarrow> string option" where
  "stored_key lib (JobWebhook env psp eventType payload signature skip) (Stored pid) =
     Some (idempotency_key lib psp eventType payload)"
| "stored_key lib j st = None"

text \<open>
  The next part of a job runs, or the process dies: what was under way never goes on, and the next
  process starts with new breakers.
\<close>

datatype 'w overlap_event = Next nat | Crash "'w router"

definition cut_off :: "'w stage \<Rightarrow> 'w stage" where
  "cut_off st =
     (case st of
        Ready_to_start \<Rightarrow> Ready_to_start
      | Finished res \<Rightarrow> Finished res
      | _ \<Rightarrow> Finished (Inl (Errorf ''process ended'')))"

definition overlap_step ::
  "web_lib \<Rightarrow> (string \<rightharpoonup> 'w psp_adapter) \<Rightarrow> (nat \<Rightarrow> job) \<Rightarrow> 'w overlap \<Rightarrow> 'w overlap_event \<Rightarrow> 'w overlap" where
  "overlap_step lib adps jobs m e =
     (case e of
        Next i \<Rightarrow>
          (case part_of lib adps (jobs i) (ov_stage m i) (ov_sys m) of
             (st, s) \<Rightarrow>
               \<lparr>ov_sys = s, ov_stage = (ov_stage m)(i := st),
                ov_handled = ov_handled m @ (case stored_key lib (jobs i) (ov_stage m i) of None \<Rightarrow> [] | Some k \<Rightarrow> [k])\<rparr>)
      | Crash rt \<Rightarrow> m\<lparr>ov_sys := (ov_sys m)\<lparr>srouter := rt\<rparr>, ov_stage := (\<lambda>i. cut_off (ov_stage m i))\<rparr>)"

definition overlap_start :: "'w sys \<Rightarrow> 'w overlap" where
  "overlap_start s = \<lparr>ov_sys = s, ov_stage = (\<lambda>_. Ready_to_start), ov_handled = []\<rparr>"

section \<open>The books under overlap\<close>

lemma create_part_db: "pay_step\<^sup>*\<^sup>* (sdb s) (sdb (snd (create_part env req st s)))" if "payments_inv (sdb s)"
proof (cases st)
  case (Routed dec adp)
  then show ?thesis
    by (auto simp: run_tx_def dest: create_tx_step split: sum.split prod.split intro: r_into_rtranclp)
next
  case (Answered_by dec pspRes)
  let ?s = "s\<lparr>srouter := record_outcome env (rd_SelectedPSP dec) pspRes (srouter s)\<rparr>"
  obtain u s2 where fin: "final_update env pspRes ?s = (u, s2)" by (metis surj_pair)
  with final_update_steps [OF _ fin] that have "pay_step\<^sup>*\<^sup>* (sdb s) (sdb s2)" by simp
  with Answered_by fin show ?thesis by (cases u; cases pspRes) simp_all
qed (auto split: prod.split sum.split)

lemma cancel_part_db: "pay_step\<^sup>*\<^sup>* (sdb s) (sdb (snd (cancel_part env pid st s)))" if "payments_inv (sdb s)"
proof (cases st)
  case (Told p)
  with updatePaymentState_steps [OF that, of env 1 pid "Status p" PaymentStatusCancelled "PSPPaymentID p"
      "''Payment cancelled via API''" "''api''"]
  show ?thesis by (auto split: prod.split sum.split)
qed (auto simp: Let_def split: prod.split sum.split option.split)

context books_property begin

lemma webhook_part_keeps: "P (sdb (snd (webhook_part lib adps env psp ty payload sig skip st s)))" if "P (sdb s)"
proof (cases st)
  case (Located pspID pid)
  with that show ?thesis by (auto simp: result_simps dest!: insert_webhook_Inr split: sum.split prod.split)
next
  case (Stored pid)
  obtain res d where run: "process_event lib env ty pid payload (sdb s) = (res, d)" by (metis surj_pair)
  with process_event_steps [OF run] core_steps_keep that Stored show ?thesis by auto
qed (use that in \<open>auto simp: Let_def split: option.split sum.split\<close>)

lemma part_keeps: "P (sdb s) \<Longrightarrow> P (sdb (snd (part_of lib adps j st s)))"
proof (cases j)
  assume holds: "P (sdb s)"
  then have pay: "payments_inv (sdb s)" by (rule has_payments_inv)
  note keep = pay_steps_keep [OF _ holds]
  {
    case (JobCreate env req)
    with keep [OF create_part_db [OF pay]] show ?thesis by simp
  next
    case (JobCapture env pid)
    with keep [OF CapturePayment_steps] holds show ?thesis by (cases st) simp_all
  next
    case (JobRefund env pid amount)
    with keep [OF RefundPayment_steps] holds show ?thesis by (cases st) simp_all
  next
    case (JobCancel env pid)
    with keep [OF cancel_part_db [OF pay]] show ?thesis by simp
  next
    case (JobWebhook env psp ty payload sig skip)
    with webhook_part_keeps [OF holds] show ?thesis by simp
  }
qed

lemma overlap_step_keeps: "P (sdb (ov_sys m)) \<Longrightarrow> P (sdb (ov_sys (overlap_step lib adps jobs m e)))"
proof (cases e)
  case (Next i)
  then show "P (sdb (ov_sys m)) \<Longrightarrow> ?thesis"
    using part_keeps [of "ov_sys m" lib adps "jobs i" "ov_stage m i"]
    by (cases "part_of lib adps (jobs i) (ov_stage m i) (ov_sys m)") (simp add: overlap_step_def)
qed (simp add: overlap_step_def)

end

sublocale books_property \<subseteq> overlapping: machine "overlap_step lib adps jobs" "\<lambda>m. P (sdb (ov_sys m))"
  for lib adps jobs
  by unfold_locales (rule overlap_step_keeps)

text \<open>
  C8: overlap does no harm to the books: however the parts of any number of creations, captures,
  refunds, cancellations and webhook deliveries are interleaved from an empty database on, wherever the
  process dies between two parts and is started again, and whatever fails, audit trails replay to the status, refunds stay within the amount, every account balance is the
  fold of its entries, every ledger transaction and the trial balance balance, and the payments have
  gone through a course of lives of the abstract machine.
\<close>

theorem overlap_keeps_books:
  "let d = sdb (ov_sys (foldl (overlap_step lib adps jobs) (overlap_start (s\<lparr>sdb := migrated_db\<rparr>)) schedule))
   in distinct (map pay_id (payments d))
    \<and> list_all (\<lambda>r. replay (trail d (pay_id r)) = Some (pay_status r)
        \<and> 0 \<le> sint (pay_total_refunded r) \<and> sint (pay_total_refunded r) \<le> sint (pay_amount r)) (payments d)
    \<and> list_all (\<lambda>a. running (la_AccountType a) 0 (entries_of d (la_ID a)) = Some (la_CurrentBalance a)) (ledger_accounts d)
    \<and> list_all (\<lambda>t. tx_balanced d (lt_ID t)) (ledger_transactions d)
    \<and> trial (ledger_accounts d) = 0 \<and> life_step\<^sup>*\<^sup>* Map.empty (lives_of d)"
proof -
  have "refined_since migrated_db (sdb (ov_sys (overlap_start (s\<lparr>sdb := migrated_db\<rparr>))))"
    by (simp add: refined_since_def overlap_start_def core_inv_def payments_inv_migrated ledger_inv_migrated)
  then have "refined_since migrated_db
      (sdb (ov_sys (foldl (overlap_step lib adps jobs) (overlap_start (s\<lparr>sdb := migrated_db\<rparr>)) schedule)))"
    by (rule refining.overlapping.run_keeps_inv)
  then show ?thesis
    by (auto simp: refined_since_def lives_migrated core_inv_def payments_inv_def ledger_inv_def books_inv_def chk_refund_cap_def int64_order list_all_iff Let_def)
qed

section \<open>Events under overlap\<close>

definition event_keys :: "'w sys \<Rightarrow> string list" where
  "event_keys s = map we_IdempotencyKey (webhook_events (sdb s))"

text \<open>A part leaves the recorded events alone, or it records a new one and its job is about to handle it.\<close>

lemma webhook_part_keys:
  assumes "webhook_part lib adps env psp ty payload sig skip st s = (st', s')"
  shows "event_keys s' = event_keys s \<and> (\<forall>pid. st' \<noteq> Stored pid)
    \<or> (\<exists>pid. st' = Stored pid) \<and> idempotency_key lib psp ty payload \<notin> set (event_keys s)
      \<and> event_keys s' = event_keys s @ [idempotency_key lib psp ty payload]"
proof (cases st)
  case (Located pspID pid)
  let ?w = "new_webhook lib env psp ty payload pspID pid"
  show ?thesis
  proof (cases "at_site (e_fault env 0) InsertWebhook (insert_webhook lib ?w) (sdb s)")
    case (Inr ud)
    then have "insert_webhook lib ?w (sdb s) = Inr ud" by (simp add: result_simps)
    then have "snd ud = (sdb s)\<lparr>webhook_events := webhook_events (sdb s) @ [?w]\<rparr>"
      and "webhook_by_key (sdb s) (we_IdempotencyKey ?w) = None"
      by (auto simp: insert_webhook_def split: if_splits)
    with Inr assms Located show ?thesis
      by (cases ud) (auto simp: event_keys_def webhook_by_key_None new_webhook_def)
  qed (use assms Located in auto)
next
  case (Stored pid)
  obtain res d where run: "process_event lib env ty pid payload (sdb s) = (res, d)" by (metis surj_pair)
  have "webhook_events d = webhook_events (sdb s)"
    using conjunct1 [OF process_event_steps [OF run]]
    by (induction rule: rtranclp_induct) (auto dest: core_step_webhooks)
  with assms run Stored show ?thesis by (auto simp: event_keys_def)
next
  case (Handled res)
  with assms finish_webhook_keys [of env res "sdb s"] show ?thesis by (auto simp: event_keys_def)
qed (use assms in \<open>auto simp: Let_def split: option.splits sum.splits if_splits\<close>)

lemma pay_steps_events: "pay_step\<^sup>*\<^sup>* d d' \<Longrightarrow> webhook_events d' = webhook_events d"
  by (induction rule: rtranclp_induct) (auto dest: core_step_webhooks [OF core_pay])

lemma part_keys:
  assumes "part_of lib adps j st s = (st', s')" and "payments_inv (sdb s)"
  shows "event_keys s' = event_keys s \<and> stored_key lib j st' = None
    \<or> (\<exists>k. stored_key lib j st' = Some k \<and> k \<notin> set (event_keys s) \<and> event_keys s' = event_keys s @ [k])"
proof (cases j)
  case (JobCreate env req)
  with assms pay_steps_events [OF create_part_db [OF assms(2), of env req st]] show ?thesis
    by (simp add: event_keys_def)
next
  case (JobCapture env pid)
  with assms pay_steps_events [OF CapturePayment_steps [of s env pid]] show ?thesis
    by (cases st) (auto simp: event_keys_def map_prod_def split: prod.splits)
next
  case (JobRefund env pid amount)
  with assms pay_steps_events [OF RefundPayment_steps [of s env pid amount]] show ?thesis
    by (cases st) (auto simp: event_keys_def map_prod_def split: prod.splits)
next
  case (JobCancel env pid)
  with assms pay_steps_events [OF cancel_part_db [OF assms(2), of env pid st]] show ?thesis
    by (simp add: event_keys_def)
next
  case (JobWebhook env psp ty payload sig skip)
  with assms webhook_part_keys [of lib adps env psp ty payload sig skip st s st' s'] show ?thesis
    by (cases st') auto
qed

text \<open>
  Handled events are recorded, no event is handled twice, and of the jobs about to handle one no two have
  the same.
\<close>

definition handled_inv :: "web_lib \<Rightarrow> (nat \<Rightarrow> job) \<Rightarrow> 'w overlap \<Rightarrow> bool" where
  "handled_inv lib jobs m \<longleftrightarrow>
     core_inv (sdb (ov_sys m)) \<and> distinct (ov_handled m) \<and> set (ov_handled m) \<subseteq> set (event_keys (ov_sys m))
   \<and> (\<forall>i k. stored_key lib (jobs i) (ov_stage m i) = Some k \<longrightarrow>
        k \<in> set (event_keys (ov_sys m)) \<and> k \<notin> set (ov_handled m)
        \<and> (\<forall>j. j \<noteq> i \<longrightarrow> stored_key lib (jobs j) (ov_stage m j) \<noteq> Some k))"

lemma handled_invD:
  assumes "handled_inv lib jobs m"
  shows "core_inv (sdb (ov_sys m))" "distinct (ov_handled m)" "set (ov_handled m) \<subseteq> set (event_keys (ov_sys m))"
    "stored_key lib (jobs i) (ov_stage m i) = Some k \<Longrightarrow> k \<in> set (event_keys (ov_sys m)) \<and> k \<notin> set (ov_handled m)"
    "stored_key lib (jobs i) (ov_stage m i) = Some k \<Longrightarrow> stored_key lib (jobs j) (ov_stage m j) = Some k \<Longrightarrow> j = i"
  using assms unfolding handled_inv_def by blast+

lemma handled_invI:
  assumes "core_inv (sdb (ov_sys m))" "distinct (ov_handled m)" "set (ov_handled m) \<subseteq> set (event_keys (ov_sys m))"
    "\<And>i k. stored_key lib (jobs i) (ov_stage m i) = Some k \<Longrightarrow> k \<in> set (event_keys (ov_sys m)) \<and> k \<notin> set (ov_handled m)"
    "\<And>i j k. stored_key lib (jobs i) (ov_stage m i) = Some k \<Longrightarrow> stored_key lib (jobs j) (ov_stage m j) = Some k \<Longrightarrow> j = i"
  shows "handled_inv lib jobs m"
  using assms unfolding handled_inv_def by blast

lemma handled_inv_next:
  assumes inv: "handled_inv lib jobs m"
  shows "handled_inv lib jobs (overlap_step lib adps jobs m (Next i))"
proof -
  obtain st s where part: "part_of lib adps (jobs i) (ov_stage m i) (ov_sys m) = (st, s)" by (metis surj_pair)
  define old where "old = stored_key lib (jobs i) (ov_stage m i)"
  define new where "new = stored_key lib (jobs i) st"
  let ?m = "overlap_step lib adps jobs m (Next i)"
  have m': "ov_sys ?m = s" "ov_handled ?m = ov_handled m @ (case old of None \<Rightarrow> [] | Some k \<Rightarrow> [k])"
    and stored: "stored_key lib (jobs j) (ov_stage ?m j) = (if j = i then new else stored_key lib (jobs j) (ov_stage m j))" for j
    by (simp_all add: overlap_step_def part old_def new_def)
  have "payments_inv (sdb (ov_sys m))" using handled_invD(1) [OF inv] by (simp add: core_inv_def)
  note keys = part_keys [OF part this, folded new_def]
  have old_key: "k \<in> set (event_keys (ov_sys m)) \<and> k \<notin> set (ov_handled m)" if "old = Some k" for k
    using handled_invD(4) [OF inv] that by (simp add: old_def)
  have other: "k \<in> set (event_keys (ov_sys m)) \<and> k \<notin> set (ov_handled m) \<and> old \<noteq> Some k"
    if "stored_key lib (jobs j) (ov_stage m j) = Some k" "j \<noteq> i" for j k
    using handled_invD(4,5) [OF inv that(1)] that(2) by (auto simp: old_def)
  have grows: "set (event_keys (ov_sys m)) \<subseteq> set (event_keys s)" and fresh: "new = Some k \<Longrightarrow> k \<in> set (event_keys s)
      \<and> k \<notin> set (event_keys (ov_sys m))" for k
    using keys by auto
  show ?thesis
  proof (rule handled_invI)
    show "core_inv (sdb (ov_sys ?m))"
      using in_order.part_keeps [OF handled_invD(1) [OF inv], of lib adps "jobs i" "ov_stage m i"] by (simp add: m' part)
    show "distinct (ov_handled ?m)"
      using handled_invD(2) [OF inv] old_key by (cases old) (simp_all add: m')
    show "set (ov_handled ?m) \<subseteq> set (event_keys (ov_sys ?m))"
      using handled_invD(3) [OF inv] old_key grows by (cases old) (auto simp: m')
    show "k \<in> set (event_keys (ov_sys ?m)) \<and> k \<notin> set (ov_handled ?m)"
      if "stored_key lib (jobs j) (ov_stage ?m j) = Some k" for j k
      using that fresh [of k] other [of j k] grows handled_invD(3) [OF inv] old_key
      by (cases "j = i"; cases old) (auto simp: stored m')
    show "j' = j" if "stored_key lib (jobs j) (ov_stage ?m j) = Some k" "stored_key lib (jobs j') (ov_stage ?m j') = Some k" for j j' k
      using that fresh [of k] other [of j k] other [of j' k] handled_invD(5) [OF inv, of j k j']
      by (auto simp: stored split: if_splits)
  qed
qed

text \<open>A crash forgets which events were stored and not yet handled; none of them is handled later.\<close>

lemma stored_key_cut_off: "stored_key lib j (cut_off st) = None"
  by (cases j; cases st) (simp_all add: cut_off_def)

lemma handled_inv_step: "handled_inv lib jobs m \<Longrightarrow> handled_inv lib jobs (overlap_step lib adps jobs m e)"
  by (cases e) (simp add: handled_inv_next, simp add: overlap_step_def handled_inv_def stored_key_cut_off event_keys_def)

interpretation handling: machine "overlap_step lib adps jobs" "handled_inv lib jobs"
  for lib adps jobs
  by unfold_locales (rule handled_inv_step)

text \<open>
  C7: an event is handled at most once: however deliveries of the same and of other webhooks overlap with
  each other and with calls of the service, and although each looks for a duplicate before it inserts, no
  idempotency key is handled twice, and every handled event is on record. Crashes of the process change nothing about it.
\<close>

theorem events_handled_at_most_once:
  "let m = foldl (overlap_step lib adps jobs) (overlap_start (s\<lparr>sdb := migrated_db\<rparr>)) schedule
   in distinct (ov_handled m) \<and> set (ov_handled m) \<subseteq> set (event_keys (ov_sys m))"
proof -
  have idle: "stored_key lib j Ready_to_start = None" for j by (cases j) simp_all
  have "handled_inv lib jobs (overlap_start (s\<lparr>sdb := migrated_db\<rparr>))"
    by (simp add: handled_inv_def overlap_start_def core_inv_def payments_inv_migrated ledger_inv_migrated idle)
  then have "handled_inv lib jobs (foldl (overlap_step lib adps jobs) (overlap_start (s\<lparr>sdb := migrated_db\<rparr>)) schedule)"
    by (rule handling.run_keeps_inv)
  then show ?thesis by (simp add: handled_inv_def Let_def)
qed

section \<open>A capture during a cancellation\<close>

lemma stale_update_fails:
  assumes "map_option pay_status (payment_by_id (sdb s) pid) \<noteq> Some from" and "payments_inv (sdb s)"
  shows "\<exists>e. updatePaymentState env k pid from to pspID reason trigger s = (Inl e, s)"
  using updatePaymentState_cases [of env k pid "from" to pspID reason trigger s]
proof (elim disjE exE conjE)
  fix d'
  assume "status_update_tx env k pid from to pspID reason trigger (sdb s) = Inr ((), d')"
  from status_update_row [OF assms(2) this] assms(1) show ?thesis by fastforce
qed blast

lemma capture_records:
  assumes "CapturePayment env pid s = (Inr r, s')"
  shows "map_option pay_status (payment_by_id (sdb s') pid) = Some PaymentStatusCaptured"
  using CapturePayment_outcome [of env pid s]
proof (elim disjE exE conjE)
  fix p pspID adp x w d'
  assume lock: "lock_tx env pid (sdb s) = Inr ((p, pspID), sdb s)" and wr: "capture_writes env pid (sdb s) = Inr ((), d')"
    and "CapturePayment env pid s = (GetPayment env 1 pid d',
          PublishPaymentEvent (e_now env 1) pid PaymentStatusAuthorized PaymentStatusCaptured ''api''
            (s\<lparr>world := w, sdb := d'\<rparr>))"
  with assms have "sdb s' = d'" by (auto simp: prod_eq_iff)
  with lock_tx_Inr [OF lock] capture_writes_db [OF wr] show ?thesis by (simp add: payment_by_id_update)
qed (use assms in simp)

text \<open>
  C21: a capture that gets in between wins: once the provider was told to cancel, a capture of the payment
  that succeeds before the cancellation is written down leaves the payment captured; the cancellation
  ends in an error and changes nothing, although the provider has carried it out.
\<close>

theorem capture_wins_over_cancel:
  assumes "payments_inv (sdb s)" and "CapturePayment env pid s = (Inr r, s')" and "Status p = PaymentStatusAuthorized"
  shows "map_option pay_status (payment_by_id (sdb s') pid) = Some PaymentStatusCaptured
    \<and> (\<exists>e. cancel_part env' pid (Told p) s' = (Finished (Inl e), s'))"
proof -
  have "map_option pay_status (payment_by_id (sdb s') pid) = Some PaymentStatusCaptured"
    by (rule capture_records [OF assms(2)])
  moreover have "payments_inv (sdb s')"
    using pay_steps_inv [OF CapturePayment_steps assms(1), of env pid] assms(2) by simp
  ultimately show ?thesis
    using stale_update_fails [of s' pid PaymentStatusAuthorized env' 1 PaymentStatusCancelled "PSPPaymentID p"
        "''Payment cancelled via API''" "''api''"] assms(3) by auto
qed

lemma demo_api_capture_answers: "isInl (fst (CapturePayment (demo_env 1) ''-'' demo_created)) = False"
  by code_simp

lemma demo_found: "\<exists>resp. GetPayment (demo_env 3) 0 ''-'' (sdb demo_created) = Inr resp
    \<and> Status (pr_Payment resp) = PaymentStatusAuthorized"
proof -
  have "(case GetPayment (demo_env 3) 0 ''-'' (sdb demo_created) of Inl _ \<Rightarrow> False
      | Inr resp \<Rightarrow> Status (pr_Payment resp) = PaymentStatusAuthorized)" by code_simp
  then show ?thesis by (auto split: sum.splits)
qed

lemma capture_wins_over_cancel_witness:
  "\<exists>resp s' e. GetPayment (demo_env 3) 0 ''-'' (sdb demo_created) = Inr resp
     \<and> snd (CapturePayment (demo_env 1) ''-'' demo_created) = s'
     \<and> cancel_part (demo_env 3) ''-'' (Told (pr_Payment resp)) s' = (Finished (Inl e), s')"
proof -
  obtain resp where resp: "GetPayment (demo_env 3) 0 ''-'' (sdb demo_created) = Inr resp"
    "Status (pr_Payment resp) = PaymentStatusAuthorized" using demo_found by blast
  obtain a s' where run: "CapturePayment (demo_env 1) ''-'' demo_created = (a, s')" by (metis prod.collapse)
  with demo_api_capture_answers obtain r where "a = Inr r" by (cases a) auto
  with capture_wins_over_cancel [OF demo_inv(2) _ resp(2)] run resp(1) show ?thesis by fastforce
qed

end
