(* ===== verification/Progress.thy ===== *)
theory Progress
  imports Payment_Service Lifecycle
begin

text \<open>
  When nothing stands in the way, the operations of the payment service go through: no statement fails,
  new identifiers are unused, and the provider answers, if need be after failures that are retried.
  The other side: a creation that was interrupted before the provider's answer was written down is never
  taken up again by anything.
\<close>

section \<open>An undisturbed environment\<close>

definition unused :: "env \<Rightarrow> db \<Rightarrow> bool" where
  "unused env d \<longleftrightarrow> (\<forall>n. payment_by_id d (e_uuid env n) = None
     \<and> e_uuid env n \<notin> tr_ID ` set (payment_state_transitions d))"

named_theorems undisturbed

lemma quiet_at_site [undisturbed]: "quiet env \<Longrightarrow> at_site (e_fault env k) st m d = m d"
  by (simp add: at_site_def quiet_def)

lemma quiet_callT [undisturbed]: "quiet env \<Longrightarrow> callT (e_fault env k) st d = Inr ((), d)"
  by (simp add: callT_def quiet_at_site returnT_def)

lemma quiet_fault [undisturbed]: "quiet env \<Longrightarrow> e_fault env k st = None"
  by (simp add: quiet_def)

lemma quiet_uuid [undisturbed]: "quiet env \<Longrightarrow> e_uuid env m = e_uuid env n \<longleftrightarrow> m = n"
  by (auto simp: quiet_def inj_eq)

lemma GetPayment_quiet:
  assumes "quiet env" and "payment_by_id d pid = Some r" and "pay_psp_payment_id r = Some pspID"
  shows "GetPayment env k pid d = Inr \<lparr>pr_Payment = payment_of_row r pspID, pr_StateTransitions = sort_key tr_CreatedAt (trail d pid)\<rparr>"
  using assms by (simp add: GetPayment_def undisturbed select_payment_def scan_string_def)

section \<open>Statements that go through\<close>

lemma update_one_row:
  assumes inv: "payments_inv d" and r: "payment_by_id d pid = Some r" and "Q r" and only: "\<And>x. Q x \<Longrightarrow> pay_id x = pid"
    and cap: "chk_refund_cap (f r)"
  shows "update_payments Q f d = Inr (rows_matching Q (payments d), d\<lparr>payments := update_where Q f (payments d)\<rparr>)"
    and "rows_matching Q (payments d) \<noteq> 0"
proof -
  from r have "r \<in> set (payments d)" by (auto dest: payment_by_id_SomeD)
  with \<open>Q r\<close> show "rows_matching Q (payments d) \<noteq> 0" by (auto simp: rows_matching_def filter_empty_conv)
  have "x = r" if "x \<in> set (payments d)" "Q x" for x
    using payment_by_id_eq [OF inv that(1)] only [OF that(2)] r by simp
  then have "\<forall>x \<in> set (payments d). Q x \<longrightarrow> chk_refund_cap (f x)" using cap by blast
  then show "update_payments Q f d = Inr (rows_matching Q (payments d), d\<lparr>payments := update_where Q f (payments d)\<rparr>)"
    by (simp add: update_payments_def list_all_iff)
qed

lemma insert_transition_new:
  assumes "payment_by_id d (tr_PaymentID t) \<noteq> None" and "tr_ID t \<notin> tr_ID ` set (payment_state_transitions d)"
  shows "insert_transition t d = Inr ((), d\<lparr>payment_state_transitions := payment_state_transitions d @ [t]\<rparr>)"
proof -
  have "\<not> list_ex (\<lambda>x. tr_ID x = tr_ID t) (payment_state_transitions d)" using assms(2) unfolding list_ex_iff image_iff by metis
  with assms(1) show ?thesis by (simp add: insert_transition_def)
qed

lemma payment_by_id_still_there:
  "payment_by_id (d\<lparr>payments := update_where Q f (payments d)\<rparr>) pid \<noteq> None" if "payment_by_id d pid \<noteq> None" "\<And>x. pay_id (f x) = pay_id x"
  using that map_update_where_same [of Q pay_id f "payments d"] by (simp add: payment_by_id_None flip: set_map)

lemma change_status_quiet:
  assumes "payments_inv d" and "quiet env" and r: "payment_by_id d pid = Some r" and "chk_refund_cap (f r)"
    and "\<And>x. pay_id (f x) = pay_id x" and "tr_PaymentID t = pid" and "tr_ID t \<notin> tr_ID ` set (payment_state_transitions d)"
  shows "\<exists>d'. change_status (e_fault env k) w1 w2 pid f t d = Inr ((), d')"
proof -
  from r have "pay_id r = pid" by (auto dest: payment_by_id_SomeD)
  note upd = update_one_row [OF assms(1) r, of "\<lambda>x. pay_id x = pid" f, OF this _ assms(4)]
  have "insert_transition t (d\<lparr>payments := update_where (\<lambda>x. pay_id x = pid) f (payments d)\<rparr>) = Inr ((),
      d\<lparr>payments := update_where (\<lambda>x. pay_id x = pid) f (payments d), payment_state_transitions := payment_state_transitions d @ [t]\<rparr>)"
    using insert_transition_new [of "d\<lparr>payments := update_where (\<lambda>x. pay_id x = pid) f (payments d)\<rparr>" t]
      payment_by_id_still_there [of d pid f "\<lambda>x. pay_id x = pid"] assms by simp
  with upd assms(2) show ?thesis by (auto simp: change_status_def undisturbed result_simps)
qed

lemma status_update_quiet:
  assumes "payments_inv d" and "quiet env" and r: "payment_by_id d pid = Some r" and "pay_status r = from"
    and new: "e_uuid env (1 + k) \<notin> tr_ID ` set (payment_state_transitions d)"
  shows "\<exists>d'. status_update_tx env k pid from to pspID reason trigger d = Inr ((), d')"
proof -
  let ?Q = "\<lambda>x. pay_id x = pid \<and> pay_status x = from"
  let ?f = "with_status to pspID (e_now env k)"
  from r have "?Q r" using assms(4) by (auto dest: payment_by_id_SomeD)
  moreover from assms(1) r have "chk_refund_cap (?f r)"
    by (auto simp: payments_inv_def with_status_def chk_refund_cap_def dest: payment_by_id_SomeD)
  ultimately have upd: "update_payments ?Q ?f d = Inr (rows_matching ?Q (payments d), d\<lparr>payments := update_where ?Q ?f (payments d)\<rparr>)"
    "rows_matching ?Q (payments d) \<noteq> 0" using update_one_row [OF assms(1) r, of ?Q] by blast+
  moreover have "insert_transition (status_transition env k pid from to reason trigger) (d\<lparr>payments := update_where ?Q ?f (payments d)\<rparr>)
      = Inr ((), d\<lparr>payments := update_where ?Q ?f (payments d), payment_state_transitions := payment_state_transitions d @
          [status_transition env k pid from to reason trigger]\<rparr>)"
    using insert_transition_new [of "d\<lparr>payments := update_where ?Q ?f (payments d)\<rparr>" "status_transition env k pid from to reason trigger"]
      payment_by_id_still_there [of d pid ?f ?Q] r new by (simp add: status_transition_def with_status_def)
  ultimately show ?thesis using assms(2) by (auto simp: status_update_tx_def undisturbed result_simps Let_def)
qed

lemma updatePaymentState_quiet:
  assumes "payments_inv (sdb s)" and "quiet env" and r: "payment_by_id (sdb s) pid = Some r" and "pay_status r = from"
    and new: "e_uuid env (1 + k) \<notin> tr_ID ` set (payment_state_transitions (sdb s))" and "CanTransition from to"
  shows "\<exists>s2. updatePaymentState env k pid from to pspID reason trigger s = (Inr (), s2)
    \<and> payment_by_id (sdb s2) pid = Some (with_status to pspID (e_now env k) r)"
proof -
  obtain u s2 where run: "updatePaymentState env k pid from to pspID reason trigger s = (u, s2)" by (metis surj_pair)
  have valid: "ValidateTransition from to = None" using assms(6) by simp
  from status_update_quiet [OF assms(1-5), of to pspID reason trigger] run have "u = Inr ()"
    by (auto simp: updatePaymentState_def run_tx_def valid)
  with updatePaymentState_rows [OF assms(1) run] r run show ?thesis by auto
qed

section \<open>A payment is created\<close>

lemma create_tx_quiet:
  assumes "quiet env" and "unused env d" and "0 \<le> sint (rq_Amount req)"
  shows "\<exists>d'. create_tx env req psp d = Inr ((), d')
    \<and> payment_state_transitions d' = payment_state_transitions d @ [initial_transition env]"
proof -
  let ?d = "d\<lparr>payments := payments d @ [initial_row env req psp]\<rparr>"
  have "insert_payment (initial_row env req psp) d = Inr ((), ?d)"
    using assms(2,3) by (simp add: insert_payment_def unused_def initial_row_def chk_refund_cap_def int64_order)
  moreover have "insert_transition (initial_transition env) ?d
      = Inr ((), ?d\<lparr>payment_state_transitions := payment_state_transitions d @ [initial_transition env]\<rparr>)"
    using insert_transition_new [of ?d "initial_transition env"] assms(2)
    by (simp add: initial_transition_def initial_row_def unused_def payment_by_id_None)
  ultimately show ?thesis using assms(1) by (auto simp: create_tx_def undisturbed result_simps Let_def)
qed

text \<open>
  C14: a payment goes through: if routing finds a provider, nothing disturbs the database and the provider
  accepts within the attempts of the retry loop, whatever transient failures come before, then creating the
  payment answers with the payment of the request, authorized and carrying the provider's identifier.
\<close>

theorem payment_goes_through:
  assumes "payments_inv (sdb s)" and "quiet env" and "unused env (sdb s)" and "0 \<le> sint (rq_Amount req)"
    and route: "Route (e_now env 0) (e_order env) req (srouter s) = (Inr (dec, adp), rt)"
    and "int k < MaxAttempts retry_DefaultConfig"
    and "\<forall>j < k. retried (e_cancel env) (ad_CreatePayment adp (psp_request req)) (world s) 0 j"
    and "outcome (ad_CreatePayment adp (psp_request req)) (world s) k = Inr ans" and "ps_PSPPaymentID ans \<noteq> []"
  shows "\<exists>resp s'. CreatePayment env req s = (Inr resp, s')
    \<and> ID (pr_Payment resp) = e_uuid env 0 \<and> Status (pr_Payment resp) = PaymentStatusAuthorized
    \<and> MerchantID (pr_Payment resp) = rq_MerchantID req \<and> Amount (pr_Payment resp) = rq_Amount req
    \<and> Currency (pr_Payment resp) = rq_Currency req \<and> PSP (pr_Payment resp) = rd_SelectedPSP dec
    \<and> PSPPaymentID (pr_Payment resp) = ps_PSPPaymentID ans"
proof -
  let ?row = "initial_row env req (rd_SelectedPSP dec)"
  obtain d1 where tx: "create_tx env req (rd_SelectedPSP dec) (sdb s) = Inr ((), d1)"
    and trs: "payment_state_transitions d1 = payment_state_transitions (sdb s) @ [initial_transition env]"
    using create_tx_quiet [OF assms(2-4)] by blast
  from create_tx_step [OF tx] pay_step_inv assms(1) have inv: "payments_inv d1" by blast
  obtain w where call: "Do retry_DefaultConfig ''psp_create_payment'' (e_cancel env)
      (ad_CreatePayment adp (psp_request req)) (world s) = (Inr ans, w)"
    using Do_first_success [OF assms(6-8)] by blast
  define s1 where "s1 = s\<lparr>sdb := d1, world := w, srouter := record_outcome env (rd_SelectedPSP dec) (Inr ans) rt\<rparr>"
  from create_tx_rows [OF tx] have "payment_by_id (sdb s1) (e_uuid env 0) = Some ?row" by (simp add: s1_def)
  moreover have "e_uuid env (1 + 1) \<notin> tr_ID ` set (payment_state_transitions (sdb s1))"
    using assms(2,3) by (auto simp: s1_def trs unused_def initial_transition_def undisturbed)
  ultimately obtain s2 where fin: "final_update env (Inr ans) s1 = (Inr (), s2)"
    and row: "payment_by_id (sdb s2) (e_uuid env 0) = Some (with_status PaymentStatusAuthorized (ps_PSPPaymentID ans) (e_now env 1) ?row)"
    using updatePaymentState_quiet [of s1 env "e_uuid env 0" ?row PaymentStatusCreated 1 PaymentStatusAuthorized
        "ps_PSPPaymentID ans" "''PSP authorization successful''" "''system''"] assms(2) inv
    by (auto simp: final_update_def s1_def initial_row_def)
  have "GetPayment env 2 (e_uuid env 0) (sdb s2) = Inr \<lparr>pr_Payment = payment_of_row
      (with_status PaymentStatusAuthorized (ps_PSPPaymentID ans) (e_now env 1) ?row) (ps_PSPPaymentID ans),
      pr_StateTransitions = sort_key tr_CreatedAt (trail (sdb s2) (e_uuid env 0))\<rparr>"
    by (rule GetPayment_quiet [OF assms(2) row]) (simp add: with_status_def assms(9))
  with route tx call fin show ?thesis
    by (simp add: CreatePayment_def run_tx_def s1_def payment_of_row_def with_status_def initial_row_def)
qed

section \<open>It is captured and refunded\<close>

lemma lock_tx_quiet:
  assumes "quiet env" and "payment_by_id d pid = Some r" and "pay_psp_payment_id r = Some pspID"
  shows "lock_tx env pid d = Inr ((r, pspID), d)"
  using assms
  by (simp add: lock_tx_def lock_payment_def bindT_def ctxT_def undisturbed select_payment_def scan_string_def)

lemma capture_goes_through:
  assumes inv: "payments_inv (sdb s)" and "quiet env" and "unused env (sdb s)"
    and r: "payment_by_id (sdb s) pid = Some r" and "pay_status r = PaymentStatusAuthorized"
    and psp: "pay_psp_payment_id r = Some pspID" and "adapters (srouter s) (pay_psp r) = Some adp"
    and call: "ad_CapturePayment adp pspID (pay_amount r) (pay_currency r) (world s) = (Inr x, w)"
    and r': "r' = r\<lparr>pay_status := PaymentStatusCaptured, pay_updated_at := e_now env 0\<rparr>"
  obtains resp s' where "CapturePayment env pid s = (Inr resp, s')" "pr_Payment resp = payment_of_row r' pspID"
    "payment_by_id (sdb s') pid = Some r'" "world s' = w" "srouter s' = srouter s" "payments_inv (sdb s')"
proof -
  from inv r have "chk_refund_cap r'" by (auto simp: r' payments_inv_def chk_refund_cap_def dest: payment_by_id_SomeD)
  then obtain d' where wr: "capture_writes env pid (sdb s) = Inr ((), d')"
    using change_status_quiet [OF inv assms(2) r, of "\<lambda>r. r\<lparr>pay_status := PaymentStatusCaptured, pay_updated_at := e_now env 0\<rparr>"
        "capture_transition env pid" 0 "Wrapped ''updating capture state''" "Wrapped ''recording capture transition''"] assms(2,3)
    by (auto simp: r' capture_writes_def result_simps undisturbed capture_transition_def unused_def)
  from capture_writes_db [OF wr] r have row: "payment_by_id d' pid = Some r'" by (simp add: payment_by_id_update r')
  define s' where "s' = PublishPaymentEvent (e_now env 1) pid PaymentStatusAuthorized PaymentStatusCaptured ''api'' (s\<lparr>world := w, sdb := d'\<rparr>)"
  have "GetPayment env 1 pid d' = Inr \<lparr>pr_Payment = payment_of_row r' pspID, pr_StateTransitions = sort_key tr_CreatedAt (trail d' pid)\<rparr>"
    by (rule GetPayment_quiet [OF assms(2) row]) (simp add: r' psp)
  then have run: "CapturePayment env pid s =
      (Inr \<lparr>pr_Payment = payment_of_row r' pspID, pr_StateTransitions = sort_key tr_CreatedAt (trail d' pid)\<rparr>, s')"
    using lock_tx_quiet [OF assms(2) r psp] assms(5,7) call wr by (simp add: CapturePayment_def GetAdapter_def s'_def)
  moreover have "payments_inv (sdb s')"
    using pay_steps_inv [OF CapturePayment_steps inv, of env pid] run by simp
  ultimately show thesis using that row by (simp add: s'_def)
qed

lemma refund_goes_through:
  assumes inv: "payments_inv (sdb s)" and "quiet env" and "unused env (sdb s)"
    and r: "payment_by_id (sdb s) pid = Some r" and "pay_status r = PaymentStatusCaptured \<or> pay_status r = PaymentStatusPartiallyRefunded"
    and psp: "pay_psp_payment_id r = Some pspID" and "adapters (srouter s) (pay_psp r) = Some adp"
    and call: "ad_RefundPayment adp pspID n (world s) = (Inr x, w)"
    and n: "0 \<le> sint n" "sint (pay_total_refunded r) + sint n \<le> sint (pay_amount r)"
    and r': "r' = r\<lparr>pay_status := refund_status (pay_total_refunded r + n) (pay_amount r),
      pay_total_refunded := pay_total_refunded r + n, pay_updated_at := e_now env 0\<rparr>"
  obtains resp s' where "RefundPayment env pid n s = (Inr resp, s')" "pr_Payment resp = payment_of_row r' pspID"
    "payment_by_id (sdb s') pid = Some r'" "sint (pay_total_refunded r') = sint (pay_total_refunded r) + sint n"
proof -
  from r have pid: "pay_id r = pid" by (auto dest: payment_by_id_SomeD)
  from inv r have cap: "0 \<le> sint (pay_total_refunded r)" "sint (pay_total_refunded r) \<le> sint (pay_amount r)"
    by (auto simp: payments_inv_def chk_refund_cap_def int64_order dest: payment_by_id_SomeD)
  from cap have left: "sint (pay_amount r - pay_total_refunded r) = sint (pay_amount r) - sint (pay_total_refunded r)"
    by (intro sint64_diff_nonneg) linarith+
  from cap n have sum: "sint (pay_total_refunded r + n) = sint (pay_total_refunded r) + sint n" by (simp add: sint64_add_upto)
  have "chk_refund_cap r'" using n cap by (simp add: r' chk_refund_cap_def int64_order sum)
  then obtain d' where wr: "refund_writes env r n (sdb s) = Inr ((), d')"
    using change_status_quiet [OF inv assms(2) r, of "\<lambda>x. x\<lparr>pay_status := refund_status (pay_total_refunded r + n) (pay_amount r),
        pay_total_refunded := pay_total_refunded r + n, pay_updated_at := e_now env 0\<rparr>" "refund_transition env r n" 0
        "Wrapped ''updating refund state''" "Wrapped ''recording refund transition''"] assms(2,3)
    by (auto simp: r' refund_writes_def result_simps undisturbed refund_transition_def unused_def pid Let_def)
  from refund_writes_db [OF wr] r have row: "payment_by_id d' pid = Some r'" by (simp add: payment_by_id_update r' pid)
  define s' where "s' = PublishPaymentEvent (e_now env 1) pid (pay_status r) (refund_status (pay_total_refunded r + n) (pay_amount r))
      ''api'' (s\<lparr>world := w, sdb := d'\<rparr>)"
  have "GetPayment env 1 pid d' = Inr \<lparr>pr_Payment = payment_of_row r' pspID, pr_StateTransitions = sort_key tr_CreatedAt (trail d' pid)\<rparr>"
    by (rule GetPayment_quiet [OF assms(2) row]) (simp add: r' psp)
  moreover have "\<not> (pay_amount r - pay_total_refunded r <s n)" using n left by (simp add: int64_order)
  ultimately have "RefundPayment env pid n s =
      (Inr \<lparr>pr_Payment = payment_of_row r' pspID, pr_StateTransitions = sort_key tr_CreatedAt (trail d' pid)\<rparr>, s')"
    using lock_tx_quiet [OF assms(2) r psp] assms(5,7) call wr by (auto simp: RefundPayment_def GetAdapter_def s'_def)
  with that row show thesis by (simp add: s'_def r' sum)
qed

text \<open>
  C15: an authorized payment can be seen through: if nothing disturbs the database and the provider accepts,
  it is captured, and then any part of it up to the whole is refunded; the answer reports the refunded total,
  and the payment is refunded exactly when that is everything, partially refunded otherwise.
\<close>

theorem authorized_payment_settles:
  assumes "payments_inv (sdb s)" and "payment_by_id (sdb s) pid = Some r" and "pay_status r = PaymentStatusAuthorized"
    and "pay_psp_payment_id r = Some pspID" and "adapters (srouter s) (pay_psp r) = Some adp" and "pay_total_refunded r = 0"
    and "quiet env" and "unused env (sdb s)"
    and "ad_CapturePayment adp pspID (pay_amount r) (pay_currency r) (world s) = (Inr x, w)"
    and "quiet env'" and "unused env' (sdb (snd (CapturePayment env pid s)))"
    and "ad_RefundPayment adp pspID n w = (Inr y, w')" and "0 \<le> sint n" "sint n \<le> sint (pay_amount r)"
  shows "\<exists>first s1 second s2. CapturePayment env pid s = (Inr first, s1) \<and> Status (pr_Payment first) = PaymentStatusCaptured
    \<and> RefundPayment env' pid n s1 = (Inr second, s2) \<and> sint (TotalRefunded (pr_Payment second)) = sint n
    \<and> Status (pr_Payment second) = (if sint n = sint (pay_amount r) then PaymentStatusRefunded else PaymentStatusPartiallyRefunded)"
proof -
  define r1 where "r1 = r\<lparr>pay_status := PaymentStatusCaptured, pay_updated_at := e_now env 0\<rparr>"
  obtain first s1 where one: "CapturePayment env pid s = (Inr first, s1)" "pr_Payment first = payment_of_row r1 pspID"
    "payment_by_id (sdb s1) pid = Some r1" "world s1 = w" "srouter s1 = srouter s" "payments_inv (sdb s1)"
    using capture_goes_through [OF assms(1,7,8,2,3,4,5,9) r1_def] by blast
  define r2 where "r2 = r1\<lparr>pay_status := refund_status (pay_total_refunded r1 + n) (pay_amount r1),
      pay_total_refunded := pay_total_refunded r1 + n, pay_updated_at := e_now env' 0\<rparr>"
  have now: "unused env' (sdb s1)" "pay_status r1 = PaymentStatusCaptured \<or> pay_status r1 = PaymentStatusPartiallyRefunded"
    "pay_psp_payment_id r1 = Some pspID" "adapters (srouter s1) (pay_psp r1) = Some adp"
    "ad_RefundPayment adp pspID n (world s1) = (Inr y, w')"
    "sint (pay_total_refunded r1) + sint n \<le> sint (pay_amount r1)"
    using assms(4-6,11,12,14) one by (simp_all add: r1_def)
  obtain second s2 where two: "RefundPayment env' pid n s1 = (Inr second, s2)" "pr_Payment second = payment_of_row r2 pspID"
    "sint (pay_total_refunded r2) = sint (pay_total_refunded r1) + sint n"
    using refund_goes_through [OF one(6) assms(10) now(1) one(3) now(2-5) assms(13) now(6) r2_def] by blast
  have "pay_status r2 = (if sint n = sint (pay_amount r) then PaymentStatusRefunded else PaymentStatusPartiallyRefunded)"
    using assms(6,14) two(3) by (simp add: r2_def r1_def refund_status_def int64_order)
  with one two assms(6) show ?thesis by (simp add: payment_of_row_def r1_def)
qed

section \<open>Concrete runs\<close>

lemma demo_env_quiet: "quiet (demo_env m)"
proof -
  have "replicate x (CHR ''b'') = replicate y (CHR ''b'') \<Longrightarrow> x = y" for x y
    by (drule arg_cong [where f = length]) simp
  then show ?thesis by (auto simp: quiet_def demo_env_def quiet_env_def intro!: injI)
qed

lemma demo_uuid_apart: "e_uuid (demo_env m) n = e_uuid (demo_env m') n' \<Longrightarrow> m = m'"
proof -
  have "takeWhile (\<lambda>c. c \<noteq> CHR ''-'') (e_uuid (demo_env m) n) = replicate m (CHR ''a'')" for m n
    by (simp add: demo_env_def takeWhile_append)
  then show "e_uuid (demo_env m) n = e_uuid (demo_env m') n' \<Longrightarrow> m = m'" by (metis length_replicate)
qed

lemma demo_unused:
  assumes "\<forall>x \<in> pay_id ` set (payments d) \<union> tr_ID ` set (payment_state_transitions d). \<exists>m' n'. m' < m \<and> x = e_uuid (demo_env m') n'"
  shows "unused (demo_env m) d"
  using assms demo_uuid_apart unfolding unused_def payment_by_id_None by (metis UnI1 UnI2 less_irrefl)

lemma demo_identifiers:
  "map pay_id (payments (sdb demo_created)) = [e_uuid (demo_env 0) 0]"
  "map tr_ID (payment_state_transitions (sdb demo_created)) = [e_uuid (demo_env 0) 1, e_uuid (demo_env 0) 2]"
  "map pay_id (payments (sdb demo_captured)) = [e_uuid (demo_env 0) 0]"
  "map tr_ID (payment_state_transitions (sdb demo_captured)) = [e_uuid (demo_env 0) 1, e_uuid (demo_env 0) 2, e_uuid (demo_env 1) 0]"
  by code_simp+

lemma demo_all_unused: "unused (demo_env 0) (sdb demo_sys)" "unused (demo_env 1) (sdb demo_created)" "unused (demo_env 2) (sdb demo_captured)"
proof -
  show "unused (demo_env 0) (sdb demo_sys)" by (rule demo_unused) (simp add: demo_sys_def migrated_db_def)
  show "unused (demo_env 1) (sdb demo_created)"
    by (rule demo_unused) (simp flip: set_map add: demo_identifiers, blast)
  show "unused (demo_env 2) (sdb demo_captured)"
    by (rule demo_unused) (simp flip: set_map add: demo_identifiers, metis less_2_cases_iff)
qed

lemma demo_provider_accepts:
  "case Route (e_now (demo_env 0) 0) (e_order (demo_env 0)) (demo_request\<lparr>rq_Amount := 10\<rparr>) (srouter demo_sys) of
     (Inl _, _) \<Rightarrow> False
   | (Inr (dec, adp), _) \<Rightarrow>
       (case outcome (ad_CreatePayment adp (psp_request (demo_request\<lparr>rq_Amount := 10\<rparr>))) (world demo_sys) 0 of
          Inl _ \<Rightarrow> False | Inr ans \<Rightarrow> ps_PSPPaymentID ans \<noteq> [])"
  by code_simp

lemma payment_goes_through_witness:
  "\<exists>resp s'. CreatePayment (demo_env 0) (demo_request\<lparr>rq_Amount := 10\<rparr>) demo_sys = (Inr resp, s')
     \<and> Status (pr_Payment resp) = PaymentStatusAuthorized \<and> Amount (pr_Payment resp) = 10"
proof -
  let ?req = "demo_request\<lparr>rq_Amount := 10\<rparr>"
  obtain choice rt where route: "Route (e_now (demo_env 0) 0) (e_order (demo_env 0)) ?req (srouter demo_sys) = (choice, rt)"
    by (metis surj_pair)
  with demo_provider_accepts obtain dec adp where choice: "choice = Inr (dec, adp)" by (cases choice) auto
  from demo_provider_accepts route choice obtain ans where
    "outcome (ad_CreatePayment adp (psp_request ?req)) (world demo_sys) 0 = Inr ans" "ps_PSPPaymentID ans \<noteq> []"
    by (cases "outcome (ad_CreatePayment adp (psp_request ?req)) (world demo_sys) 0") auto
  with route choice have "Route (e_now (demo_env 0) 0) (e_order (demo_env 0)) ?req (srouter demo_sys) = (Inr (dec, adp), rt)"
    "outcome (ad_CreatePayment adp (psp_request ?req)) (world demo_sys) 0 = Inr ans" "ps_PSPPaymentID ans \<noteq> []" by simp_all
  from payment_goes_through [OF demo_inv(1) demo_env_quiet demo_all_unused(1) _ this(1) _ _ this(2,3)]
  show ?thesis by (auto simp: retry_DefaultConfig_def)
qed

lemma demo_provider_settles:
  "case payment_by_id (sdb demo_created) ''-'' of None \<Rightarrow> False | Some r \<Rightarrow>
     pay_status r = PaymentStatusAuthorized \<and> pay_total_refunded r = 0 \<and> pay_amount r = 10 \<and>
     (case pay_psp_payment_id r of None \<Rightarrow> False | Some pspID \<Rightarrow>
      case adapters (srouter demo_created) (pay_psp r) of None \<Rightarrow> False | Some adp \<Rightarrow>
      case ad_CapturePayment adp pspID (pay_amount r) (pay_currency r) (world demo_created) of
        (Inl _, _) \<Rightarrow> False | (Inr _, w) \<Rightarrow> \<not> isInl (fst (ad_RefundPayment adp pspID 4 w)))"
  by code_simp

lemma authorized_payment_settles_witness:
  "\<exists>first s1 second s2. CapturePayment (demo_env 1) ''-'' demo_created = (Inr first, s1)
     \<and> RefundPayment (demo_env 2) ''-'' 4 s1 = (Inr second, s2) \<and> sint (TotalRefunded (pr_Payment second)) = 4
     \<and> Status (pr_Payment second) = PaymentStatusPartiallyRefunded"
proof -
  obtain r pspID adp x w y w' where r: "payment_by_id (sdb demo_created) ''-'' = Some r" "pay_status r = PaymentStatusAuthorized"
    "pay_psp_payment_id r = Some pspID" "adapters (srouter demo_created) (pay_psp r) = Some adp" "pay_total_refunded r = 0"
    and calls: "ad_CapturePayment adp pspID (pay_amount r) (pay_currency r) (world demo_created) = (Inr x, w)"
      "ad_RefundPayment adp pspID 4 w = (Inr y, w')" and amount: "pay_amount r = 10"
    using demo_provider_settles by (auto split: option.splits prod.splits sum.splits simp: not_isInl prod_eq_iff)
  have "snd (CapturePayment (demo_env 1) ''-'' demo_created) = demo_captured" by (simp add: demo_captured_def)
  with authorized_payment_settles [OF demo_inv(2) r demo_env_quiet demo_all_unused(2) calls(1) demo_env_quiet _ calls(2), of 2]
    demo_all_unused(3) show ?thesis by (auto simp: amount)
qed

section \<open>What is never taken up again\<close>

text \<open>Calls of the service and deliveries of webhooks, in any order.\<close>

datatype books_call =
    Called payment_call
  | Delivered env string string string string bool

fun book_step :: "web_lib \<Rightarrow> (string \<rightharpoonup> 'w psp_adapter) \<Rightarrow> 'w sys \<Rightarrow> books_call \<Rightarrow> 'w sys" where
  "book_step lib adps s (Called c) = payment_api s c"
| "book_step lib adps s (Delivered env psp eventType payload signature skip) =
     s\<lparr>sdb := snd (ingestWebhookInternal lib adps env psp eventType payload signature skip (sdb s))\<rparr>"

lemma posted_apart:
  assumes "moved_and_posted env p to reason ty debited credited desc amount d d'" and "payment_by_id d (pay_id p) = Some p"
    and "q \<noteq> pay_id p"
  shows "payment_by_id d' q = payment_by_id d q"
proof -
  from moved_and_posted_steps [OF assms(1,2)] obtain d1 where "ledger_step d1 d'"
    "d1 = d\<lparr>payments := update_where (\<lambda>x. pay_id x = pay_id p) (webhook_status_row env to) (payments d),
            payment_state_transitions := payment_state_transitions d @ [webhook_transition env p to reason]\<rparr>" .
  with ledger_step_frame [of d1 d'] assms(3) show ?thesis
    by (simp add: payment_by_id_cong [of d' d1] payment_by_id_update webhook_status_row_def)
qed

lemma process_event_apart:
  assumes "process_event lib env ty pid payload d = (res, d')" and "q \<noteq> pid"
  shows "payment_by_id d' q = payment_by_id d q"
proof -
  have cap: "payment_by_id d' q = payment_by_id d q" if "capture_webhook_tx env pid d = Inr (u, d')" for u d'
    using capture_webhook_outcome [OF that] posted_apart assms(2) by auto
  have ref: "payment_by_id d' q = payment_by_id d q" if "refund_webhook_tx env pid a d = Inr (u, d')" for u d' a
    using refund_webhook_outcome [OF that] posted_apart assms(2) by auto
  have fai: "payment_by_id d' q = payment_by_id d q" if "failure_webhook_tx env pid d = Inr (u, d')" for u d'
    using that assms(2)
    by (auto simp: failure_webhook_tx_def Let_def result_simps payment_by_id_update webhook_status_row_def
        dest!: change_status_Inr split: if_splits option.splits)
  note keeps = run_tx_keeps [where P = "\<lambda>d'. payment_by_id d' q = payment_by_id d q", OF refl]
  have "payment_by_id (snd (processCaptureWebhook env pid d)) q = payment_by_id d q"
    by (simp add: processCaptureWebhook_def keeps cap)
  moreover have "payment_by_id (snd (processFailureWebhook env pid d)) q = payment_by_id d q"
    by (simp add: processFailureWebhook_def keeps fai)
  moreover have "payment_by_id (snd (processRefundWebhook lib env pid payload d)) q = payment_by_id d q"
    by (auto simp: processRefundWebhook_def Let_def intro!: keeps dest: ref split: option.split)
  ultimately have "payment_by_id (snd (process_event lib env ty pid payload d)) q = payment_by_id d q"
    by (simp add: process_event_def)
  with assms(1) show ?thesis by simp
qed

lemma process_event_nowhere: "process_event lib env ty [] payload d = (res, d') \<Longrightarrow> d' = d"
  by (auto simp: process_event_def processCaptureWebhook_def processFailureWebhook_def processRefundWebhook_def split: if_splits)

definition left_created :: "payment_row \<Rightarrow> 'w sys \<Rightarrow> bool" where
  "left_created r s \<longleftrightarrow> payments_inv (sdb s) \<and> payment_by_id (sdb s) (pay_id r) = Some r
     \<and> pay_status r = PaymentStatusCreated \<and> pay_psp_payment_id r = None"

lemma left_created_unreadable:
  assumes "left_created r s"
  shows "GetPayment env k (pay_id r) (sdb s) \<noteq> Inr resp" "lock_tx env (pay_id r) (sdb s) \<noteq> Inr x"
proof -
  from assms have r: "payment_by_id (sdb s) (pay_id r) = Some r" "pay_psp_payment_id r = None" by (simp_all add: left_created_def)
  then show "GetPayment env k (pay_id r) (sdb s) \<noteq> Inr resp" by (auto dest: GetPayment_row)
  from r show "lock_tx env (pay_id r) (sdb s) \<noteq> Inr x"
    by (cases x) (auto simp: lock_tx_def lock_payment_def result_simps select_payment_def scan_string_def at_site_def split: option.splits)
qed

text \<open>It stays through every call and every delivery.\<close>

lemma left_created_call:
  assumes left: "left_created r s"
  shows "left_created r (payment_api s c)"
proof -
  let ?pid = "pay_id r"
  from left have inv: "payments_inv (sdb s)" and r: "payment_by_id (sdb s) ?pid = Some r" by (simp_all add: left_created_def)
  have keep: "left_created r s'" if "pay_step\<^sup>*\<^sup>* (sdb s) (sdb s')" "payment_by_id (sdb s') ?pid = payment_by_id (sdb s) ?pid" for s' :: "'a sys"
    using left that pay_steps_inv [OF that(1) inv] by (simp add: left_created_def)
  have "payment_by_id (sdb (payment_api s c)) ?pid = payment_by_id (sdb s) ?pid"
  proof (cases c)
    case (CallCreate env req)
    show ?thesis
      using CreatePayment_outcome [of env req s]
    proof (elim disjE exE conjE)
      fix dec adp rt d1 res w u s2
      assume tx: "create_tx env req (rd_SelectedPSP dec) (sdb s) = Inr ((), d1)"
        and fin: "final_update env res (s\<lparr>sdb := d1, world := w, srouter := record_outcome env (rd_SelectedPSP dec) res rt\<rparr>) = (u, s2)"
        and run: "CreatePayment env req s = (case u of Inl e \<Rightarrow> (Inl (Wrapped ''updating final state'' e), s2)
           | Inr _ \<Rightarrow> (case res of Inl e \<Rightarrow> (Inl (Wrapped ''psp failed'' e), s2)
             | Inr _ \<Rightarrow> (GetPayment env 2 (e_uuid env 0) (sdb s2), s2)))"
      from run have "sdb (payment_api s c) = sdb s2" by (simp add: CallCreate split: sum.split)
      with create_then_settle [OF inv tx fin] r show ?thesis by (metis option.distinct(1))
    qed (simp add: CallCreate)
  next
    case (CallCapture env q)
    show ?thesis
      using CapturePayment_outcome [of env q s]
    proof (elim disjE exE conjE)
      fix p pspID adp x w d'
      assume lock: "lock_tx env q (sdb s) = Inr ((p, pspID), sdb s)" and wr: "capture_writes env q (sdb s) = Inr ((), d')"
        and run: "CapturePayment env q s = (GetPayment env 1 q d', PublishPaymentEvent (e_now env 1) q PaymentStatusAuthorized
            PaymentStatusCaptured ''api'' (s\<lparr>world := w, sdb := d'\<rparr>))"
      from lock left_created_unreadable(2) [OF left] have "q \<noteq> ?pid" by blast
      with run capture_writes_db [OF wr] show ?thesis by (simp add: CallCapture payment_by_id_update)
    qed (simp add: CallCapture)
  next
    case (CallRefund env q n)
    {
      fix p pspID adp x w d'
      assume lock: "lock_tx env q (sdb s) = Inr ((p, pspID), sdb s)" and wr: "refund_writes env p n (sdb s) = Inr ((), d')"
        and run: "RefundPayment env q n s = (GetPayment env 1 q d', PublishPaymentEvent (e_now env 1) q (pay_status p)
            (refund_status (pay_total_refunded p + n) (pay_amount p)) ''api'' (s\<lparr>world := w, sdb := d'\<rparr>))"
      from lock left_created_unreadable(2) [OF left] have "q \<noteq> ?pid" by blast
      moreover from lock_tx_Inr [OF lock] have "pay_id p = q" by (auto dest: payment_by_id_SomeD)
      ultimately have ?thesis using run refund_writes_db [OF wr] by (simp add: CallRefund payment_by_id_update)
    }
    moreover have ?thesis if "RefundPayment env q n s = (Inl e, s\<lparr>world := w\<rparr>)" for e w
      using that by (simp add: CallRefund)
    ultimately show ?thesis using RefundPayment_outcome [of env q n s] by blast
  next
    case (CallCancel env q)
    have "payment_by_id (sdb s2) ?pid = payment_by_id (sdb s) ?pid"
      if "updatePaymentState env 1 q st PaymentStatusCancelled pspID rsn ''api'' (s\<lparr>world := w\<rparr>) = (u, s2)" "q \<noteq> ?pid"
      for st pspID rsn w u s2
      using updatePaymentState_rows [OF _ that(1)] inv that(2) by auto
    moreover have "\<exists>e. GetPayment env 0 ?pid (sdb s) = Inl e"
      using left_created_unreadable(1) [OF left, of env 0] by (cases "GetPayment env 0 ?pid (sdb s)") auto
    ultimately show ?thesis
      by (cases "q = ?pid") (auto simp: CallCancel CancelPayment_def Let_def split: sum.split prod.split option.split)
  qed simp
  moreover have "pay_step\<^sup>*\<^sup>* (sdb s) (sdb (payment_api s c))" by (rule payment_api_steps [OF inv])
  ultimately show ?thesis using keep by blast
qed

lemma payments_kept: "core_step\<^sup>*\<^sup>* d d' \<Longrightarrow> payments_inv d \<Longrightarrow> payments_inv d'"
proof (induction rule: rtranclp_induct)
  case (step d1 d2)
  from step.hyps(2) step.IH [OF step.prems] show ?case
  proof cases
    case core_ledger
    with ledger_step_frame payments_inv_cong step.IH [OF step.prems] show ?thesis by blast
  qed (auto intro: pay_step_inv)
qed

lemma left_created_delivery:
  assumes left: "left_created r s"
  shows "left_created r (s\<lparr>sdb := snd (ingestWebhookInternal lib adps env psp ty payload sig skip (sdb s))\<rparr>)"
proof -
  let ?pid = "pay_id r"
  from left have inv: "payments_inv (sdb s)" and r: "payment_by_id (sdb s) ?pid = Some r" and none: "pay_psp_payment_id r = None"
    by (simp_all add: left_created_def)
  obtain res d' where run: "ingestWebhookInternal lib adps env psp ty payload sig skip (sdb s) = (res, d')" by (metis surj_pair)
  have "payments_inv d' \<and> payment_by_id d' ?pid = Some r"
    using ingest_outcome [OF run]
  proof (elim disjE exE conjE)
    fix w pid d2
    let ?d = "sdb s\<lparr>webhook_events := webhook_events (sdb s) @ [w]\<rparr>"
    assume pid: "pid = find_internal_payment env psp (extractPSPPaymentID lib psp payload) (sdb s)"
      and pe: "process_event lib env ty pid payload ?d = (res, d2)" and d': "d' = finish_webhook env res d2"
    have "payment_by_id d2 ?pid = payment_by_id ?d ?pid"
    proof (cases "pid = ?pid \<and> pid \<noteq> []")
      case True
      with pid obtain r' where r': "r' \<in> set (payments (sdb s))" "pay_id r' = ?pid" "pay_psp_payment_id r' \<noteq> None"
        by (auto simp: find_internal_payment_def payment_by_psp_def split: if_splits option.splits dest: find_SomeD)
      from payment_by_id_eq [OF inv r'(1)] r'(2,3) r none have False by simp
      then show ?thesis ..
    next
      case False
      then consider "pid = []" | "?pid \<noteq> pid" by auto
      then show ?thesis
      proof cases
        case 1
        with pe process_event_nowhere show ?thesis by blast
      qed (rule process_event_apart [OF pe])
    qed
    moreover have "payments_inv d2"
      using process_event_steps [OF pe] payments_kept [of ?d d2] inv payments_inv_cong [of ?d "sdb s"] by simp
    ultimately show ?thesis using r payments_inv_cong [of d' d2] by (simp add: d' payment_by_id_def)
  qed (use inv r in simp_all)
  with left run show ?thesis by (simp add: left_created_def)
qed

lemma book_step_left: "left_created r s \<Longrightarrow> left_created r (book_step lib adps s c)"
  by (cases c) (simp_all add: left_created_call left_created_delivery)

interpretation abandoned: machine "book_step lib adps" "left_created r" for lib adps r
  by unfold_locales (rule book_step_left)

text \<open>
  C20: an interrupted creation is stuck: a payment whose creation ended before the provider's answer was
  written down (the process died, or the database failed at that moment, while the provider may have accepted)
  is never touched again: no call of the service, no webhook and no other creation changes its row,
  and it cannot even be read, since its provider identifier is missing.
\<close>

theorem interrupted_creation_is_stuck:
  assumes "payments_inv (sdb s)" and "payment_by_id (sdb s) pid = Some r"
    and "pay_status r = PaymentStatusCreated" and "pay_psp_payment_id r = None"
  shows "payment_by_id (sdb (foldl (book_step lib adps) s calls)) pid = Some r
    \<and> isInl (GetPayment env k pid (sdb (foldl (book_step lib adps) s calls)))"
proof -
  from assms(2) have pid: "pay_id r = pid" by (auto dest: payment_by_id_SomeD)
  with assms have "left_created r s" by (simp add: left_created_def)
  then have left: "left_created r (foldl (book_step lib adps) s calls)" by (rule abandoned.run_keeps_inv)
  then show ?thesis
    using left_created_unreadable(1) [OF left, of env k] pid
    by (cases "GetPayment env k pid (sdb (foldl (book_step lib adps) s calls))") (auto simp: left_created_def)
qed

text \<open>The provider accepts, and the statement that would write that down fails.\<close>

definition demo_interrupted :: "mock_world sys" where
  "demo_interrupted = snd (CreatePayment
     (demo_env 0\<lparr>e_fault := (\<lambda>k st. if k = 1 \<and> st = UpdatePayment then Some (ExternalErr ''down'') else None)\<rparr>)
     (demo_request\<lparr>rq_Amount := 10\<rparr>) demo_sys)"

lemma demo_interrupted_row:
  "map_option (\<lambda>r. (pay_status r, pay_psp_payment_id r)) (payment_by_id (sdb demo_interrupted) ''-'') =
     Some (PaymentStatusCreated, None)"
  by code_simp

lemma interrupted_creation_is_stuck_witness:
  "\<exists>r. pay_status r = PaymentStatusCreated
     \<and> (\<forall>lib adps. payment_by_id (sdb (foldl (book_step lib adps) demo_interrupted
          [Called (CallCapture (demo_env 1) ''-''), Called (CallCancel (demo_env 2) ''-'')])) ''-'' = Some r)"
proof -
  from demo_interrupted_row obtain r where r: "payment_by_id (sdb demo_interrupted) ''-'' = Some r"
    "pay_status r = PaymentStatusCreated" "pay_psp_payment_id r = None" by auto
  have "payments_inv (sdb demo_interrupted)"
    unfolding demo_interrupted_def using pay_steps_inv [OF CreatePayment_steps [OF demo_inv(1)] demo_inv(1)] by simp
  from interrupted_creation_is_stuck [OF this r] r show ?thesis by blast
qed

end
