(* ===== verification/Process.thy ===== *)
theory Process
  imports System
begin

text \<open>
  The life of a server process, the rest of \<^verbatim>\<open>cmd/server/main.go\<close>: what it opens while it starts, its two
  listeners, the background subscriber, the shutdown on a signal, and how it ends. A deployment is one
  process after the other over the same database, Redis and Pub/Sub.
\<close>

section \<open>The logger's level\<close>

datatype slog_level = LevelDebug | LevelInfo | LevelWarn | LevelError

definition configured_level :: "string \<Rightarrow> slog_level" where
  "configured_level level =
     (if level = ''debug'' then LevelDebug
      else if level = ''info'' then LevelInfo
      else if level = ''warn'' then LevelWarn
      else if level = ''error'' then LevelError
      else LevelInfo)"

section \<open>What a process opens and closes\<close>

text \<open>The resources with a deferred close, and the calls that closing them makes.\<close>

datatype resource = Tracing_Provider "tracer_provider option" | Database_Pool | Redis_Client | PubSub_Client pubsub_config

datatype close_call = FlushSpans tracer_provider | ClosePool | CloseRedis | StopPublisher string | CloseClient

text \<open>\<^verbatim>\<open>Client.Close\<close> of \<^verbatim>\<open>internal/pubsub\<close>.\<close>

definition pubsub_Close :: "pubsub_config \<Rightarrow> close_call list" where
  "pubsub_Close cfg = [StopPublisher (pc_WebhookTopicID cfg), StopPublisher (pc_EventTopicID cfg), CloseClient]"

fun close_calls :: "resource \<Rightarrow> close_call list" where
  "close_calls (Tracing_Provider p) = map FlushSpans (tracing_Shutdown p)"
| "close_calls Database_Pool = [ClosePool]"
| "close_calls Redis_Client = [CloseRedis]"
| "close_calls (PubSub_Client cfg) = pubsub_Close cfg"

text \<open>Deferred calls run last in, first out when \<^verbatim>\<open>main\<close> returns, and not at all on \<^verbatim>\<open>os.Exit\<close>.\<close>

definition run_deferred :: "resource list \<Rightarrow> close_call list" where
  "run_deferred opened = concat (map close_calls (rev opened))"

section \<open>Starting\<close>

record ('r, 'p) live_process =
  rn_app :: "(mock_world, 'r, 'p) app"
  rn_router :: "mock_world router"
  rn_level :: slog_level
  rn_otel :: otel
  rn_open :: "resource list"

text \<open>A process that has ended, with its exit status and the calls that closed its resources.\<close>

datatype ('r, 'p) process = Up "('r, 'p) live_process" | Down int "close_call list"

definition trace_settings_of :: "config \<Rightarrow> trace_settings" where
  "trace_settings_of cfg =
     \<lparr>ts_Enabled = tc_Enabled (cf_Tracing cfg), ts_Endpoint = tc_Endpoint (cf_Tracing cfg),
      ts_SampleRate = tc_SampleRate (cf_Tracing cfg), ts_Env = sc_Env (cf_Server cfg)\<rparr>"

definition no_otel :: otel where
  "no_otel = \<lparr>ot_Provider = None, ot_Propagators = []\<rparr>"

definition opened_by :: "err + tracer_provider option \<Rightarrow> ('w, 'r, 'p) app \<Rightarrow> resource list" where
  "opened_by tracing ap =
     (case tracing of Inl _ \<Rightarrow> [] | Inr p \<Rightarrow> [Tracing_Provider p])
     @ [Database_Pool]
     @ (case ap_redis ap of None \<Rightarrow> [] | Some _ \<Rightarrow> [Redis_Client])
     @ (case ap_pubsub ap of None \<Rightarrow> [] | Some (api, cfg, codec) \<Rightarrow> [PubSub_Client cfg])"

text \<open>
  A panic while the configuration is loaded ends the process with status 2, a failing step with
  status 1; tracing that cannot be set up is only logged.
\<close>

definition boot ::
  "(string \<Rightarrow> err option) \<Rightarrow> ('r, 'p) outside \<Rightarrow> variables \<Rightarrow> 'p \<Rightarrow> ('r, 'p) process \<times> 'p" where
  "boot new_exporter ou vars p =
     (case Load (ou_parseFloat ou) vars of
        Inl msg \<Rightarrow> (Down 2 [], p)
      | Inr cfg \<Rightarrow>
          (case InitTracer new_exporter ''payment-orchestrator'' (trace_settings_of cfg) no_otel of
             (tracing, ot) \<Rightarrow>
               (case start_server ou vars p of
                  (Running (ap, rt), p') \<Rightarrow>
                    (Up \<lparr>rn_app = ap, rn_router = rt, rn_level = configured_level (lc_Level (cf_Log cfg)), rn_otel = ot,
                         rn_open = opened_by tracing ap\<rparr>, p')
                | (_, p') \<Rightarrow> (Down 1 [], p'))))"

section \<open>Shutting down\<close>

text \<open>
  \<^verbatim>\<open>http.Server.Shutdown\<close> under a deadline: it waits for the requests that are being served, and gives up
  when the time that remains is over.
\<close>

definition http_Shutdown :: "duration \<Rightarrow> duration \<Rightarrow> err option \<times> duration" where
  "http_Shutdown remaining needed =
     (if needed \<le> remaining then (None, needed) else (Some (Errorf ''context deadline exceeded''), remaining))"

definition shutdown_timeout :: duration where
  "shutdown_timeout = 10 * second"

text \<open>The two listeners share one deadline; only the main one decides the exit status.\<close>

definition shutdown :: "('r, 'p) live_process \<Rightarrow> duration \<Rightarrow> duration \<Rightarrow> ('r, 'p) process \<times> duration" where
  "shutdown rn needed metrics_needed =
     (case http_Shutdown shutdown_timeout needed of
        (Some e, t) \<Rightarrow> (Down 1 [], t)
      | (None, t) \<Rightarrow>
          (case http_Shutdown (shutdown_timeout - t) metrics_needed of
             (_, t') \<Rightarrow> (Down 0 (run_deferred (rn_open rn)), t + t')))"

section \<open>Running\<close>

datatype listen_error = ErrServerClosed | ListenError err

text \<open>What happens to a process beside its requests.\<close>

datatype happening =
    MainListener listen_error
  | MetricsListener listen_error
  | SubscriberStopped "err option"
  | Signalled duration duration

fun process_step :: "('r, 'p) process \<Rightarrow> happening \<Rightarrow> ('r, 'p) process" where
  "process_step (Up rn) (MainListener ErrServerClosed) = Up rn"
| "process_step (Up rn) (MainListener (ListenError e)) = Down 1 []"
| "process_step (Up rn) (MetricsListener e) = Up rn"
| "process_step (Up rn) (SubscriberStopped e) = Up rn"
| "process_step (Up rn) (Signalled needed metrics_needed) = fst (shutdown rn needed metrics_needed)"
| "process_step (Down status calls) h = Down status calls"

text \<open>The second listener: a \<^verbatim>\<open>ServeMux\<close> of its own with one path; \<open>other\<close> is the mux's answer to any other.\<close>

definition metrics_server :: "reply \<Rightarrow> runtime_stats \<Rightarrow> (payload, http_metrics \<times> 's) handler" where
  "metrics_server other rs r =
     (if hq_Path r = ''/metrics'' then MetricsHandler rs r else reply_with other r)"

section \<open>How a process ends\<close>

text \<open>
  A signal ends the process within ten seconds: if the requests being served finish in that time it
  exits with status 0, having closed everything it opened, last opened first; otherwise it exits with
  status 1 and closes nothing, so buffered spans and messages are lost. The metrics listener, whether
  it finishes or not, makes no difference to either.
\<close>

theorem signal_ends_process:
  "process_step (Up rn) (Signalled needed metrics_needed) =
     (if needed \<le> 10 * second then Down 0 (concat (map close_calls (rev (rn_open rn)))) else Down 1 [])
   \<and> snd (shutdown rn needed metrics_needed) \<le> 10 * second"
  by (auto simp: shutdown_def http_Shutdown_def shutdown_timeout_def run_deferred_def)

text \<open>
  The metrics behind a key on the main listener are served on the second one to anybody: headers and
  address make no difference.
\<close>

lemma metrics_listener_needs_no_key:
  assumes "hq_Path r = ''/metrics''"
  shows "metrics_server other rs r s = MetricsHandler rs (request_from [] []) s"
  using assms by (simp add: metrics_server_def MetricsHandler_def)

text \<open>What is open follows from the configuration and from what could be reached.\<close>

lemma boot_Up:
  assumes "fst (boot new_exporter ou vars p) = Up rn"
  obtains cfg where "Load (ou_parseFloat ou) vars = Inr cfg"
    "fst (start_server ou vars p) = Running (rn_app rn, rn_router rn)"
    "rn_open rn = opened_by (fst (InitTracer new_exporter ''payment-orchestrator'' (trace_settings_of cfg) no_otel)) (rn_app rn)"
proof -
  from assms obtain cfg where cfg: "Load (ou_parseFloat ou) vars = Inr cfg"
    by (cases "Load (ou_parseFloat ou) vars") (simp_all add: boot_def)
  obtain tr ot where tr: "InitTracer new_exporter ''payment-orchestrator'' (trace_settings_of cfg) no_otel = (tr, ot)"
    by (metis surj_pair)
  obtain st p' where st: "start_server ou vars p = (st, p')" by (metis surj_pair)
  with assms cfg tr obtain ap rt where "st = Running (ap, rt)"
    by (cases st) (auto simp: boot_def)
  with assms cfg tr st that show thesis by (auto simp: boot_def)
qed

section \<open>Deployments\<close>

text \<open>
  What a new process finds: the tables, Redis and Pub/Sub as they are, the providers' world as it is, and
  everything it keeps in memory new: breakers, failure trackers, rate limiter, metrics.
\<close>

definition fresh_memory ::
  "('r, 'p) live_process \<Rightarrow> 'p \<Rightarrow> (mock_world, 'r, 'p) system \<Rightarrow> (mock_world, 'r, 'p) system" where
  "fresh_memory rn p s =
     (case s of (rl, logs, m, b) \<Rightarrow>
        (NewRateLimiter 100 second 200, logs, new_http_metrics,
         b\<lparr>be_sys := (be_sys b)\<lparr>srouter := rn_router rn, pubsub_on := (ap_pubsub (rn_app rn) \<noteq> None)\<rparr>,
           be_pubsub := p, be_auth := (\<lambda>_. newAuthFailureTracker 10 (15 * minute))\<rparr>))"

definition pubsub_state :: "('w, 'r, 'p) system \<Rightarrow> 'p" where
  "pubsub_state s = (case s of (rl, logs, m, b) \<Rightarrow> be_pubsub b)"

datatype ('r, 'p) deployment_event =
    Booted "string \<Rightarrow> err option" "('r, 'p) outside" variables
  | Happened happening
  | Worked system_event
  | Killed

text \<open>A deployment: the process, if there is one, and the system it works on.\<close>

type_synonym ('r, 'p) deployment = "('r, 'p) process option \<times> (mock_world, 'r, 'p) system"

fun deployment_step ::
  "(string \<Rightarrow> string \<Rightarrow> selection) \<Rightarrow> app_lib \<Rightarrow> wm_codec \<Rightarrow> ('r, 'p) deployment \<Rightarrow> ('r, 'p) deployment_event \<Rightarrow> ('r, 'p) deployment" where
  "deployment_step route_of lib codec (Some (Up rn), s) (Worked e) =
     (Some (Up rn), system_step route_of (rn_app rn) lib codec s e)"
| "deployment_step route_of lib codec (Some pr, s) (Happened h) = (Some (process_step pr h), s)"
| "deployment_step route_of lib codec (Some (Up rn), s) (Booted new_exporter ou vars) = (Some (Up rn), s)"
| "deployment_step route_of lib codec (pr, s) (Booted new_exporter ou vars) =
     (case boot new_exporter ou vars (pubsub_state s) of
        (Up rn, p) \<Rightarrow> (Some (Up rn), fresh_memory rn p s)
      | (Down status calls, p) \<Rightarrow> (Some (Down status calls), s))"
| "deployment_step route_of lib codec (pr, s) Killed = (None, s)"
| "deployment_step route_of lib codec d _ = d"

lemma fresh_memory_db [simp]: "system_db (fresh_memory rn p s) = system_db s"
  by (simp add: fresh_memory_def system_db_def get_db_def split: prod.split)

context tables_property begin

lemma deployment_step_keeps:
  fixes dp :: "('r, 'p) deployment"
  assumes "P (system_db (snd dp))"
  shows "P (system_db (snd (deployment_step route_of lib codec dp e)))"
  using assms
  by (cases "(route_of, lib, codec, dp, e)" rule: deployment_step.cases)
    (auto simp: system_step_keeps split: prod.split process.split)

end

sublocale tables_property \<subseteq> deployed: machine "deployment_step route_of lib codec" "\<lambda>dp. P (system_db (snd dp))"
  for route_of lib codec
  by unfold_locales (rule deployment_step_keeps)

text \<open>
  C2: the books survive everything: through any number of processes, each started with any configuration
  in any surroundings, starts that fail, crashes, shutdowns in time or not, and whatever each process
  serves, receives and sweeps in between, what happens to the payments is a course of openings,
  authorizations, captures, refunds, cancellations and failures, and the invariants of payments and
  ledger hold.
\<close>

theorem deployments_refine_lifecycle:
  fixes b :: "(mock_world, 'r, 'p) backend"
  shows "let run = foldl (deployment_step route_of lib codec);
       dp = run (None, rl, logs, m, set_db migrated_db b) es; dp' = run dp fs
   in life_step\<^sup>*\<^sup>* Map.empty (lives_of (system_db (snd dp)))
    \<and> life_step\<^sup>*\<^sup>* (lives_of (system_db (snd dp))) (lives_of (system_db (snd dp')))
    \<and> payments_inv (system_db (snd dp')) \<and> ledger_inv (system_db (snd dp'))"
proof -
  let ?run = "foldl (deployment_step route_of lib codec)"
  define dp where "dp = ?run (None, rl, logs, m, set_db migrated_db b) es"
  have "refined_since migrated_db (system_db (snd (None :: ('r, 'p) process option, rl, logs, m, set_db migrated_db b)))"
    by (simp add: refined_since_def system_db_def db_part.get_put core_inv_def payments_inv_migrated ledger_inv_migrated)
  then have first: "refined_since migrated_db (system_db (snd dp))"
    unfolding dp_def by (rule refining.deployed.run_keeps_inv)
  then have "refined_since (system_db (snd dp)) (system_db (snd dp))" by (simp add: refined_since_def)
  then have "refined_since (system_db (snd dp)) (system_db (snd (?run dp fs)))" by (rule refining.deployed.run_keeps_inv)
  with first show ?thesis by (simp add: refined_since_def core_inv_def lives_migrated dp_def Let_def)
qed

section \<open>Lost events\<close>

text \<open>
  C32: a webhook event whose processing failed after its row was written is lost: nothing of it reaches the
  payments and the ledger, and whatever the deployment goes through from there on, restarts included, no
  delivery of the same event, under any signature and at any time, and no retry of the dead letter queue
  changes any table. When the lookup of the row works, a retry and a delivery that verifies even report
  success.
\<close>

theorem failed_webhook_is_never_reprocessed:
  fixes dp :: "('r, 'p) deployment" and adps' :: "string \<rightharpoonup> 'w psp_adapter"
  assumes "core_inv d" and "IngestWebhook lib adps env psp ty payload sig d = (Inl e, d1)" and "d1 \<noteq> d"
    and "system_db (snd dp) = d1" and "d2 = system_db (snd (foldl (deployment_step route_of alib codec) dp es))"
  shows "payments d1 = payments d \<and> payment_state_transitions d1 = payment_state_transitions d
    \<and> ledger_accounts d1 = ledger_accounts d \<and> ledger_entries d1 = ledger_entries d
    \<and> ledger_transactions d1 = ledger_transactions d
    \<and> snd (IngestWebhook lib adps' env' psp ty payload sig' d2) = d2
    \<and> snd (IngestWebhookRetry lib adps' env' psp ty payload d2) = d2
    \<and> (adps' psp = Some adp \<and> e_fault env' 0 FindWebhook = None \<longrightarrow>
         IngestWebhookRetry lib adps' env' psp ty payload d2 = (Inr (), d2)
         \<and> (ad_VerifyWebhookSignature adp payload sig' = None \<and> validateWebhookFreshness lib (e_now env' 0) payload = None
              \<longrightarrow> IngestWebhook lib adps' env' psp ty payload sig' d2 = (Inr (), d2)))"
proof -
  note fail = failed_ingest [OF assms(2,3)]
  from assms(2) ingest_keeps_inv [OF assms(1)] have "core_inv d1" unfolding IngestWebhook_def by blast
  with fail(1) have "recorded (idempotency_key lib psp ty payload) (system_db (snd dp))"
    by (simp add: recorded_def assms(4))
  then have "recorded (idempotency_key lib psp ty payload) d2"
    unfolding assms(5) by (rule recording.deployed.run_keeps_inv)
  then have known: "webhook_by_key d2 (idempotency_key lib psp ty payload) \<noteq> None" by (simp add: recorded_def)
  show ?thesis
    using fail(2) delivery_known_key [OF known] retry_known_key [OF known, of adps' env'] by auto
qed

text \<open>A capture for a payment that is not there yet fails; redelivered after a restart, it is skipped.\<close>

lemma failed_webhook_is_never_reprocessed_witness:
  "\<exists>e d1. IngestWebhook demo_lib demo_adapters web_env PSPMock ''payment.captured'' ''unknown'' (demo_sig ''unknown'') authorized_db
      = (Inl e, d1) \<and> d1 \<noteq> authorized_db
    \<and> (\<forall>rl logs m (b :: (mock_world, memory, unit) backend) vars.
        let d2 = system_db (snd (foldl (deployment_step segment_route demo_app_lib demo_message_codec)
                   (None, rl, logs, m, set_db d1 b) [Booted (\<lambda>_. None) demo_outside vars, Killed]))
        in IngestWebhookRetry demo_lib demo_adapters quiet_env PSPMock ''payment.captured'' ''unknown'' d2 = (Inr (), d2))"
proof -
  from demo_failed_ingest obtain e d1 where failed: "IngestWebhook demo_lib demo_adapters web_env PSPMock ''payment.captured''
      ''unknown'' (demo_sig ''unknown'') authorized_db = (Inl e, d1)" "d1 \<noteq> authorized_db" by blast
  have inv: "core_inv authorized_db" using demo_dbs by (simp add: core_inv_def)
  have start: "system_db (snd (None :: (memory, unit) process option, rl, logs, m, set_db d1 b)) = d1"
    for rl logs m and b :: "(mock_world, memory, unit) backend"
    by (simp add: system_db_def db_part.get_put)
  have found: "e_fault quiet_env 0 FindWebhook = None" by (simp add: quiet_env_def)
  show ?thesis
    using failed failed_webhook_is_never_reprocessed [OF inv failed start refl, where adps' = demo_adapters and env' = quiet_env]
      demo_adapters_mock found
    unfolding Let_def by blast
qed

end
