(* ===== verification/Load_Test.thy ===== *)
theory Load_Test
  imports Handlers
begin

text \<open>
  The load test \<^verbatim>\<open>loadtest.go\<close>: fifty workers that share two atomic counters post ten thousand payments. The
  counters are 32-bit; the additions of the workers interleave in any order. What the random source and
  the HTTP client return is the environment's.
\<close>

section \<open>The request\<close>

definition hex_digit :: "nat \<Rightarrow> char" where
  "hex_digit n = ''0123456789abcdef'' ! (n mod 16)"

definition randomUUID :: "8 word list \<Rightarrow> string" where
  "randomUUID b = concat (map (\<lambda>x. [hex_digit (unat x div 16), hex_digit (unat x mod 16)]) b)"

definition json_string :: "string \<Rightarrow> string" where
  "json_string s = CHR 0x22 # s @ [CHR 0x22]"

definition load_payload :: "string \<Rightarrow> string" where
  "load_payload order =
     ''{'' @ json_string ''merchant_id'' @ '':'' @ json_string ''merchant_123''
     @ '','' @ json_string ''order_id'' @ '':'' @ json_string (''order_'' @ order)
     @ '','' @ json_string ''amount'' @ '':1500''
     @ '','' @ json_string ''currency'' @ '':'' @ json_string ''USD''
     @ '','' @ json_string ''payment_method'' @ '':'' @ json_string ''card''
     @ '','' @ json_string ''return_url'' @ '':'' @ json_string ''https://example.com'' @ ''}''"

definition load_request :: "string \<Rightarrow> 8 word list \<Rightarrow> 8 word list \<Rightarrow> http_request" where
  "load_request addr order key =
     (request_from addr [(''Authorization'', ''Bearer dev-admin-key''), (''Content-Type'', ''application/json''),
        (''Idempotency-Key'', randomUUID key)])
     \<lparr>hq_Method := ''POST'', hq_Path := ''/v1/payments'', hq_Body := load_payload (randomUUID order)\<rparr>"

section \<open>Counting\<close>

definition totalRequests :: int where "totalRequests = 10000"

definition concurrency :: int where "concurrency = 50"

definition requestsPerWorker :: int where "requestsPerWorker = totalRequests div concurrency"

datatype call_result = No_response err | Status_code int

record load_tally =
  successCount :: "32 word"
  failCount :: "32 word"

definition succeeded :: "call_result \<Rightarrow> bool" where
  "succeeded r \<longleftrightarrow> (case r of No_response _ \<Rightarrow> False | Status_code n \<Rightarrow> n = 201 \<or> n = 200)"

definition count_result :: "load_tally \<Rightarrow> nat \<times> call_result \<Rightarrow> load_tally" where
  "count_result t wr =
     (if succeeded (snd wr) then t\<lparr>successCount := successCount t + 1\<rparr> else t\<lparr>failCount := failCount t + 1\<rparr>)"

text \<open>An interleaving of the workers' loops: every worker makes its number of requests.\<close>

definition whole_run :: "(nat \<times> call_result) list \<Rightarrow> bool" where
  "whole_run rs \<longleftrightarrow> fst ` set rs \<subseteq> {..<nat concurrency}
     \<and> (\<forall>w < nat concurrency. int (count_list (map fst rs) w) = requestsPerWorker)"

definition reqPerSec :: "rat \<Rightarrow> rat" where
  "reqPerSec seconds = of_int totalRequests / seconds"

section \<open>What the report says\<close>

lemma counted:
  "foldl count_result t rs =
     t\<lparr>successCount := successCount t + of_nat (length (filter (succeeded \<circ> snd) rs)),
       failCount := failCount t + of_nat (length (filter (Not \<circ> succeeded \<circ> snd) rs))\<rparr>"
  by (induction rs arbitrary: t) (simp_all add: count_result_def)

lemma sint32_of_nat: "n < 2 ^ 31 \<Longrightarrow> sint (of_nat n :: 32 word) = int n"
  by (simp add: signed_of_nat signed_take_bit_int_eq_self)

lemma whole_run_length:
  assumes "whole_run rs"
  shows "length rs = 10000"
proof -
  have "sum (count_list (map fst rs)) {..<nat concurrency} = length (map fst rs)"
    using assms by (intro sum_count_set) (auto simp: whole_run_def)
  moreover have "sum (count_list (map fst rs)) {..<nat concurrency} = sum (\<lambda>_. nat requestsPerWorker) {..<nat concurrency}"
    using assms by (intro sum.cong) (auto simp: whole_run_def)
  ultimately show ?thesis by (simp add: concurrency_def requestsPerWorker_def totalRequests_def)
qed

text \<open>
  The load test loses no request: however its workers interleave, the reported successes are exactly
  the answers with status 200 or 201, and successes and failures add up to the ten thousand requests.
\<close>

theorem load_test_counts:
  assumes "whole_run rs"
  shows "let t = foldl count_result \<lparr>successCount = 0, failCount = 0\<rparr> rs in
    sint (successCount t) = int (length (filter (\<lambda>r. r = Status_code 200 \<or> r = Status_code 201) (map snd rs)))
    \<and> sint (successCount t) + sint (failCount t) = totalRequests"
proof -
  have len: "length (filter (succeeded \<circ> snd) rs) + length (filter (Not \<circ> succeeded \<circ> snd) rs) = 10000"
    using sum_length_filter_compl [of "succeeded \<circ> snd" rs] whole_run_length [OF assms] by (simp add: comp_def)
  have "(\<lambda>r. r = Status_code 200 \<or> r = Status_code 201) = succeeded"
    by (auto simp: succeeded_def fun_eq_iff split: call_result.split)
  with len show ?thesis
    by (simp add: counted sint32_of_nat filter_map totalRequests_def Let_def)
qed

lemma count_list_replicate: "count_list (replicate k x) y = (if x = y then k else 0)"
  by (cases "x = y"; induction k) simp_all

lemma load_test_counts_witness:
  "let rs = concat (map (\<lambda>w. replicate 200 (w, Status_code 201)) [0..<50]);
       t = foldl count_result \<lparr>successCount = 0, failCount = 0\<rparr> rs
   in sint (successCount t) + sint (failCount t) = totalRequests"
proof -
  have "count_list (map fst (concat (map (\<lambda>w. replicate 200 (w, Status_code 201)) [0..<n]))) w = (if w < n then 200 else 0)" for n w
    by (induction n) (auto simp: count_list_replicate)
  then have "whole_run (concat (map (\<lambda>w. replicate 200 (w, Status_code 201)) [0..<50]))"
    by (auto simp: whole_run_def concurrency_def requestsPerWorker_def totalRequests_def)
  from load_test_counts [OF this] show ?thesis by (simp add: Let_def)
qed

text \<open>Its request is one the create handler accepts from an administrator's key.\<close>

lemma load_request_accepted:
  assumes "rq_Amount req = 1500" "rq_Currency req = ''USD''" "rq_OrderID req = ''order_'' @ order" "rq_MerchantID req = ''merchant_123''"
    and "IsAdmin r"
  shows "create_check now r req = None"
  using assms by (simp add: create_check_def) code_simp

end
