(* ===== verification/Spec2Isabelle.thy ===== *)
theory Spec2Isabelle
  imports Isolation Overlap Progress Process Load_Test
begin

text \<open>
  The resilient settlement orchestrator, a payment server in Go: it creates, captures, refunds and
  cancels payments through providers, keeps a double-entry ledger, ingests the providers' webhooks and
  reconciles its payments with them. This development models the server and proves what it
  guarantees. Paths below are relative to \<^verbatim>\<open>src/internal\<close>.

  \<^bold>\<open>The parts and how they interact.\<close> A request passes the global middleware, is routed, passes the
  middleware of its route group (authentication; for payments also idempotency over Redis) and reaches
  a handler. The handler calls a service. The payment service asks the router for a provider, calls it
  through the retry loop and writes payment rows and their audit trail in transactions; the provider's
  webhook, taken directly or through Pub/Sub, moves the payment on and posts its amount to the ledger.
  Reconciliation compares a day's payments with the provider; the dashboard aggregates the tables; the
  dead letter queue keeps failed webhooks in Redis.

  \<^bold>\<open>Theories.\<close>
    \<^item> \<open>Prelude\<close>: the collections of simplification rules, \<^verbatim>\<open>int64\<close> as a 64-bit word, error-or-value results,
      transactions, and the interface \<open>machine\<close>, which lifts a one-step invariant to runs. \<open>Text\<close> and \<open>Dates\<close>:
      the string, number and calendar functions of Go's library the code uses.
    \<^item> \<open>Errors\<close> (\<^verbatim>\<open>service/errors.go\<close> and every constructed error), \<open>Models\<close> (\<^verbatim>\<open>models\<close>), \<open>Database\<close>: the tables of
      \<^verbatim>\<open>migrations\<close> with their constraints, the SQL statements, the environment of an operation (clock, new
      identifiers, which statement fails and how) and the invariant of the payment tables.
    \<^item> \<open>State_Machine\<close> (\<^verbatim>\<open>service/statemachine.go\<close>), \<open>Circuit_Breaker\<close> (\<^verbatim>\<open>pkg/circuitbreaker\<close>, with an abstract breaker it
      refines), \<open>Retry\<close> (\<^verbatim>\<open>pkg/retry\<close>), \<open>Adapters\<close> (\<^verbatim>\<open>adapter\<close>), \<open>Router\<close> (\<^verbatim>\<open>service/router.go\<close>, compared with a
      specification that has no state), \<open>Ledger\<close> (\<^verbatim>\<open>service/ledger.go\<close>, with the interface \<open>entry_poster\<close>),
      \<open>Payment_Service\<close> (\<^verbatim>\<open>service/payment.go\<close>), \<open>Webhook_Service\<close> (\<^verbatim>\<open>service/webhook.go\<close>), \<open>Reconciliation\<close>,
      \<open>Dashboard\<close> and \<open>DLQ\<close> (the files of the same names), \<open>PubSub\<close> (\<^verbatim>\<open>pubsub\<close>).
    \<^item> \<open>Http\<close>: requests, responses, handlers (\<^verbatim>\<open>pkg/response\<close>). \<open>Real_IP\<close>, \<open>Auth\<close>, \<open>Rate_Limit\<close>, \<open>Idempotency\<close>, \<open>Middleware\<close>: the
      files of \<^verbatim>\<open>middleware\<close>; \<open>Keyed\<close> is the contract of a table that a background loop sweeps, \<open>Redis\<close> the laws
      of the commands sent to Redis. \<open>Metrics\<close> (\<^verbatim>\<open>pkg/metrics\<close>).
    \<^item> \<open>Handlers\<close> and \<open>Handler_Props\<close> (\<^verbatim>\<open>handler\<close>), \<open>Config\<close> (\<^verbatim>\<open>config\<close>, \<^verbatim>\<open>database\<close>, \<^verbatim>\<open>pkg/tracing\<close>), \<open>Server\<close> and
      \<open>Server_Props\<close> (\<^verbatim>\<open>cmd/server/main.go\<close>): start-up, routes, the chain, over one state \<open>backend\<close>; a handler
      works on its part of it along the interface \<open>part\<close>. \<open>System\<close>: requests, queued webhooks and sweeps
      in any order. \<open>Exactly_Once\<close>: an idempotency key followed through such a run. \<open>Isolation\<close>: what the store of
      idempotency keys holds under the name of a merchant, through such a run, and so what another merchant
      can be answered. \<open>Overlap\<close>: service calls and
      webhooks cut into their atomic parts, which run in any interleaving, with crashes in mid-operation; the parts
      transcribe the operations a second time, and \<open>parts_make_the_operation\<close> shows that the two agree.
    \<^item> \<open>Lifecycle\<close>: the abstract payment \<open>life\<close> and its step relation \<open>life_step\<close>, which every payment step refines,
      and two interfaces: \<open>tables_property\<close> is what a property of the tables must satisfy to hold through every run of
      the server and of a deployment, which \<open>System\<close> and \<open>Process\<close> prove once inside it; \<open>books_property\<close> is the stronger
      contract of one that only looks at payments and ledger, on which \<open>Overlap\<close> rests. They are
      interpreted on the invariant, on refinement since a starting point, on a payment that is settled, and
      on a webhook event whose row is there.
    \<^item> \<open>Progress\<close>: what succeeds when nothing fails, and what a creation that was interrupted leaves behind.
      \<open>Process\<close> (\<^verbatim>\<open>cmd/server/main.go\<close>): resources and their deferred closing, log level, the two listeners, the
      signal, the graceful shutdown and deployments one after the other on one database.
      \<open>Load_Test\<close>: the client \<^verbatim>\<open>loadtest.go\<close>, in the root of the repository, whose requests the handler accepts.

  \<^bold>\<open>What the lemmas show.\<close> The invariants \<open>payments_inv\<close> and \<open>ledger_inv\<close> (audit trails replay along the
  transition table, refunds are bounded, balances are the fold of their entries, transactions and the
  trial balance balance) are kept by each statement, each transaction, each service operation, each
  handler and, by \<open>system_keeps_books\<close>, the whole server. Each payment and webhook operation has its
  exact effect on every branch, and a branch that fails changes nothing. Routing, breaker, idempotency,
  rate limiting and lock-out are shown against specifications or for arbitrary interleavings. The
  server-level theorems state isolation of merchants, replayed answers included, protection of routes (which
  patterns are behind a key is \<open>protected_patterns\<close>), safety of reading and that a
  payment request that succeeded is not executed again. The tables refine the abstract life cycle along
  every run of the server, every interleaving and every sequence of deployments, and a settled payment
  stays as it is. With working statements and a provider that answers, a creation ends authorized and its
  capture and refund go through (\<open>payment_goes_through\<close>, \<open>authorized_payment_settles\<close>). Where
  the code does not do what it means to, a theorem shows that: admin routes, events that failed once and are
  lost for every later delivery and retry, the activity feed, the export of histograms, production without a provider, creations that are
  interrupted between their two transactions and stay created for ever.

  \<^bold>\<open>Bounds and termination.\<close> \<open>Do_from\<close> recurses on the attempts that remain, \<open>sanitizeLogValue\<close> and \<open>trim_left\<close> on the
  length; everything else is structural, and no definition uses fuel. Amounts and balances are 64-bit words
  and wrap; \<open>wrapped_sums_are_accepted\<close> shows where that matters, \<open>aggregates_do_not_overflow\<close> that the bound of
  the handlers on an amount keeps sums in range up to 9223372 payments. Counters that grow by one
  per event and instants are integers.

  \<^bold>\<open>Parameters.\<close> Code that is not in the repository is an argument: JSON codecs, \<^verbatim>\<open>time.Parse\<close> of RFC 3339,
  name-based UUIDs, HMAC, \<^verbatim>\<open>strconv.ParseFloat\<close>, the SDKs of Stripe and Razorpay, Redis, Pub/Sub, chi's matching of
  paths (\<open>route_of\<close> with the interface \<open>mux\<close>), random samples, the runtime's statistics. Clocks, identifiers and
  failures come from the environment. Laws are assumed only where a theorem names them, and each is shown
  to hold for a concrete instance.

  \<^bold>\<open>Sequential steps.\<close> A transaction is one step, since it locks the row it works on; a service operation
  is a sequence of them and of provider calls, and in \<open>System\<close> a request runs to its end before the next. \<open>Overlap\<close> lifts
  that: jobs are interleaved at every statement, transaction and provider call, and a crash cuts off all
  of them where they stand (a capture or refund is one part,
  as it holds the row lock from its first read to its commit, and its read-back is counted in; the calls of one retry loop are one part). Requests
  that overlap inside the idempotency middleware, and an enqueue inside a retry, are interleavings too.

  \<^bold>\<open>Not modelled.\<close> Spans and what the exporter does with them (the choice of exporter, the registration of the
  provider and its shutdown are modelled); log lines other than the request log and the fatal ones of
  start-up; the time-outs of the pool and of the HTTP server, other than as failures of calls; the JSON text
  of responses; the static files of the dashboard; accessors of the Pub/Sub client; \<^verbatim>\<open>ReadBodyAndReset\<close>, which has
  no caller. These are input and output, or code outside the repository.

  \<^bold>\<open>Simplifications.\<close> Identifiers are compared as strings, where the columns of type UUID ignore case and reject
  a malformed text with an error of the driver (such an error can be injected as a failing statement).
  Instants are exact, where a timestamp column keeps microseconds. The time-outs of chi and of
  the HTTP server, 30 and 15 seconds, show as calls that fail; their own answers are left out.
\<close>

end
